(* ===== verification/Go_Base.thy ===== *)
theory Go_Base
  imports Main "HOL-Library.Word" "HOL-Library.AList" "HOL-Library.Multiset"
    "HOL-Library.Char_ord" "HOL-Library.List_Lexorder" "HOL-Library.Sublist"
begin

section \<open>The Go values the components share\<close>

text \<open>
  The part of the Go language and of its standard library that the modelled packages use:
  64-bit integers, instants and durations of package \<open>time\<close>, buffered channels, maps,
  byte strings with the functions of packages \<open>strings\<close>, \<open>strconv\<close>, \<open>encoding/hex\<close> and
  \<open>encoding/base64\<close>, and the conversion of an integer to \<open>float64\<close>.
  The lemmas are the shared automation of the component theories.
\<close>

named_theorems go_defs \<open>unfolding rules of the operations of the Go library\<close>
named_theorems invar_intros \<open>an operation of a component keeps the component's invariant\<close>
named_theorems frame_simps \<open>a field an operation does not write\<close>

subsection \<open>Integers\<close>

text \<open>
  A Go \<open>int64\<close> (and \<open>int\<close>, 64 bits wide on the supported platforms) is an \<open>int\<close> whose sums
  are reduced by \<open>wrap64\<close> wherever an operation can leave the range. An \<open>uint64\<close> is a
  \<open>64 word\<close>.
\<close>

type_synonym uint64 = "64 word"

definition MaxInt64 :: int where
  "MaxInt64 = 9223372036854775807"

definition in_int64 :: "int \<Rightarrow> bool" where
  "in_int64 x \<longleftrightarrow> - MaxInt64 - 1 \<le> x \<and> x \<le> MaxInt64"

definition wrap64 :: "int \<Rightarrow> int" where
  "wrap64 x = (x + MaxInt64 + 1) mod (2 * (MaxInt64 + 1)) - MaxInt64 - 1"

lemma wrap64_id: "in_int64 x \<Longrightarrow> wrap64 x = x"
  by (simp add: wrap64_def in_int64_def MaxInt64_def)

lemma wrap64_in_range: "in_int64 (wrap64 x)"
  by (simp add: wrap64_def in_int64_def MaxInt64_def)


lemma in_int64_between: "in_int64 a \<Longrightarrow> in_int64 b \<Longrightarrow> a \<le> x \<Longrightarrow> x \<le> b \<Longrightarrow> in_int64 x"
  by (simp add: in_int64_def)

text \<open>
  \<open>float64(n)\<close> for an integer \<open>n\<close>: the nearest multiple of a power of two that leaves 53
  significant bits, ties to the even quotient, given as the exact integer the float denotes.
\<close>

fun bit_length :: "nat \<Rightarrow> nat" where
  "bit_length n = (if n = 0 then 0 else Suc (bit_length (n div 2)))"

declare bit_length.simps [simp del]

definition float64_of_nat :: "nat \<Rightarrow> nat" where
  "float64_of_nat n =
     (if n \<le> 2 ^ 53 then n
      else let e = bit_length n - 53; q = n div 2 ^ e; r = n mod 2 ^ e
        in (if 2 * r < 2 ^ e \<or> (2 * r = 2 ^ e \<and> even q) then q else q + 1) * 2 ^ e)"

definition float64_of_int :: "int \<Rightarrow> int" where
  "float64_of_int n = (if n < 0 then - int (float64_of_nat (nat (- n))) else int (float64_of_nat (nat n)))"

lemma bit_length_lower: "0 < n \<Longrightarrow> 2 ^ (bit_length n - 1) \<le> n"
proof (induction n rule: bit_length.induct)
  case (1 n)
  show ?case
  proof (cases "n div 2 = 0")
    case True
    with 1 show ?thesis by (simp add: bit_length.simps [of n] bit_length.simps [of 0])
  next
    case False
    then have pos: "0 < bit_length (n div 2)" by (simp add: bit_length.simps [of "n div 2"])
    from False 1 have "2 ^ (bit_length (n div 2) - 1) \<le> n div 2" by simp
    then have "2 * 2 ^ (bit_length (n div 2) - 1) \<le> n" by linarith
    also have "(2::nat) * 2 ^ (bit_length (n div 2) - 1) = 2 ^ bit_length (n div 2)"
      using pos by (simp flip: power_Suc)
    finally show ?thesis using 1 by (simp add: bit_length.simps [of n])
  qed
qed

lemma bit_length_upper: "n < 2 ^ bit_length n"
proof (induction n rule: bit_length.induct)
  case (1 n)
  show ?case
  proof (cases "n = 0")
    case False
    then have "n div 2 < 2 ^ bit_length (n div 2)" using 1 by simp
    then have "n < 2 * 2 ^ bit_length (n div 2)" by linarith
    then show ?thesis using False by (simp add: bit_length.simps [of n])
  qed (simp add: bit_length.simps [of 0])
qed

lemma bit_length_le: "n < 2 ^ b \<Longrightarrow> bit_length n \<le> b"
proof (cases "n = 0")
  case False
  assume "n < 2 ^ b"
  with False bit_length_lower [of n] have "(2::nat) ^ (bit_length n - 1) < 2 ^ b" by linarith
  then have "bit_length n - 1 < b" by (simp add: power_strict_increasing_iff)
  then show ?thesis by simp
qed (simp add: bit_length.simps [of 0])

lemma float64_of_nat_exact: "n \<le> 2 ^ 53 \<Longrightarrow> float64_of_nat n = n"
  by (simp add: float64_of_nat_def)

lemma float64_of_nat_zero [simp]: "float64_of_nat n = 0 \<longleftrightarrow> n = 0"
proof (cases "n \<le> 2 ^ 53")
  case True
  then show ?thesis by (simp add: float64_of_nat_exact)
next
  case False
  then have n: "0 < n" by simp
  have "2 ^ (bit_length n - 53) \<le> (2::nat) ^ (bit_length n - 1)"
    by (rule power_increasing) auto
  also have "\<dots> \<le> n" using bit_length_lower [OF n] .
  finally have "1 \<le> n div 2 ^ (bit_length n - 53)"
    by (simp add: Suc_le_eq div_greater_zero_iff)
  with False n show ?thesis by (simp add: float64_of_nat_def Let_def)
qed

lemma float64_of_int_exact: "\<bar>n\<bar> \<le> 2 ^ 53 \<Longrightarrow> float64_of_int n = n"
  by (simp add: float64_of_int_def float64_of_nat_exact nat_le_iff)

lemma float64_of_int_pos [simp]: "0 < float64_of_int n \<longleftrightarrow> 0 < n"
proof (cases "n < 0")
  case False
  then show ?thesis
    using float64_of_nat_zero [of "nat n"] by (auto simp: float64_of_int_def simp del: float64_of_nat_zero)
qed (simp add: float64_of_int_def)

subsection \<open>Instants and durations\<close>

text \<open>
  A \<open>time.Duration\<close> is its number of nanoseconds. A \<open>time.Time\<close> is the number of nanoseconds
  since the zero \<open>Time\<close>, so that \<open>IsZero\<close> is equality with 0. \<open>Sub\<close> saturates at the ends of
  \<open>int64\<close>, as in package \<open>time\<close>.
\<close>

type_synonym duration = int
type_synonym time = int

definition Millisecond :: duration where "Millisecond = 1000000"
definition Second :: duration where "Second = 1000 * Millisecond"
definition Minute :: duration where "Minute = 60 * Second"
definition Hour :: duration where "Hour = 60 * Minute"

definition IsZero :: "time \<Rightarrow> bool" where "IsZero t \<longleftrightarrow> t = 0"
definition Add :: "time \<Rightarrow> duration \<Rightarrow> time" where "Add t d = t + d"
definition Before :: "time \<Rightarrow> time \<Rightarrow> bool" where "Before a b \<longleftrightarrow> a < b"
definition After :: "time \<Rightarrow> time \<Rightarrow> bool" where "After a b \<longleftrightarrow> b < a"
definition Sub :: "time \<Rightarrow> time \<Rightarrow> duration" where
  "Sub a b = max (- MaxInt64 - 1) (min MaxInt64 (a - b))"

lemmas duration_defs = Millisecond_def Second_def Minute_def Hour_def
lemmas time_defs [go_defs] = IsZero_def Add_def Before_def After_def Sub_def

subsection \<open>Maps\<close>

text \<open>
  A Go map is an association list with distinct keys, in the order in which one \<open>range\<close> loop
  over it visits the entries. Insertion is \<open>AList.update\<close>, \<open>delete\<close> is \<open>AList.delete\<close>, a lookup
  is \<open>map_of\<close>; \<open>lookup0\<close> is a lookup whose missing key gives the zero value.
\<close>

type_synonym ('k, 'v) gomap = "('k \<times> 'v) list"

definition lookup0 :: "'v \<Rightarrow> ('k, 'v) gomap \<Rightarrow> 'k \<Rightarrow> 'v" where
  "lookup0 z m k = (case map_of m k of Some v \<Rightarrow> v | None \<Rightarrow> z)"

lemma set_alist_update_subset: "set (AList.update k v al) \<subseteq> insert (k, v) (set al)"
  by (induction al) auto

lemma alist_update_in: "(k, v) \<in> set (AList.update k v al)"
  by (induction al) auto

lemma alist_update_keeps: "(i, x) \<in> set xs \<Longrightarrow> k \<noteq> i \<Longrightarrow> (i, x) \<in> set (AList.update k v xs)"
  by (induction xs) auto

lemma distinct_snd_alist_update:
  "distinct (map snd al) \<Longrightarrow> v \<notin> snd ` set al \<Longrightarrow> distinct (map snd (AList.update k v al))"
proof (induction al)
  case (Cons p al)
  have "snd ` set (AList.update k v al) \<subseteq> insert v (snd ` set al)"
    using set_alist_update_subset [of k v al] by fastforce
  with Cons.prems have "snd p \<notin> snd ` set (AList.update k v al)" by auto
  with Cons show ?case by auto
qed simp

lemma set_alist_delete_subset: "set (AList.delete k al) \<subseteq> set al"
  by (simp add: AList.delete_eq)

lemma length_alist_update:
  "length (AList.update k v al) = (if k \<in> fst ` set al then length al else Suc (length al))"
  by (induction al) auto

lemma list_all_list_update: "list_all P xs \<Longrightarrow> P x \<Longrightarrow> list_all P (xs[i := x])"
  using set_update_subset_insert [of xs i x] by (auto simp: list_all_iff)

lemma map_of_alist_update: "map_of (AList.update k v al) = (map_of al)(k \<mapsto> v)"
  by (rule AList.update_conv')

text \<open>\<open>maps.Copy\<close>\<close>

definition maps_Copy :: "('k, 'v) gomap \<Rightarrow> ('k, 'v) gomap \<Rightarrow> ('k, 'v) gomap" where
  "maps_Copy dst src = foldl (\<lambda>d (k, v). AList.update k v d) dst src"

lemma map_of_maps_Copy:
  "distinct (map fst src) \<Longrightarrow> map_of (maps_Copy dst src) = map_of dst ++ map_of src"
proof (induction src arbitrary: dst)
  case (Cons p src)
  have "map_of (maps_Copy dst (p # src)) = map_of (AList.update (fst p) (snd p) dst) ++ map_of src"
    using Cons by (simp add: maps_Copy_def case_prod_unfold)
  moreover have "fst p \<notin> dom (map_of src)" using Cons.prems by (simp add: dom_map_of_conv_image_fst)
  ultimately show ?case by (auto simp: map_of_alist_update map_add_def fun_eq_iff split: option.splits)
qed (simp add: maps_Copy_def)

end
