(* ===== verification/Go_Strings.thy ===== *)
theory Go_Strings
  imports Go_Base
begin

section \<open>Byte strings\<close>

text \<open>
  A Go string is its list of bytes. This theory models what the packages use of \<open>strings\<close>
  (\<open>TrimSpace\<close>, \<open>TrimRight\<close>, \<open>Cut\<close>, \<open>CutPrefix\<close>, \<open>HasPrefix\<close>, \<open>TrimPrefix\<close>, \<open>ToLower\<close>,
  \<open>LastIndexByte\<close>), of \<open>strconv\<close> (\<open>FormatInt\<close>, \<open>Atoi\<close> and \<open>ParseInt\<close> in base ten, \<open>Quote\<close>),
  of \<open>encoding/hex\<close> and of \<open>encoding/base64\<close>.
\<close>

subsection \<open>Prefixes and cuts\<close>

definition byte :: "nat \<Rightarrow> char" where
  "byte n = char_of n"

definition HasPrefix :: "string \<Rightarrow> string \<Rightarrow> bool" where
  "HasPrefix s p \<longleftrightarrow> take (length p) s = p"

definition TrimPrefix :: "string \<Rightarrow> string \<Rightarrow> string" where
  "TrimPrefix s p = (if HasPrefix s p then drop (length p) s else s)"

definition CutPrefix :: "string \<Rightarrow> string \<Rightarrow> string \<times> bool" where
  "CutPrefix s p = (if HasPrefix s p then (drop (length p) s, True) else (s, False))"

text \<open>\<open>Cut s sep\<close> splits at the first occurrence of \<open>sep\<close>; without one it returns \<open>s\<close>, the empty string and false.\<close>

fun cut_at :: "string \<Rightarrow> string \<Rightarrow> (string \<times> string) option" where
  "cut_at [] sep = (if sep = [] then Some ([], []) else None)"
| "cut_at (c # cs) sep =
     (if HasPrefix (c # cs) sep then Some ([], drop (length sep) (c # cs))
      else map_option (\<lambda>(a, b). (c # a, b)) (cut_at cs sep))"

definition Cut :: "string \<Rightarrow> string \<Rightarrow> string \<times> string \<times> bool" where
  "Cut s sep = (case cut_at s sep of Some (a, b) \<Rightarrow> (a, b, True) | None \<Rightarrow> (s, [], False))"

lemma HasPrefix_append [simp]: "HasPrefix (p @ s) p"
  by (simp add: HasPrefix_def)

lemma HasPrefix_iff: "HasPrefix s p \<longleftrightarrow> (\<exists>t. s = p @ t)"
  by (metis HasPrefix_def HasPrefix_append append_take_drop_id)

lemma CutPrefix_append [simp]: "CutPrefix (p @ s) p = (s, True)"
  by (simp add: CutPrefix_def)

lemma CutPrefix_found: "snd (CutPrefix s p) \<longleftrightarrow> (\<exists>t. s = p @ t)"
  by (auto simp: CutPrefix_def HasPrefix_iff)

lemma cut_at_Some: "cut_at s sep = Some (a, b) \<Longrightarrow> s = a @ sep @ b"
proof (induction s arbitrary: a)
  case (Cons c cs)
  then show ?case by (auto split: if_splits simp: HasPrefix_iff)
qed (auto split: if_splits)

lemma Cut_found: "Cut s sep = (a, b, True) \<Longrightarrow> s = a @ sep @ b"
  by (auto simp: Cut_def split: option.splits dest: cut_at_Some)

lemma Cut_missing: "Cut s sep = (a, b, False) \<Longrightarrow> a = s \<and> b = []"
  by (auto simp: Cut_def split: option.splits)

subsection \<open>Trimming\<close>

text \<open>
  \<open>strip ps s\<close> removes strings of \<open>ps\<close> from the front of \<open>s\<close> for as long as one of them is
  there. The UTF-8 encodings of the white space characters of \<open>unicode.IsSpace\<close> give
  \<open>TrimSpace\<close>; the reversed encodings strip the end.
\<close>

function strip :: "string list \<Rightarrow> string \<Rightarrow> string" where
  "strip ps s =
     (case find (\<lambda>p. p \<noteq> [] \<and> HasPrefix s p) ps of
        None \<Rightarrow> s
      | Some p \<Rightarrow> strip ps (drop (length p) s))"
  by pat_completeness auto
termination
proof (relation "measure (\<lambda>(ps, s). length s)")
  fix ps :: "string list" and s p
  assume "find (\<lambda>p. p \<noteq> [] \<and> HasPrefix s p) ps = Some p"
  then have "p \<noteq> []" and "HasPrefix s p" by (auto simp: find_Some_iff)
  then have "length (drop (length p) s) < length s"
    by (auto simp: HasPrefix_iff)
  then show "((ps, drop (length p) s), ps, s) \<in> measure (\<lambda>(ps, s). length s)" by simp
qed simp

declare strip.simps [simp del]

definition space_encodings :: "string list" where
  "space_encodings = map (map byte)
     ([[9], [10], [11], [12], [13], [32], [0xC2, 0x85], [0xC2, 0xA0], [0xE1, 0x9A, 0x80]]
      @ map (\<lambda>b. [0xE2, 0x80, b]) ([0x80..<0x8B] @ [0xA8, 0xA9, 0xAF])
      @ [[0xE2, 0x81, 0x9F], [0xE3, 0x80, 0x80]])"

definition TrimSpace :: "string \<Rightarrow> string" where
  "TrimSpace s = rev (strip (map rev space_encodings) (rev (strip space_encodings s)))"

text \<open>\<open>TrimRight s cutset\<close> with a cutset of one byte.\<close>

definition TrimRightByte :: "string \<Rightarrow> char \<Rightarrow> string" where
  "TrimRightByte s c = rev (dropWhile (\<lambda>x. x = c) (rev s))"

lemma strip_None: "find (\<lambda>p. p \<noteq> [] \<and> HasPrefix s p) ps = None \<Longrightarrow> strip ps s = s"
  by (subst strip.simps) simp

lemma strip_Some:
  "find (\<lambda>p. p \<noteq> [] \<and> HasPrefix s p) ps = Some p \<Longrightarrow> strip ps s = strip ps (drop (length p) s)"
  by (subst strip.simps) simp

lemma strip_suffix: "\<exists>t. s = t @ strip ps s"
proof (induction ps s rule: strip.induct)
  case (1 ps s)
  show ?case
  proof (cases "find (\<lambda>p. p \<noteq> [] \<and> HasPrefix s p) ps")
    case None
    then show ?thesis by (simp add: strip_None)
  next
    case (Some p)
    then have "HasPrefix s p" by (auto simp: find_Some_iff)
    then obtain u where u: "s = p @ u" by (auto simp: HasPrefix_iff)
    from 1 [OF Some] u obtain t where t: "u = t @ strip ps u" by auto
    have "strip ps s = strip ps u" using strip_Some [OF Some] u by simp
    with t u have "s = (p @ t) @ strip ps s" by simp
    then show ?thesis by blast
  qed
qed

lemma strip_stable: "(\<And>p. p \<in> set ps \<Longrightarrow> p \<noteq> [] \<Longrightarrow> \<not> HasPrefix s p) \<Longrightarrow> strip ps s = s"
proof -
  assume "\<And>p. p \<in> set ps \<Longrightarrow> p \<noteq> [] \<Longrightarrow> \<not> HasPrefix s p"
  then have "find (\<lambda>p. p \<noteq> [] \<and> HasPrefix s p) ps = None" by (auto simp: find_None_iff)
  then show ?thesis by (rule strip_None)
qed

lemma strip_done: "p \<in> set ps \<Longrightarrow> p \<noteq> [] \<Longrightarrow> \<not> HasPrefix (strip ps s) p"
proof (induction ps s rule: strip.induct)
  case (1 ps s)
  then show ?case
    by (cases "find (\<lambda>p. p \<noteq> [] \<and> HasPrefix s p) ps")
       (auto simp: strip_None strip_Some find_None_iff)
qed

lemma strip_idem [simp]: "strip ps (strip ps s) = strip ps s"
  by (rule strip_stable) (rule strip_done)

lemma TrimSpace_infix: "\<exists>t u. s = t @ TrimSpace s @ u"
proof -
  obtain t where t: "s = t @ strip space_encodings s" using strip_suffix by blast
  obtain u where u: "rev (strip space_encodings s) =
      u @ strip (map rev space_encodings) (rev (strip space_encodings s))" using strip_suffix by blast
  from arg_cong [OF u, of rev] have "strip space_encodings s = TrimSpace s @ rev u"
    by (simp add: TrimSpace_def)
  with t show ?thesis by metis
qed

lemma length_TrimSpace: "length (TrimSpace s) \<le> length s"
  by (metis TrimSpace_infix length_append le_add1 le_add2 le_trans)

text \<open>A string whose bytes are all visible ASCII is its own trim.\<close>

definition visible :: "char \<Rightarrow> bool" where
  "visible c \<longleftrightarrow> 33 \<le> (of_char c :: nat) \<and> (of_char c :: nat) \<le> 126"

lemma of_char_byte: "n < 256 \<Longrightarrow> (of_char (byte n) :: nat) = n"
  by (simp add: byte_def)

lemma space_not_visible: "p \<in> set space_encodings \<Longrightarrow> p \<noteq> [] \<and> \<not> visible (hd p) \<and> \<not> visible (last p)"
  by (auto simp: space_encodings_def visible_def of_char_byte upt_rec)

lemma TrimSpace_visible: "\<forall>c \<in> set s. visible c \<Longrightarrow> TrimSpace s = s"
proof -
  assume vis: "\<forall>c \<in> set s. visible c"
  have a: "strip space_encodings s = s"
  proof (rule strip_stable)
    fix p assume p: "p \<in> set space_encodings" "p \<noteq> []"
    show "\<not> HasPrefix s p"
    proof
      assume "HasPrefix s p"
      then obtain t where "s = p @ t" by (auto simp: HasPrefix_iff)
      with p vis have "visible (hd p)" by simp
      with space_not_visible [OF p(1)] show False by simp
    qed
  qed
  have b: "strip (map rev space_encodings) (rev s) = rev s"
  proof (rule strip_stable)
    fix p assume p: "p \<in> set (map rev space_encodings)" "p \<noteq> []"
    then obtain q where q: "q \<in> set space_encodings" "p = rev q" by auto
    show "\<not> HasPrefix (rev s) p"
    proof
      assume "HasPrefix (rev s) p"
      then obtain t where "rev s = p @ t" by (auto simp: HasPrefix_iff)
      with p have "hd p \<in> set s" by (metis append_Cons hd_in_set list.collapse list.set_intros(1) set_rev)
      with vis q p have "visible (last q)" by (simp add: hd_rev)
      with space_not_visible [OF q(1)] show False by simp
    qed
  qed
  show ?thesis by (simp add: TrimSpace_def a b)
qed


subsection \<open>Decimal integers\<close>

definition digit :: "nat \<Rightarrow> char" where
  "digit d = byte (48 + d)"

definition is_digit :: "char \<Rightarrow> bool" where
  "is_digit c \<longleftrightarrow> 48 \<le> (of_char c :: nat) \<and> (of_char c :: nat) \<le> 57"

definition digit_value :: "char \<Rightarrow> nat" where
  "digit_value c = of_char c - 48"

fun utoa :: "nat \<Rightarrow> string" where
  "utoa n = (if n < 10 then [digit n] else utoa (n div 10) @ [digit (n mod 10)])"

declare utoa.simps [simp del]

text \<open>\<open>strconv.Itoa\<close>, \<open>FormatInt(n, 10)\<close> and the verb \<open>%d\<close>.\<close>

definition itoa :: "int \<Rightarrow> string" where
  "itoa n = (if n < 0 then CHR ''-'' # utoa (nat (- n)) else utoa (nat n))"

definition atou :: "string \<Rightarrow> nat" where
  "atou s = foldl (\<lambda>acc c. 10 * acc + digit_value c) 0 s"

text \<open>\<open>strconv.Atoi\<close> and \<open>ParseInt(s, 10, 64)\<close>: an optional sign, digits, and the range of \<open>int64\<close>.\<close>

definition ParseInt :: "string \<Rightarrow> int option" where
  "ParseInt s =
     (let (neg, ds) = (case s of
            c # cs \<Rightarrow> if c = CHR ''-'' then (True, cs) else if c = CHR ''+'' then (False, cs) else (False, s)
          | [] \<Rightarrow> (False, []));
          v = (if neg then - int (atou ds) else int (atou ds))
      in if ds = [] \<or> \<not> list_all is_digit ds \<or> \<not> in_int64 v then None else Some v)"

lemma digit_props: "d < 10 \<Longrightarrow> is_digit (digit d) \<and> digit_value (digit d) = d"
  by (simp add: digit_def is_digit_def digit_value_def of_char_byte)

lemma utoa_digits: "list_all is_digit (utoa n) \<and> utoa n \<noteq> []"
proof (induction n rule: utoa.induct)
  case (1 n)
  then show ?case by (cases "n < 10") (simp_all add: utoa.simps [of n] digit_props)
qed

lemma atou_utoa [simp]: "atou (utoa n) = n"
proof (induction n rule: utoa.induct)
  case (1 n)
  then show ?case by (cases "n < 10") (simp_all add: utoa.simps [of n] atou_def digit_props)
qed

lemma ParseInt_itoa: "in_int64 n \<Longrightarrow> ParseInt (itoa n) = Some n"
proof -
  assume n: "in_int64 n"
  obtain c cs where u: "utoa (nat n) = c # cs" and c: "is_digit c" and cs: "list_all is_digit cs"
    using utoa_digits [of "nat n"] by (cases "utoa (nat n)") auto
  have sign: "c \<noteq> CHR ''-''" "c \<noteq> CHR ''+''" using c by (auto simp: is_digit_def)
  show ?thesis
  proof (cases "n < 0")
    case True
    then show ?thesis using n utoa_digits [of "nat (- n)"] by (simp add: itoa_def ParseInt_def)
  next
    case False
    then have "int (atou (c # cs)) = n" using atou_utoa [of "nat n"] u by simp
    then show ?thesis using False n sign u c cs by (simp add: itoa_def ParseInt_def)
  qed
qed

lemma is_digit_visible: "is_digit c \<Longrightarrow> visible c"
  by (simp add: is_digit_def visible_def)

lemma itoa_nonempty [simp]: "itoa n \<noteq> []"
  using utoa_digits by (simp add: itoa_def)

subsection \<open>Case, positions and quoting\<close>

text \<open>
  \<open>ToLower\<close> on the letters of ASCII and on the two characters outside ASCII whose lower case is
  an ASCII letter (U+0130 and U+212A); every other byte is kept, so a result is an ASCII string
  exactly when it is in Go.
\<close>

definition lower_byte :: "char \<Rightarrow> char" where
  "lower_byte c = (if 65 \<le> (of_char c :: nat) \<and> (of_char c :: nat) \<le> 90 then byte (of_char c + 32) else c)"

fun ToLower :: "string \<Rightarrow> string" where
  "ToLower [] = []"
| "ToLower (c # cs) =
     (if HasPrefix (c # cs) (map byte [0xC4, 0xB0]) then CHR ''i'' # ToLower (drop 1 cs)
      else if HasPrefix (c # cs) (map byte [0xE2, 0x84, 0xAA]) then CHR ''k'' # ToLower (drop 2 cs)
      else lower_byte c # ToLower cs)"

definition after_last :: "string \<Rightarrow> char \<Rightarrow> string" where
  "after_last s c = rev (takeWhile (\<lambda>x. x \<noteq> c) (rev s))"

text \<open>
  The verb \<open>%q\<close>: backslash and quote are escaped, control bytes are written as escapes, and
  every other byte (ASCII or part of a printable rune) is copied.
\<close>

definition hex_digit :: "nat \<Rightarrow> char" where
  "hex_digit d = (if d < 10 then byte (48 + d) else byte (87 + d))"

definition quote_byte :: "char \<Rightarrow> string" where
  "quote_byte c =
     (let n = (of_char c :: nat) in
      if n = 34 \<or> n = 92 then [byte 92, c]
      else if n = 7 then [byte 92, CHR ''a''] else if n = 8 then [byte 92, CHR ''b'']
      else if n = 12 then [byte 92, CHR ''f''] else if n = 10 then [byte 92, CHR ''n'']
      else if n = 13 then [byte 92, CHR ''r''] else if n = 9 then [byte 92, CHR ''t'']
      else if n = 11 then [byte 92, CHR ''v'']
      else if n < 32 \<or> n = 127 then [byte 92, CHR ''x'', hex_digit (n div 16), hex_digit (n mod 16)]
      else [c])"

definition Quote :: "string \<Rightarrow> string" where
  "Quote s = [byte 34] @ concat (map quote_byte s) @ [byte 34]"

subsection \<open>Hexadecimal and base64 text\<close>

definition hex_encode :: "string \<Rightarrow> string" where
  "hex_encode bs = concat (map (\<lambda>b. [hex_digit (of_char b div 16), hex_digit (of_char b mod 16)]) bs)"

text \<open>\<open>base64.RawURLEncoding\<close>: six bits to a character, no padding.\<close>

definition base64_char :: "nat \<Rightarrow> char" where
  "base64_char d =
     (if d < 26 then byte (65 + d) else if d < 52 then byte (71 + d)
      else if d < 62 then byte (d - 4) else if d = 62 then CHR ''-'' else CHR ''_'')"

fun base64_raw_url :: "string \<Rightarrow> string" where
  "base64_raw_url [] = []"
| "base64_raw_url [a] =
     (let n = (of_char a :: nat) * 16 in [base64_char (n div 64), base64_char (n mod 64)])"
| "base64_raw_url [a, b] =
     (let n = ((of_char a :: nat) * 256 + of_char b) * 4
      in [base64_char (n div 4096), base64_char (n div 64 mod 64), base64_char (n mod 64)])"
| "base64_raw_url (a # b # c # rest) =
     (let n = ((of_char a :: nat) * 256 + of_char b) * 256 + of_char c
      in [base64_char (n div 262144), base64_char (n div 4096 mod 64),
          base64_char (n div 64 mod 64), base64_char (n mod 64)] @ base64_raw_url rest)"

lemma hex_digit_visible: "d < 16 \<Longrightarrow> visible (hex_digit d)"
  by (auto simp: hex_digit_def visible_def of_char_byte)

lemma length_hex_encode [simp]: "length (hex_encode bs) = 2 * length bs"
  by (induction bs) (simp_all add: hex_encode_def)

lemma base64_char_visible: "visible (base64_char d)"
  by (auto simp: base64_char_def visible_def of_char_byte)

lemma base64_raw_url_visible: "c \<in> set (base64_raw_url bs) \<Longrightarrow> visible c"
  by (induction bs rule: base64_raw_url.induct) (auto simp: Let_def base64_char_visible)

lemma length_base64_raw_url: "length (base64_raw_url bs) = (4 * length bs + 2) div 3"
  by (induction bs rule: base64_raw_url.induct) (simp_all add: Let_def)

end
