(* ===== verification/Kube_Types.thy ===== *)
theory Kube_Types
  imports Go_Strings
begin

section \<open>Kubernetes objects and the custom resources\<close>

text \<open>
  The data the operator reads and renders. The types of \<open>api/v1alpha1\<close> have all their fields; of
  the Kubernetes types the fields that the sources read or set. A pointer is an option, a Go map an
  association list, and a nil map of a resource list is \<open>None\<close>. A quantity is kept as the code
  writes it, because the sources only copy quantities.
\<close>

subsection \<open>Metadata and errors\<close>

record objectMeta =
  om_Name :: string
  om_Namespace :: string
  om_UID :: string
  om_Labels :: "(string, string) gomap"
  om_Annotations :: "(string, string) gomap"
  om_Generation :: int
  om_ResourceVersion :: string
  om_Controller :: "string option"
  om_Deleted :: bool

definition meta0 :: objectMeta where
  "meta0 = \<lparr>om_Name = [], om_Namespace = [], om_UID = [], om_Labels = [], om_Annotations = [], om_Generation = 0,
     om_ResourceVersion = [], om_Controller = None, om_Deleted = False\<rparr>"

text \<open>The classes of API errors the sources distinguish; every error has a text.\<close>

datatype error_class = NotFound | AlreadyExists | Conflict | NoMatch | OtherError

record go_error =
  err_class :: error_class
  err_text :: string

definition Errorf :: "string \<Rightarrow> go_error" where
  "Errorf msg = \<lparr>err_class = OtherError, err_text = msg\<rparr>"

datatype quantity = NewQuantity int | QuantityText string

type_synonym resource_list = "(string, quantity) gomap option"

datatype intstr = FromInt int | FromString string

subsection \<open>Pods\<close>

record envVar =
  env_Name :: string
  env_Value :: string
  env_FieldPath :: "string option"

definition EnvVar :: "string \<Rightarrow> string \<Rightarrow> envVar" where
  "EnvVar n v = \<lparr>env_Name = n, env_Value = v, env_FieldPath = None\<rparr>"

record volumeMount =
  vm_Name :: string
  vm_MountPath :: string
  vm_ReadOnly :: bool

datatype volumeSource =
    EmptyDir string
  | HostPath string "string option"
  | PVCSource string bool
  | SecretSource string int "(string \<times> string) list"

record volume =
  vol_Name :: string
  vol_Source :: volumeSource

record probe =
  pr_Path :: string
  pr_Port :: intstr
  pr_PeriodSeconds :: int
  pr_FailureThreshold :: int

record resourceRequirements =
  rr_Requests :: resource_list
  rr_Limits :: resource_list

record containerPort =
  cp_Name :: string
  cp_ContainerPort :: int
  cp_Protocol :: string

record securityContext =
  sc_AllowPrivilegeEscalation :: bool
  sc_ReadOnlyRootFilesystem :: bool
  sc_Drop :: "string list"

record container =
  ct_Name :: string
  ct_Image :: string
  ct_Command :: "string list"
  ct_Args :: "string list"
  ct_Env :: "envVar list"
  ct_Ports :: "containerPort list"
  ct_Resources :: resourceRequirements
  ct_ReadinessProbe :: "probe option"
  ct_LivenessProbe :: "probe option"
  ct_StartupProbe :: "probe option"
  ct_VolumeMounts :: "volumeMount list"
  ct_PreStop :: "string list option"
  ct_SecurityContext :: "securityContext option"

record toleration =
  tol_Key :: string
  tol_Operator :: string
  tol_Value :: string
  tol_Effect :: string

record podSecurityContext =
  psc_RunAsNonRoot :: bool
  psc_RunAsUser :: int
  psc_RunAsGroup :: int
  psc_FSGroup :: int
  psc_Seccomp :: string

record antiAffinity =
  aa_Weight :: int
  aa_MatchLabels :: "(string, string) gomap"
  aa_TopologyKey :: string

record podSpec =
  ps_Containers :: "container list"
  ps_InitContainers :: "container list"
  ps_Volumes :: "volume list"
  ps_NodeSelector :: "(string, string) gomap"
  ps_Tolerations :: "toleration list"
  ps_SchedulerName :: string
  ps_ImagePullSecrets :: "string list"
  ps_AutomountServiceAccountToken :: "bool option"
  ps_TerminationGracePeriodSeconds :: "int option"
  ps_RestartPolicy :: string
  ps_Affinity :: "antiAffinity option"
  ps_SecurityContext :: "podSecurityContext option"

definition resources0 :: resourceRequirements where
  "resources0 = \<lparr>rr_Requests = None, rr_Limits = None\<rparr>"

definition container0 :: container where
  "container0 = \<lparr>ct_Name = [], ct_Image = [], ct_Command = [], ct_Args = [], ct_Env = [], ct_Ports = [],
     ct_Resources = resources0, ct_ReadinessProbe = None, ct_LivenessProbe = None, ct_StartupProbe = None,
     ct_VolumeMounts = [], ct_PreStop = None, ct_SecurityContext = None\<rparr>"

definition pod0 :: podSpec where
  "pod0 = \<lparr>ps_Containers = [], ps_InitContainers = [], ps_Volumes = [], ps_NodeSelector = [], ps_Tolerations = [],
     ps_SchedulerName = [], ps_ImagePullSecrets = [], ps_AutomountServiceAccountToken = None,
     ps_TerminationGracePeriodSeconds = None, ps_RestartPolicy = [], ps_Affinity = None, ps_SecurityContext = None\<rparr>"

subsection \<open>The custom resources\<close>

record ModelSource =
  src_URI :: string
  src_SecretRef :: "string option"

record ModelSpec =
  ms_CatalogRef :: string
  ms_Source :: "ModelSource option"

record RuntimeSelector =
  rsel_Vendor :: "string list"

record RuntimeSelection =
  rs_Name :: string
  rs_Selector :: "RuntimeSelector option"
  rs_ArgsOverride :: "string list"

record AcceleratorFraction =
  af_Memory :: "quantity option"
  af_Cores :: int

record ResourceSpec =
  rsc_Accelerators :: int
  rsc_Fraction :: "AcceleratorFraction option"
  rsc_CPU :: "quantity option"
  rsc_Memory :: "quantity option"

record KEDAAuthenticationReference =
  ka_Name :: string
  ka_Kind :: string

record ExternalScalerTLSSpec =
  tls_ServerSecretName :: string
  tls_AuthenticationRef :: KEDAAuthenticationReference

record ExternalScalerSpec =
  es_TLS :: "ExternalScalerTLSSpec option"

record ScalingSpec =
  sc_Min :: int
  sc_Max :: int
  sc_Metric :: string
  sc_Target :: int
  sc_ActivationTimeout :: duration
  sc_ScaleDownStabilization :: duration
  sc_DrainTimeout :: duration
  sc_ExternalScaler :: "ExternalScalerSpec option"

record CacheSpec =
  ca_Strategy :: string
  ca_Size :: "quantity option"
  ca_StorageClassName :: "string option"
  ca_Prewarm :: bool

record GatewayComputeSpec =
  gc_CPU :: "quantity option"
  gc_Memory :: "quantity option"

record GatewayResourceSpec =
  gr_Requests :: GatewayComputeSpec
  gr_Limits :: GatewayComputeSpec

record SecretKeyReference =
  sk_Name :: string
  sk_Key :: string

record EndpointAuthenticationSpec =
  ea_SecretRef :: SecretKeyReference

record ColdStartSpec =
  cs_Mode :: string
  cs_HeartbeatInterval :: duration

record EndpointSpec =
  ep_OpenAICompatible :: bool
  ep_MaxQueue :: int
  ep_Resources :: GatewayResourceSpec
  ep_Authentication :: "EndpointAuthenticationSpec option"
  ep_ColdStart :: ColdStartSpec

record LLMServiceSpec =
  sp_Model :: ModelSpec
  sp_Runtime :: RuntimeSelection
  sp_Resources :: ResourceSpec
  sp_Scaling :: ScalingSpec
  sp_Cache :: CacheSpec
  sp_Endpoint :: EndpointSpec
  sp_ImagePullSecrets :: "string list"

datatype LLMServicePhase = PhaseNone | PhasePending | PhaseLoading | PhaseReady | PhaseScaledToZero | PhaseDegraded

datatype conditionStatus = ConditionTrue | ConditionFalse | ConditionUnknown

record condition =
  cond_Type :: string
  cond_Status :: conditionStatus
  cond_Reason :: string
  cond_Message :: string
  cond_ObservedGeneration :: int
  cond_LastTransitionTime :: time

record LLMServiceStatus =
  st_Phase :: LLMServicePhase
  st_ResolvedRuntime :: string
  st_Replicas :: int
  st_EndpointURL :: string
  st_Conditions :: "condition list"

record LLMService =
  svc_Meta :: objectMeta
  svc_Spec :: LLMServiceSpec
  svc_Status :: LLMServiceStatus

record RuntimePort =
  rp_Name :: string
  rp_ContainerPort :: int

record RuntimeContainer =
  rtc_Image :: string
  rtc_Args :: "string list"
  rtc_Env :: "envVar list"
  rtc_Port :: RuntimePort

record RuntimeScheduler =
  sch_Name :: string
  sch_Queue :: string

record AcceleratorSharing =
  sh_Supported :: bool

record AcceleratorSpec =
  acc_ResourceName :: string
  acc_Sharing :: AcceleratorSharing
  acc_NodeSelector :: "(string, string) gomap"
  acc_Tolerations :: "toleration list"
  acc_Scheduler :: RuntimeScheduler

record RuntimeHealth =
  rh_Readiness :: "probe option"
  rh_Liveness :: "probe option"
  rh_Startup :: "probe option"

record RuntimeLifecycle =
  rl_TerminationGracePeriodSeconds :: "int option"
  rl_PreStopDrain :: bool

record RuntimeMetrics =
  rmx_Path :: string
  rmx_Port :: string
  rmx_QueueDepth :: string
  rmx_KVCacheUtil :: string
  rmx_Running :: string
  rmx_TTFT :: string

record InferenceRuntimeSpec =
  ir_Family :: string
  ir_Vendor :: string
  ir_Priority :: int
  ir_Container :: RuntimeContainer
  ir_Accelerator :: AcceleratorSpec
  ir_Health :: RuntimeHealth
  ir_Lifecycle :: RuntimeLifecycle
  ir_Metrics :: RuntimeMetrics

record InferenceRuntimeStatus =
  rst_Conditions :: "condition list"

record InferenceRuntime =
  rt_Meta :: objectMeta
  rt_Spec :: InferenceRuntimeSpec
  rt_Status :: InferenceRuntimeStatus

abbreviation svc_Name :: "LLMService \<Rightarrow> string" where "svc_Name svc \<equiv> om_Name (svc_Meta svc)"
abbreviation svc_Namespace :: "LLMService \<Rightarrow> string" where "svc_Namespace svc \<equiv> om_Namespace (svc_Meta svc)"
abbreviation rt_Name :: "InferenceRuntime \<Rightarrow> string" where "rt_Name rt \<equiv> om_Name (rt_Meta rt)"

subsection \<open>Workload objects\<close>

record statusCondition =
  kc_Type :: string
  kc_Status :: conditionStatus
  kc_Reason :: string
  kc_Message :: string

record podTemplate =
  pt_Labels :: "(string, string) gomap"
  pt_Annotations :: "(string, string) gomap"
  pt_Spec :: podSpec

record deploymentStatus =
  ds_Replicas :: int
  ds_ReadyReplicas :: int
  ds_Conditions :: "statusCondition list"

definition deploymentStatus0 :: deploymentStatus where
  "deploymentStatus0 = \<lparr>ds_Replicas = 0, ds_ReadyReplicas = 0, ds_Conditions = []\<rparr>"

record deployment =
  dep_Meta :: objectMeta
  dep_Replicas :: "int option"
  dep_Selector :: "(string, string) gomap"
  dep_Template :: podTemplate
  dep_Status :: deploymentStatus

record servicePort =
  sp_Name :: string
  sp_Port :: int
  sp_TargetPort :: intstr
  sp_Protocol :: string

record service =
  ks_Meta :: objectMeta
  ks_Type :: string
  ks_Selector :: "(string, string) gomap"
  ks_Ports :: "servicePort list"

record podDisruptionBudget =
  pdb_Meta :: objectMeta
  pdb_MinAvailable :: intstr
  pdb_Selector :: "(string, string) gomap"

record pvcSpec =
  pvc_AccessModes :: "string list"
  pvc_Storage :: quantity
  pvc_StorageClassName :: "string option"

record persistentVolumeClaim =
  pvc_Meta :: objectMeta
  pvc_Spec :: pvcSpec

record jobSpec =
  job_BackoffLimit :: int
  job_Template :: podTemplate

record job =
  job_Meta :: objectMeta
  job_Spec :: jobSpec
  job_Conditions :: "statusCondition list"

record secret =
  sec_Meta :: objectMeta
  sec_Type :: string
  sec_Data :: "(string, string) gomap"

text \<open>The specification of a KEDA \<open>ScaledObject\<close>, an untyped map in the sources.\<close>

record kedaTrigger =
  tr_Type :: string
  tr_Metadata :: "(string, string) gomap"
  tr_AuthenticationRef :: "(string, string) gomap option"

record scaledObject =
  so_Meta :: objectMeta
  so_ScaleTarget :: string
  so_MinReplicaCount :: int
  so_MaxReplicaCount :: int
  so_PollingInterval :: int
  so_Triggers :: "kedaTrigger list"
  so_CooldownPeriod :: int
  so_StabilizationWindowSeconds :: int

record containerStatus =
  cst_Name :: string
  cst_Waiting :: "string option"
  cst_Running :: bool
  cst_Terminated :: "string option"
  cst_LastTerminated :: "string option"
  cst_Ready :: bool
  cst_RestartCount :: int

record pod =
  pod_Meta :: objectMeta
  pod_Phase :: string
  pod_ContainerStatuses :: "containerStatus list"
  pod_Conditions :: "statusCondition list"

datatype kobject =
    KDeployment deployment
  | KService service
  | KPodDisruptionBudget podDisruptionBudget
  | KPersistentVolumeClaim persistentVolumeClaim
  | KJob job
  | KSecret secret
  | KScaledObject scaledObject

datatype kind =
    DeploymentKind | ServiceKind | PodDisruptionBudgetKind | PersistentVolumeClaimKind | JobKind | SecretKind
  | ScaledObjectKind

fun kind_of :: "kobject \<Rightarrow> kind" where
  "kind_of (KDeployment d) = DeploymentKind"
| "kind_of (KService d) = ServiceKind"
| "kind_of (KPodDisruptionBudget d) = PodDisruptionBudgetKind"
| "kind_of (KPersistentVolumeClaim d) = PersistentVolumeClaimKind"
| "kind_of (KJob d) = JobKind"
| "kind_of (KSecret d) = SecretKind"
| "kind_of (KScaledObject d) = ScaledObjectKind"

fun meta_of :: "kobject \<Rightarrow> objectMeta" where
  "meta_of (KDeployment d) = dep_Meta d"
| "meta_of (KService d) = ks_Meta d"
| "meta_of (KPodDisruptionBudget d) = pdb_Meta d"
| "meta_of (KPersistentVolumeClaim d) = pvc_Meta d"
| "meta_of (KJob d) = job_Meta d"
| "meta_of (KSecret d) = sec_Meta d"
| "meta_of (KScaledObject d) = so_Meta d"

text \<open>An object is addressed by its kind, its namespace and its name.\<close>

type_synonym object_key = "string \<times> string"

definition key_of :: "kobject \<Rightarrow> object_key" where
  "key_of obj = (om_Namespace (meta_of obj), om_Name (meta_of obj))"

definition address :: "kobject \<Rightarrow> kind \<times> object_key" where
  "address obj = (kind_of obj, key_of obj)"

subsection \<open>Example objects\<close>

text \<open>The service and the runtime the witnesses of the component theories use.\<close>

definition example_svc :: LLMService where
  "example_svc =
     \<lparr>svc_Meta = meta0\<lparr>om_Name := ''qwen'', om_Namespace := ''ai'', om_UID := ''u1'', om_Generation := 3\<rparr>,
      svc_Spec =
        \<lparr>sp_Model = \<lparr>ms_CatalogRef = [], ms_Source = Some \<lparr>src_URI = ''hf://qwen'', src_SecretRef = None\<rparr>\<rparr>,
         sp_Runtime = \<lparr>rs_Name = [], rs_Selector = Some \<lparr>rsel_Vendor = [''nvidia'']\<rparr>, rs_ArgsOverride = []\<rparr>,
         sp_Resources = \<lparr>rsc_Accelerators = 2, rsc_Fraction = None, rsc_CPU = None, rsc_Memory = None\<rparr>,
         sp_Scaling = \<lparr>sc_Min = 0, sc_Max = 2, sc_Metric = [], sc_Target = 5, sc_ActivationTimeout = 5 * Minute,
           sc_ScaleDownStabilization = 5 * Minute, sc_DrainTimeout = 2 * Minute + 1, sc_ExternalScaler = None\<rparr>,
         sp_Cache = \<lparr>ca_Strategy = ''SharedPVC'', ca_Size = None, ca_StorageClassName = None, ca_Prewarm = True\<rparr>,
         sp_Endpoint = \<lparr>ep_OpenAICompatible = True, ep_MaxQueue = 7,
           ep_Resources = \<lparr>gr_Requests = \<lparr>gc_CPU = None, gc_Memory = None\<rparr>, gr_Limits = \<lparr>gc_CPU = None, gc_Memory = None\<rparr>\<rparr>,
           ep_Authentication = None, ep_ColdStart = \<lparr>cs_Mode = ''keepalive'', cs_HeartbeatInterval = 10 * Second\<rparr>\<rparr>,
         sp_ImagePullSecrets = []\<rparr>,
      svc_Status = \<lparr>st_Phase = PhaseNone, st_ResolvedRuntime = [], st_Replicas = 0, st_EndpointURL = [], st_Conditions = []\<rparr>\<rparr>"

definition example_rt :: InferenceRuntime where
  "example_rt =
     \<lparr>rt_Meta = meta0\<lparr>om_Name := ''vllm''\<rparr>,
      rt_Spec =
        \<lparr>ir_Family = ''vllm'', ir_Vendor = ''nvidia'', ir_Priority = 1,
         ir_Container = \<lparr>rtc_Image = ''vllm:1'', rtc_Args = [''serve''], rtc_Env = [],
           rtc_Port = \<lparr>rp_Name = ''http'', rp_ContainerPort = 8000\<rparr>\<rparr>,
         ir_Accelerator = \<lparr>acc_ResourceName = ''nvidia.com/gpu'', acc_Sharing = \<lparr>sh_Supported = False\<rparr>,
           acc_NodeSelector = [], acc_Tolerations = [], acc_Scheduler = \<lparr>sch_Name = [], sch_Queue = []\<rparr>\<rparr>,
         ir_Health = \<lparr>rh_Readiness = None, rh_Liveness = None, rh_Startup = None\<rparr>,
         ir_Lifecycle = \<lparr>rl_TerminationGracePeriodSeconds = Some 60, rl_PreStopDrain = True\<rparr>,
         ir_Metrics = \<lparr>rmx_Path = [], rmx_Port = [], rmx_QueueDepth = [], rmx_KVCacheUtil = [], rmx_Running = [], rmx_TTFT = []\<rparr>\<rparr>,
      rt_Status = \<lparr>rst_Conditions = []\<rparr>\<rparr>"

subsection \<open>Label selectors\<close>

text \<open>A label selector selects the objects that carry each of its labels.\<close>

definition selects :: "(string, string) gomap \<Rightarrow> (string, string) gomap \<Rightarrow> bool" where
  "selects sel labels \<longleftrightarrow> list_all (\<lambda>(k, v). map_of labels k = Some v) sel"

end
