(* ===== verification/Model_Resolve.thy ===== *)
theory Model_Resolve
  imports Kube_Types
begin

section \<open>Model sources\<close>

text \<open>
  \<open>internal/model/resolve.go\<close>: from the model source of a service to what the runtime loads. The
  regular expression of OCI references is an expression tree with a derivative matcher, shown equal
  to its language; \<open>path.Clean\<close> and \<open>path.Join\<close> work on the components of a slash-separated path.
  The check of Kubernetes names is a parameter.
\<close>

record ResolvedModel =
  rm_Path :: string
  rm_Source :: string
  rm_Env :: "envVar list"
  rm_PVC :: string
  rm_OCIReference :: string
  rm_OCISecretName :: string
  rm_ReadyPath :: string

definition resolved0 :: ResolvedModel where
  "resolved0 = \<lparr>rm_Path = [], rm_Source = [], rm_Env = [], rm_PVC = [], rm_OCIReference = [], rm_OCISecretName = [],
     rm_ReadyPath = []\<rparr>"

subsection \<open>Regular expressions\<close>

datatype rexp = Zero | One | Class "char \<Rightarrow> bool" | Alt rexp rexp | Seq rexp rexp | Star rexp

fun nullable :: "rexp \<Rightarrow> bool" where
  "nullable Zero = False"
| "nullable One = True"
| "nullable (Class P) = False"
| "nullable (Alt r s) = (nullable r \<or> nullable s)"
| "nullable (Seq r s) = (nullable r \<and> nullable s)"
| "nullable (Star r) = True"

fun deriv :: "char \<Rightarrow> rexp \<Rightarrow> rexp" where
  "deriv c Zero = Zero"
| "deriv c One = Zero"
| "deriv c (Class P) = (if P c then One else Zero)"
| "deriv c (Alt r s) = Alt (deriv c r) (deriv c s)"
| "deriv c (Seq r s) =
     (if nullable r then Alt (Seq (deriv c r) s) (deriv c s) else Seq (deriv c r) s)"
| "deriv c (Star r) = Seq (deriv c r) (Star r)"

fun MatchString :: "rexp \<Rightarrow> string \<Rightarrow> bool" where
  "MatchString r [] = nullable r"
| "MatchString r (c # cs) = MatchString (deriv c r) cs"

text \<open>The language of an expression.\<close>

inductive matches :: "rexp \<Rightarrow> string \<Rightarrow> bool" where
  "matches One []"
| "P c \<Longrightarrow> matches (Class P) [c]"
| "matches r w \<Longrightarrow> matches (Alt r s) w"
| "matches s w \<Longrightarrow> matches (Alt r s) w"
| "matches r u \<Longrightarrow> matches s v \<Longrightarrow> matches (Seq r s) (u @ v)"
| "matches (Star r) []"
| "matches r u \<Longrightarrow> matches (Star r) v \<Longrightarrow> matches (Star r) (u @ v)"

inductive_simps matches_simps [simp]:
  "matches Zero w" "matches One w" "matches (Class P) w" "matches (Alt r s) w"

inductive_cases matches_SeqE: "matches (Seq r s) w"
inductive_cases matches_StarE: "matches (Star r) w"

lemma nullable_iff: "nullable r \<longleftrightarrow> matches r []"
proof (induction r)
  case (Seq r s)
  then show ?case by (force elim: matches_SeqE intro: matches.intros(5) [of r "[]" s "[]", simplified])
qed (auto intro: matches.intros)

lemma star_Cons: "matches (Star r) (c # w) \<Longrightarrow> \<exists>u v. w = u @ v \<and> matches r (c # u) \<and> matches (Star r) v"
proof (induction "Star r" "c # w" arbitrary: c w rule: matches.induct)
  case (7 u v)
  then show ?case by (cases u) auto
qed

lemma seq_Cons:
  "matches (Seq r s) (c # w) \<longleftrightarrow>
     (\<exists>u v. w = u @ v \<and> matches r (c # u) \<and> matches s v) \<or> matches r [] \<and> matches s (c # w)"
proof
  assume "matches (Seq r s) (c # w)"
  then obtain u v where "c # w = u @ v" "matches r u" "matches s v" by (auto elim: matches_SeqE)
  then show "(\<exists>u v. w = u @ v \<and> matches r (c # u) \<and> matches s v) \<or> matches r [] \<and> matches s (c # w)"
    by (cases u) auto
next
  assume "(\<exists>u v. w = u @ v \<and> matches r (c # u) \<and> matches s v) \<or> matches r [] \<and> matches s (c # w)"
  then show "matches (Seq r s) (c # w)"
    using matches.intros(5) [of r "c # _" s] matches.intros(5) [of r "[]" s "c # w"] by fastforce
qed

lemma matches_Seq: "matches (Seq r s) w \<longleftrightarrow> (\<exists>u v. w = u @ v \<and> matches r u \<and> matches s v)"
  by (metis matches_SeqE matches.intros(5))

lemma deriv_iff: "matches (deriv c r) w \<longleftrightarrow> matches r (c # w)"
proof (induction r arbitrary: w)
  case (Seq r s)
  then have "matches (deriv c (Seq r s)) w \<longleftrightarrow>
      (\<exists>u v. w = u @ v \<and> matches r (c # u) \<and> matches s v) \<or> matches r [] \<and> matches s (c # w)"
    by (auto simp: nullable_iff matches_Seq)
  then show ?case by (simp only: seq_Cons)
next
  case (Star r)
  show ?case
  proof
    assume "matches (deriv c (Star r)) w"
    then obtain u v where "w = u @ v" "matches r (c # u)" "matches (Star r) v" by (auto simp: matches_Seq Star)
    then show "matches (Star r) (c # w)" using matches.intros(7) [of r "c # u" v] by simp
  next
    assume "matches (Star r) (c # w)"
    then show "matches (deriv c (Star r)) w" using star_Cons Star by (auto simp: matches_Seq)
  qed
qed auto

lemma MatchString_iff: "MatchString r w \<longleftrightarrow> matches r w"
  by (induction w arbitrary: r) (simp_all add: nullable_iff deriv_iff)

subsection \<open>The OCI reference\<close>

definition lower_alnum :: "char \<Rightarrow> bool" where
  "lower_alnum c \<longleftrightarrow> is_digit c \<or> 97 \<le> (of_char c :: nat) \<and> (of_char c :: nat) \<le> 122"

definition lower_hex :: "char \<Rightarrow> bool" where
  "lower_hex c \<longleftrightarrow> is_digit c \<or> 97 \<le> (of_char c :: nat) \<and> (of_char c :: nat) \<le> 102"

definition Opt :: "rexp \<Rightarrow> rexp" where "Opt r = Alt One r"
definition Plus :: "rexp \<Rightarrow> rexp" where "Plus r = Seq r (Star r)"

fun Lit :: "string \<Rightarrow> rexp" where
  "Lit [] = One"
| "Lit (c # cs) = Seq (Class (\<lambda>x. x = c)) (Lit cs)"

fun Times :: "nat \<Rightarrow> rexp \<Rightarrow> rexp" where
  "Times 0 r = One"
| "Times (Suc n) r = Seq r (Times n r)"

definition ociReference :: rexp where
  "ociReference =
     Seq (Class lower_alnum)
    (Seq (Opt (Seq (Star (Class (\<lambda>c. lower_alnum c \<or> c = CHR ''.'' \<or> c = CHR ''-''))) (Class lower_alnum)))
    (Seq (Opt (Seq (Lit '':'') (Plus (Class is_digit))))
    (Seq (Lit ''/'')
    (Seq (Plus (Class lower_alnum))
    (Seq (Star (Seq (Class (\<lambda>c. c \<in> {CHR ''.'', CHR ''_'', CHR ''/'', CHR ''-''})) (Plus (Class lower_alnum))))
    (Seq (Lit ''@sha256:'')
         (Times 64 (Class lower_hex))))))))"

subsection \<open>Slash-separated paths\<close>

fun split_slash :: "string \<Rightarrow> string list" where
  "split_slash [] = [[]]"
| "split_slash (c # cs) =
     (if c = CHR ''/'' then [] # split_slash cs
      else case split_slash cs of [] \<Rightarrow> [[c]] | x # xs \<Rightarrow> (c # x) # xs)"

fun join_slash :: "string list \<Rightarrow> string" where
  "join_slash [] = []"
| "join_slash [x] = x"
| "join_slash (x # y # ys) = x @ ''/'' @ join_slash (y # ys)"

text \<open>The components kept so far, the last one first.\<close>

fun clean_parts :: "bool \<Rightarrow> string list \<Rightarrow> string list \<Rightarrow> string list" where
  "clean_parts rooted [] out = rev out"
| "clean_parts rooted (x # xs) out =
     (if x = [] \<or> x = ''.'' then clean_parts rooted xs out
      else if x = ''..'' then
        (case out of
           y # ys \<Rightarrow> if y = ''..'' then clean_parts rooted xs (x # out) else clean_parts rooted xs ys
         | [] \<Rightarrow> if rooted then clean_parts rooted xs [] else clean_parts rooted xs [x])
      else clean_parts rooted xs (x # out))"

definition IsAbs :: "string \<Rightarrow> bool" where
  "IsAbs s = HasPrefix s ''/''"

definition Clean :: "string \<Rightarrow> string" where
  "Clean s =
     (let r = IsAbs s; t = (if r then ''/'' else []) @ join_slash (clean_parts r (split_slash s) [])
      in if t = [] then ''.'' else t)"

definition path_Join :: "string \<Rightarrow> string \<Rightarrow> string" where
  "path_Join a b =
     (let parts = filter (\<lambda>x. x \<noteq> []) [a, b] in if parts = [] then [] else Clean (join_slash parts))"

subsection \<open>Resolution\<close>

definition ociScheme :: string where "ociScheme = ''oci''"

definition Resolve :: "(string \<Rightarrow> bool) \<Rightarrow> ModelSpec \<Rightarrow> string + ResolvedModel" where
  "Resolve isDNS1123Subdomain model =
     (case ms_Source model of
        None \<Rightarrow>
          if ms_CatalogRef model \<noteq> []
          then Inl ''model.catalogRef resolution is not implemented yet; set model.source.uri''
          else Inl ''model.source.uri is required''
      | Some source \<Rightarrow>
          if src_URI source = [] then
            if ms_CatalogRef model \<noteq> []
            then Inl ''model.catalogRef resolution is not implemented yet; set model.source.uri''
            else Inl ''model.source.uri is required''
          else let (scheme, ref, ok) = Cut (src_URI source) ''://'' in
            if \<not> ok \<or> ref = []
            then Inl (''invalid model uri '' @ Quote (src_URI source) @ '': expected scheme://reference'')
            else let scheme = ToLower scheme in
              if src_SecretRef source \<noteq> None \<and> scheme \<noteq> ociScheme
              then Inl ''model.source.secretRef is supported only for oci:// sources''
              else if scheme = ''hf'' \<or> scheme = ''huggingface''
              then Inr (resolved0\<lparr>rm_Path := ref, rm_Source := ''hf''\<rparr>)
              else if scheme = ''modelscope''
              then Inr (resolved0\<lparr>rm_Path := ref, rm_Source := ''modelscope'',
                                  rm_Env := [EnvVar ''VLLM_USE_MODELSCOPE'' ''true'']\<rparr>)
              else if scheme = ''pvc''
              then let (pvcName, subpath, _) = Cut ref ''/'' in
                if \<not> isDNS1123Subdomain pvcName
                then Inl (''invalid pvc uri '' @ Quote (src_URI source) @ '': expected pvc://<claim>[/<subpath>]'')
                else if subpath \<noteq> [] \<and> (IsAbs subpath \<or> Clean subpath \<noteq> subpath \<or> subpath = ''..'' \<or> HasPrefix subpath ''../'')
                then Inl (''invalid pvc uri '' @ Quote (src_URI source) @ '': subpath must stay within the model volume'')
                else Inr (resolved0\<lparr>rm_Path := subpath, rm_Source := ''pvc'', rm_PVC := pvcName\<rparr>)
              else if scheme = ociScheme
              then if \<not> MatchString ociReference ref
                then Inl (''invalid oci uri '' @ Quote (src_URI source) @
                       '': expected oci://<registry>/<repository>@sha256:<64 lowercase hex characters>'')
                else let digest = TrimPrefix (after_last ref CHR ''@'') ''sha256:'';
                         cachePath = ''/cache/oci/sha256-'' @ digest;
                         resolved = resolved0\<lparr>rm_Path := cachePath, rm_Source := ociScheme, rm_OCIReference := ref,
                                              rm_ReadyPath := cachePath @ ''/.noctaya-ready''\<rparr>
                  in (case src_SecretRef source of
                        None \<Rightarrow> Inr resolved
                      | Some name \<Rightarrow>
                          if name = [] then Inl ''model.source.secretRef.name is required''
                          else Inr (resolved\<lparr>rm_OCISecretName := name\<rparr>))
              else Inl (''model uri scheme '' @ Quote scheme @
                     '' is not supported yet (use hf://, modelscope://, oci://, or pvc://)''))"


subsection \<open>Confined paths\<close>

text \<open>A component that neither is empty nor refers to the directory itself or its parent.\<close>

definition normal_part :: "string \<Rightarrow> bool" where
  "normal_part x \<longleftrightarrow> x \<noteq> [] \<and> x \<noteq> ''.'' \<and> x \<noteq> ''..'' \<and> CHR ''/'' \<notin> set x"

lemma split_slash_parts: "split_slash s \<noteq> [] \<and> (\<forall>x \<in> set (split_slash s). CHR ''/'' \<notin> set x)"
  by (induction s) (auto split: list.splits)

lemma split_slash_append: "split_slash (a @ CHR ''/'' # b) = split_slash a @ split_slash b"
proof (induction a)
  case (Cons c a)
  have "split_slash a \<noteq> []" using split_slash_parts by blast
  then show ?case using Cons by (auto split: list.splits)
qed simp

lemma split_slash_single: "CHR ''/'' \<notin> set x \<Longrightarrow> split_slash x = [x]"
  by (induction x) auto

lemma split_join: "xs \<noteq> [] \<Longrightarrow> \<forall>x \<in> set xs. CHR ''/'' \<notin> set x \<Longrightarrow> split_slash (join_slash xs) = xs"
  by (induction xs rule: join_slash.induct) (auto simp: split_slash_single split_slash_append)

lemma clean_parts_normal: "\<forall>x \<in> set xs. normal_part x \<Longrightarrow> clean_parts r xs out = rev out @ xs"
  by (induction xs arbitrary: out) (auto simp: normal_part_def)

lemma clean_parts_relative:
  assumes "\<forall>x \<in> set xs. CHR ''/'' \<notin> set x" and "out = rev (replicate k ''..'' @ ns)" and "\<forall>x \<in> set ns. normal_part x"
  shows "\<exists>k ns. clean_parts False xs out = replicate k ''..'' @ ns \<and> (\<forall>x \<in> set ns. normal_part x)"
  using assms
proof (induction xs arbitrary: out k ns)
  case (Cons x xs)
  note IH = Cons.IH [OF _ _ ] and slash = Cons.prems(1)
  have xs: "\<forall>y \<in> set xs. CHR ''/'' \<notin> set y" using slash by simp
  consider "x = [] \<or> x = ''.''" | "x = ''..''" | "normal_part x" using slash by (auto simp: normal_part_def)
  then show ?case
  proof cases
    case 1
    then show ?thesis using Cons.IH [OF xs Cons.prems(2,3)] by simp
  next
    case 2
    show ?thesis
    proof (cases ns rule: rev_cases)
      case Nil
      have step: "clean_parts False (x # xs) out = clean_parts False xs (''..'' # out)"
        using 2 Cons.prems(2) Nil by (cases k) (simp_all add: replicate_append_same)
      have "''..'' # out = rev (replicate (Suc k) ''..'' @ [])"
        using Cons.prems(2) Nil by (simp add: replicate_app_Cons_same)
      from Cons.IH [OF xs this] show ?thesis unfolding step by simp
    next
      case (snoc ms y)
      then have "y \<noteq> ''..''" using Cons.prems(3) by (simp add: normal_part_def)
      then have step: "clean_parts False (x # xs) out = clean_parts False xs (rev (replicate k ''..'' @ ms))"
        using 2 Cons.prems(2) snoc by simp
      from Cons.IH [OF xs refl, of ms k] snoc Cons.prems(3) show ?thesis unfolding step by simp
    qed
  next
    case 3
    then have step: "clean_parts False (x # xs) out = clean_parts False xs (rev (replicate k ''..'' @ ns @ [x]))"
      using Cons.prems(2) by (simp add: normal_part_def)
    have "\<forall>y \<in> set (ns @ [x]). normal_part y" using Cons.prems(3) 3 by auto
    from Cons.IH [OF xs refl this, of k] show ?thesis unfolding step by simp
  qed
qed auto

lemma join_dotdot: "\<exists>t. join_slash (''..'' # xs) = ''..'' @ t \<and> (t = [] \<or> (\<exists>u. t = CHR ''/'' # u))"
  by (cases xs) auto

lemma confined_subpath:
  assumes "s \<noteq> []" and "\<not> IsAbs s" and "Clean s = s" and "s \<noteq> ''..''" and "\<not> HasPrefix s ''../''"
  shows "s = ''.'' \<or> (\<exists>ns. ns \<noteq> [] \<and> (\<forall>x \<in> set ns. normal_part x) \<and> s = join_slash ns)"
proof -
  obtain k ns where parts: "clean_parts False (split_slash s) [] = replicate k ''..'' @ ns" and ns: "\<forall>x \<in> set ns. normal_part x"
    using clean_parts_relative [of "split_slash s" "[]" 0 "[]"] split_slash_parts [of s] by auto
  show ?thesis
  proof (cases "join_slash (replicate k ''..'' @ ns) = []")
    case True
    then show ?thesis using assms(2,3) parts by (simp add: Clean_def)
  next
    case False
    then have s: "s = join_slash (replicate k ''..'' @ ns)" using assms(2,3) parts by (simp add: Clean_def)
    have "k = 0"
    proof (rule ccontr)
      assume "k \<noteq> 0"
      then obtain k' where "k = Suc k'" by (cases k) auto
      then obtain t where "s = ''..'' @ t" "t = [] \<or> (\<exists>u. t = CHR ''/'' # u)"
        using s join_dotdot [of "replicate k' ''..'' @ ns"] by auto
      then show False using assms(4,5) by (auto simp: HasPrefix_def)
    qed
    then have "ns \<noteq> []" using False by auto
    with \<open>k = 0\<close> s ns show ?thesis by auto
  qed
qed

lemma Join_confined:
  assumes "ns \<noteq> []" and "\<forall>x \<in> set ns. normal_part x"
  shows "path_Join ''/models'' (join_slash ns) = ''/models/'' @ join_slash ns"
proof -
  have ne: "join_slash ns \<noteq> []" using assms by (cases ns rule: join_slash.cases) (auto simp: normal_part_def)
  have split: "split_slash (''/models'' @ CHR ''/'' # join_slash ns) = [[], ''models''] @ ns"
    using assms split_join [of ns] by (simp only: split_slash_append) (simp add: normal_part_def)
  have "\<forall>x \<in> set (''models'' # ns). normal_part x" using assms(2) by (simp add: normal_part_def)
  from clean_parts_normal [OF this, of True "[]"]
  have parts: "clean_parts True ([[], ''models''] @ ns) [] = ''models'' # ns" by (simp add: normal_part_def)
  have j: "join_slash (''models'' # ns) = ''models/'' @ join_slash ns" using assms(1) by (cases ns) simp_all
  have "path_Join ''/models'' (join_slash ns) = Clean (''/models'' @ CHR ''/'' # join_slash ns)"
    using ne by (simp add: path_Join_def)
  also have "\<dots> = ''/'' @ join_slash (clean_parts True ([[], ''models''] @ ns) [])"
    using split by (simp add: Clean_def IsAbs_def HasPrefix_def)
  finally show ?thesis by (simp only: parts j) simp
qed

lemma Join_dot: "path_Join ''/models'' [] = ''/models''" "path_Join ''/models'' ''.'' = ''/models''"
  by (simp_all add: path_Join_def Clean_def IsAbs_def HasPrefix_def)

subsection \<open>Digests\<close>

lemma matches_Class_Seq: "matches (Seq (Class P) r) w \<longleftrightarrow> (case w of [] \<Rightarrow> False | c # v \<Rightarrow> P c \<and> matches r v)"
proof (cases w)
  case Nil
  then show ?thesis by (auto simp: matches_Seq)
next
  case (Cons c v)
  then show ?thesis by (auto simp: seq_Cons)
qed

lemma matches_Lit: "matches (Lit t) w \<longleftrightarrow> w = t"
  by (induction t arbitrary: w) (auto simp: matches_Class_Seq split: list.splits)

lemma matches_Times_Class: "matches (Times n (Class P)) w \<longleftrightarrow> length w = n \<and> list_all P w"
proof (induction n arbitrary: w)
  case (Suc n)
  then show ?case by (cases w) (auto simp: matches_Class_Seq)
qed auto

lemma matches_tail: "\<exists>u v. w = u @ v \<and> matches (Seq r s) v \<Longrightarrow> \<exists>u v. w = u @ v \<and> matches s v"
  by (metis append.assoc matches_Seq)

lemma oci_digest:
  assumes "MatchString ociReference ref"
  obtains p d where "ref = p @ ''@sha256:'' @ d" and "length d = 64" and "list_all lower_hex d"
proof -
  have "\<exists>u v. ref = u @ v \<and> matches ociReference v" using assms MatchString_iff by (metis append_Nil)
  then have "\<exists>u v. ref = u @ v \<and> matches (Seq (Lit ''@sha256:'') (Times 64 (Class lower_hex))) v"
    unfolding ociReference_def
    by - (drule matches_tail, drule matches_tail, drule matches_tail, drule matches_tail, drule matches_tail,
          drule matches_tail, assumption)
  then obtain u v x y where "ref = u @ v" "v = x @ y" "matches (Lit ''@sha256:'') x" "matches (Times 64 (Class lower_hex)) y"
    unfolding matches_Seq by blast
  then show thesis using that [of u y] by (simp only: matches_Lit matches_Times_Class)
qed

lemma after_last_append: "c \<notin> set y \<Longrightarrow> after_last (x @ c # y) c = y"
proof -
  assume "c \<notin> set y"
  then have "takeWhile (\<lambda>x. x \<noteq> c) (rev y @ c # rev x) = rev y" by (subst takeWhile_append2) auto
  then show ?thesis by (simp add: after_last_def)
qed

lemma hex_no_at: "list_all lower_hex d \<Longrightarrow> CHR ''@'' \<notin> set d"
  by (auto simp: list_all_iff lower_hex_def is_digit_def)

lemma oci_digest_cut:
  assumes "ref = p @ ''@sha256:'' @ d" and "list_all lower_hex d"
  shows "TrimPrefix (after_last ref CHR ''@'') ''sha256:'' = d"
proof -
  have "after_last ref CHR ''@'' = ''sha256:'' @ d"
    using after_last_append [of "CHR ''@''" "''sha256:'' @ d" p] hex_no_at [OF assms(2)] assms(1) by simp
  then show ?thesis by (simp add: TrimPrefix_def HasPrefix_def)
qed


subsection \<open>Properties\<close>

lemma Resolve_pvc:
  assumes "Resolve dns model = Inr res" and "rm_Source res = ''pvc''"
  shows "dns (rm_PVC res) \<and> (rm_Path res = [] \<or> \<not> IsAbs (rm_Path res) \<and> Clean (rm_Path res) = rm_Path res
    \<and> rm_Path res \<noteq> ''..'' \<and> \<not> HasPrefix (rm_Path res) ''../'')"
  using assms
  by (auto simp: Resolve_def Let_def resolved0_def ociScheme_def split: option.splits if_splits prod.splits)

lemma Resolve_oci:
  assumes "Resolve dns model = Inr res" and "rm_Source res = ''oci''"
  shows "\<exists>ref. MatchString ociReference ref \<and> rm_OCIReference res = ref
    \<and> rm_Path res = ''/cache/oci/sha256-'' @ TrimPrefix (after_last ref CHR ''@'') ''sha256:''
    \<and> rm_ReadyPath res = rm_Path res @ ''/.noctaya-ready''"
  using assms
  by (auto simp: Resolve_def Let_def resolved0_def ociScheme_def split: option.splits if_splits prod.splits)

text \<open>
  C40. A model on a claim stays within the volume: for an accepted \<^verbatim>\<open>pvc://\<close> source the claim has a
  valid name, and the path given to the runtime is the mount point itself or lies below it by
  proper components only, none empty, \<^verbatim>\<open>.\<close> or \<^verbatim>\<open>..\<close>.
\<close>

theorem pvc_path_confined:
  assumes "Resolve dns model = Inr res" and "rm_Source res = ''pvc''"
  shows "dns (rm_PVC res) \<and>
    (path_Join ''/models'' (rm_Path res) = ''/models'' \<or>
     (\<exists>parts. parts \<noteq> [] \<and> (\<forall>x \<in> set parts. normal_part x) \<and>
       path_Join ''/models'' (rm_Path res) = ''/models/'' @ join_slash parts))"
proof (cases "rm_Path res = [] \<or> rm_Path res = ''.''")
  case True
  then show ?thesis using Resolve_pvc [OF assms] Join_dot by auto
next
  case False
  then obtain ns where "ns \<noteq> []" "\<forall>x \<in> set ns. normal_part x" "rm_Path res = join_slash ns"
    using Resolve_pvc [OF assms] confined_subpath [of "rm_Path res"] by auto
  then show ?thesis using Resolve_pvc [OF assms] Join_confined [of ns] by auto
qed

theorem pvc_path_confined_witness:
  "\<exists>res. Resolve (\<lambda>_. True) \<lparr>ms_CatalogRef = [], ms_Source = Some \<lparr>src_URI = ''pvc://store/a/b'', src_SecretRef = None\<rparr>\<rparr> = Inr res
     \<and> (path_Join ''/models'' (rm_Path res) = ''/models'' \<or>
        (\<exists>parts. parts \<noteq> [] \<and> (\<forall>x \<in> set parts. normal_part x) \<and>
          path_Join ''/models'' (rm_Path res) = ''/models/'' @ join_slash parts))"
proof -
  let ?m = "\<lparr>ms_CatalogRef = [], ms_Source = Some \<lparr>src_URI = ''pvc://store/a/b'', src_SecretRef = None\<rparr>\<rparr>"
  have "Resolve (\<lambda>_. True) ?m = Inr (resolved0\<lparr>rm_Path := ''a/b'', rm_Source := ''pvc'', rm_PVC := ''store''\<rparr>)"
    by code_simp
  from pvc_path_confined [OF this] this show ?thesis by (simp add: resolved0_def)
qed

text \<open>
  An accepted \<^verbatim>\<open>oci://\<close> source is pinned by digest: its reference ends in \<^verbatim>\<open>@sha256:\<close> and 64
  lower-case hexadecimal digits, and the cache directory and its ready marker are named by exactly
  that digest, so two sources share a cache directory only if they have the same digest.
\<close>

theorem oci_pinned_by_digest:
  assumes "Resolve dns model = Inr res" and "rm_Source res = ''oci''"
  shows "\<exists>p d. rm_OCIReference res = p @ ''@sha256:'' @ d \<and> length d = 64 \<and> list_all lower_hex d
    \<and> rm_Path res = ''/cache/oci/sha256-'' @ d \<and> rm_ReadyPath res = ''/cache/oci/sha256-'' @ d @ ''/.noctaya-ready''"
proof -
  obtain ref where ref: "MatchString ociReference ref" "rm_OCIReference res = ref"
    "rm_Path res = ''/cache/oci/sha256-'' @ TrimPrefix (after_last ref CHR ''@'') ''sha256:''"
    "rm_ReadyPath res = rm_Path res @ ''/.noctaya-ready''"
    using Resolve_oci [OF assms] by blast
  obtain p d where pd: "ref = p @ ''@sha256:'' @ d" "length d = 64" "list_all lower_hex d"
    by (rule oci_digest [OF ref(1)])
  with ref oci_digest_cut [OF pd(1,3)] show ?thesis by (intro exI [of _ p] exI [of _ d]) simp
qed

lemma matches_SeqI: "w = u @ v \<Longrightarrow> matches r u \<Longrightarrow> matches s v \<Longrightarrow> matches (Seq r s) w"
  by (auto intro: matches.intros)

definition example_oci :: string where
  "example_oci = ''r/m@sha256:'' @ replicate 64 CHR ''a''"

lemma example_oci_match: "MatchString ociReference example_oci"
proof -
  have plus: "matches (Plus (Class lower_alnum)) ''m''"
    unfolding Plus_def by (rule matches_SeqI [of _ "''m''" "[]"]) (auto simp: lower_alnum_def intro: matches.intros)
  have hex: "matches (Times 64 (Class lower_hex)) (replicate 64 CHR ''a'')"
    by (simp add: matches_Times_Class list_all_iff lower_hex_def)
  show ?thesis
    unfolding MatchString_iff ociReference_def example_oci_def
    by (rule matches_SeqI [of _ "''r''"], simp, simp add: lower_alnum_def,
        rule matches_SeqI [of _ "[]"], simp, simp add: Opt_def,
        rule matches_SeqI [of _ "[]"], simp, simp add: Opt_def,
        rule matches_SeqI [of _ "''/''"], simp, simp only: matches_Lit,
        rule matches_SeqI [of _ "''m''"], simp, rule plus,
        rule matches_SeqI [of _ "[]"], simp, rule matches.intros(6),
        rule matches_SeqI [of _ "''@sha256:''"], simp, simp only: matches_Lit, rule hex)
qed

theorem oci_pinned_by_digest_witness:
  "\<exists>res. Resolve (\<lambda>_. True)
       \<lparr>ms_CatalogRef = [], ms_Source = Some \<lparr>src_URI = ''oci://'' @ example_oci, src_SecretRef = Some ''pull''\<rparr>\<rparr> = Inr res
     \<and> (\<exists>p d. rm_OCIReference res = p @ ''@sha256:'' @ d \<and> length d = 64 \<and> list_all lower_hex d
       \<and> rm_Path res = ''/cache/oci/sha256-'' @ d \<and> rm_ReadyPath res = ''/cache/oci/sha256-'' @ d @ ''/.noctaya-ready'')"
proof -
  let ?m = "\<lparr>ms_CatalogRef = [], ms_Source = Some \<lparr>src_URI = ''oci://'' @ example_oci, src_SecretRef = Some ''pull''\<rparr>\<rparr>"
  have cut: "Cut (''oci://'' @ example_oci) ''://'' = (''oci'', example_oci, True)"
    by (simp add: Cut_def HasPrefix_def)
  have low: "ToLower ''oci'' = ''oci''" by code_simp
  have ne: "example_oci \<noteq> []" by (simp add: example_oci_def)
  have "\<exists>res. Resolve (\<lambda>_. True) ?m = Inr res \<and> rm_Source res = ''oci''"
    by (simp add: Resolve_def cut [simplified] ne low ociScheme_def example_oci_match Let_def resolved0_def
        del: ToLower.simps)
  then obtain res where res: "Resolve (\<lambda>_. True) ?m = Inr res" "rm_Source res = ''oci''" by blast
  from oci_pinned_by_digest [OF res] res(1) show ?thesis by blast
qed

end
