(* ===== verification/Runtime_Render.thy ===== *)
theory Runtime_Render
  imports Model_Resolve
begin

section \<open>Rendering of inference pods\<close>

text \<open>
  \<open>internal/backend/runtime\<close>: \<open>adapter.go\<close>, \<open>template.go\<close>, \<open>accelerator.go\<close> and \<open>vllm.go\<close>, the
  vendor-neutral part of the rendering of the pod that serves a model. The engine of package
  \<open>text/template\<close> is a parameter: it parses a text to an error or to a function that executes the
  template. The locale \<open>backend_adapter\<close> is what the builder of the Deployment relies on in an
  adapter; the theory of the registry interprets it on the adapters of the code.
\<close>

subsection \<open>Adapters and templates\<close>

record AcceleratorRequest =
  ar_Resources :: "(string, quantity) gomap"
  ar_NodeSelector :: "(string, string) gomap"
  ar_Tolerations :: "toleration list"
  ar_SchedulerName :: string
  ar_Queue :: string

record BackendAdapter =
  Vendor :: string
  PodSpec :: "LLMService \<Rightarrow> InferenceRuntime \<Rightarrow> ResolvedModel \<Rightarrow> string + podSpec"
  Accelerator :: "LLMService \<Rightarrow> InferenceRuntime \<Rightarrow> string + AcceleratorRequest"

record ModelData =
  md_Path :: string

record ServiceData =
  sd_Name :: string
  sd_Namespace :: string

record TemplateData =
  td_Model :: ModelData
  td_Service :: ServiceData

type_synonym template_parser = "string \<Rightarrow> string + (TemplateData \<Rightarrow> string + string)"

definition Render :: "template_parser \<Rightarrow> string \<Rightarrow> TemplateData \<Rightarrow> string + string" where
  "Render parse tmpl data =
     (case parse tmpl of
        Inl err \<Rightarrow> Inl (''parse template '' @ Quote tmpl @ '': '' @ err)
      | Inr execute \<Rightarrow>
          (case execute data of
             Inl err \<Rightarrow> Inl (''render template '' @ Quote tmpl @ '': '' @ err)
           | Inr out \<Rightarrow> Inr out))"

fun RenderAll :: "template_parser \<Rightarrow> string list \<Rightarrow> TemplateData \<Rightarrow> string + string list" where
  "RenderAll parse [] data = Inr []"
| "RenderAll parse (t # ts) data =
     (case Render parse t data of
        Inl err \<Rightarrow> Inl err
      | Inr r \<Rightarrow> (case RenderAll parse ts data of Inl err \<Rightarrow> Inl err | Inr rs \<Rightarrow> Inr (r # rs)))"

subsection \<open>Accelerators\<close>

definition WholeDeviceAccelerator :: "LLMService \<Rightarrow> InferenceRuntime \<Rightarrow> string + AcceleratorRequest" where
  "WholeDeviceAccelerator svc rt =
     (let acc = ir_Accelerator (rt_Spec rt); name = acc_ResourceName acc; scheduler = acc_Scheduler acc;
          count = rsc_Accelerators (sp_Resources (svc_Spec svc))
      in if name = [] then Inl (''runtime '' @ Quote (rt_Name rt) @ '' has no accelerator.resourceName'')
         else if sch_Queue scheduler \<noteq> [] \<and> sch_Name scheduler \<noteq> ''volcano''
         then Inl (''runtime '' @ Quote (rt_Name rt) @ '' sets accelerator.scheduler.queue without scheduler.name=volcano'')
         else if rsc_Fraction (sp_Resources (svc_Spec svc)) \<noteq> None
         then Inl (''resources.fraction is not supported in v0; runtime '' @ Quote (rt_Name rt) @
                   '' serves whole devices, set resources.accelerators instead'')
         else Inr \<lparr>ar_Resources = [(name, NewQuantity (if count \<le> 0 then 1 else count))],
                   ar_NodeSelector = acc_NodeSelector acc, ar_Tolerations = acc_Tolerations acc,
                   ar_SchedulerName = sch_Name scheduler, ar_Queue = sch_Queue scheduler\<rparr>)"

record HostMount =
  hm_Name :: string
  hm_Path :: string

definition ServingContainerName :: string where "ServingContainerName = ''serving''"

text \<open>The loops over \<open>pod.Containers\<close> that skip every container but the serving one.\<close>

definition on_serving :: "(container \<Rightarrow> container) \<Rightarrow> podSpec \<Rightarrow> podSpec" where
  "on_serving f pod =
     pod\<lparr>ps_Containers := map (\<lambda>c. if ct_Name c \<noteq> ServingContainerName then c else f c) (ps_Containers pod)\<rparr>"

definition add_mount :: "volumeMount \<Rightarrow> container \<Rightarrow> container" where
  "add_mount m c = c\<lparr>ct_VolumeMounts := ct_VolumeMounts c @ [m]\<rparr>"

definition add_volume :: "volume \<Rightarrow> podSpec \<Rightarrow> podSpec" where
  "add_volume v pod = pod\<lparr>ps_Volumes := ps_Volumes pod @ [v]\<rparr>"

fun AddHostMounts :: "podSpec \<Rightarrow> HostMount list \<Rightarrow> podSpec" where
  "AddHostMounts pod [] = pod"
| "AddHostMounts pod (m # ms) =
     AddHostMounts
       (on_serving (add_mount \<lparr>vm_Name = hm_Name m, vm_MountPath = hm_Path m, vm_ReadOnly = True\<rparr>)
         (add_volume \<lparr>vol_Name = hm_Name m, vol_Source = HostPath (hm_Path m) None\<rparr> pod)) ms"

subsection \<open>The serving pod of vLLM\<close>

definition sharedMemoryVolume :: string where "sharedMemoryVolume = ''dshm''"
definition modelStoreVolume :: string where "modelStoreVolume = ''model-store''"
definition ModelPVCMountPath :: string where "ModelPVCMountPath = ''/models''"

definition computeResources :: "LLMService \<Rightarrow> resourceRequirements" where
  "computeResources svc =
     (let res = sp_Resources (svc_Spec svc);
          requests = (case rsc_CPU res of Some cpu \<Rightarrow> [(''cpu'', cpu)] | None \<Rightarrow> []);
          requests = (case rsc_Memory res of Some mem \<Rightarrow> AList.update ''memory'' mem requests | None \<Rightarrow> requests);
          limits = (case rsc_Memory res of Some mem \<Rightarrow> [(''memory'', mem)] | None \<Rightarrow> [])
      in \<lparr>rr_Requests = (if requests = [] then None else Some requests),
          rr_Limits = (if limits = [] then None else Some limits)\<rparr>)"

definition healthProbe :: "string \<Rightarrow> probe" where
  "healthProbe portName =
     \<lparr>pr_Path = ''/health'', pr_Port = FromString portName, pr_PeriodSeconds = 0, pr_FailureThreshold = 0\<rparr>"

definition defaultStartupProbe :: "string \<Rightarrow> probe" where
  "defaultStartupProbe portName = (healthProbe portName)\<lparr>pr_PeriodSeconds := 10, pr_FailureThreshold := 60\<rparr>"

fun renderEnv :: "template_parser \<Rightarrow> envVar list \<Rightarrow> TemplateData \<Rightarrow> string + envVar list" where
  "renderEnv parse [] data = Inr []"
| "renderEnv parse (e # es) data =
     (case (if env_Value e \<noteq> []
            then (case Render parse (env_Value e) data of
                    Inl err \<Rightarrow> Inl err | Inr v \<Rightarrow> Inr (e\<lparr>env_Value := v\<rparr>))
            else Inr e) of
        Inl err \<Rightarrow> Inl err
      | Inr e' \<Rightarrow> (case renderEnv parse es data of Inl err \<Rightarrow> Inl err | Inr out \<Rightarrow> Inr (e' # out)))"

text \<open>
  \<open>int64(math.Ceil(d.Seconds()))\<close> for a positive duration: \<open>Seconds\<close> adds the whole seconds and
  the remaining nanoseconds divided by \<open>1e9\<close> as \<open>float64\<close>, so both the quotient and the sum are
  rounded to 53 significant bits. A float is a numerator and a power of two.
\<close>

definition round_half_even :: "nat \<Rightarrow> nat \<Rightarrow> nat" where
  "round_half_even a d =
     (let q = a div d; r = a mod d in if 2 * r < d \<or> 2 * r = d \<and> even q then q else q + 1)"

definition float_scale :: "nat \<Rightarrow> nat \<Rightarrow> nat" where
  "float_scale n d = 83 - bit_length (n * 2 ^ 30 div d)"

definition float_quot :: "nat \<Rightarrow> nat \<Rightarrow> nat \<times> nat" where
  "float_quot n d = (let k = float_scale n d in (round_half_even (n * 2 ^ k) d, 2 ^ k))"

definition Seconds :: "duration \<Rightarrow> nat \<times> nat" where
  "Seconds d =
     (let sec = nat (d div Second); nsec = nat (d mod Second); (m, p) = float_quot nsec 1000000000
      in float_quot (sec * p + m) p)"

definition Ceil :: "nat \<times> nat \<Rightarrow> nat" where
  "Ceil x = (fst x + snd x - 1) div snd x"

definition drain_seconds :: "duration \<Rightarrow> int" where
  "drain_seconds d = int (Ceil (Seconds d))"

definition applyDrain :: "podSpec \<Rightarrow> LLMService \<Rightarrow> InferenceRuntime \<Rightarrow> podSpec" where
  "applyDrain pod svc rt =
     (if \<not> rl_PreStopDrain (ir_Lifecycle (rt_Spec rt)) then pod
      else let drain = sc_DrainTimeout (sp_Scaling (svc_Spec svc))
        in if drain \<le> 0 then pod
           else let secs = drain_seconds drain;
                    pod = on_serving (\<lambda>c. c\<lparr>ct_PreStop := Some [''/bin/sh'', ''-c'', ''sleep '' @ itoa secs]\<rparr>) pod;
                    grace = secs + 10
             in case ps_TerminationGracePeriodSeconds pod of
                  None \<Rightarrow> pod\<lparr>ps_TerminationGracePeriodSeconds := Some grace\<rparr>
                | Some g \<Rightarrow> if g < grace then pod\<lparr>ps_TerminationGracePeriodSeconds := Some grace\<rparr> else pod)"

definition mountModelStore :: "podSpec \<Rightarrow> string \<Rightarrow> podSpec" where
  "mountModelStore pod pvcName =
     on_serving (add_mount \<lparr>vm_Name = modelStoreVolume, vm_MountPath = ModelPVCMountPath, vm_ReadOnly = True\<rparr>)
       (add_volume \<lparr>vol_Name = modelStoreVolume, vol_Source = PVCSource pvcName True\<rparr> pod)"

definition serving_container ::
  "LLMService \<Rightarrow> InferenceRuntime \<Rightarrow> string list \<Rightarrow> envVar list \<Rightarrow> container" where
  "serving_container svc rt renderedArgs env =
     (let port = rtc_Port (ir_Container (rt_Spec rt)); health = ir_Health (rt_Spec rt)
      in container0\<lparr>ct_Name := ServingContainerName, ct_Image := rtc_Image (ir_Container (rt_Spec rt)),
           ct_Args := renderedArgs, ct_Env := env,
           ct_Ports := [\<lparr>cp_Name = rp_Name port, cp_ContainerPort = rp_ContainerPort port, cp_Protocol = ''TCP''\<rparr>],
           ct_Resources := computeResources svc,
           ct_ReadinessProbe := (case rh_Readiness health of None \<Rightarrow> Some (healthProbe (rp_Name port)) | p \<Rightarrow> p),
           ct_LivenessProbe := rh_Liveness health,
           ct_StartupProbe := (case rh_Startup health of None \<Rightarrow> Some (defaultStartupProbe (rp_Name port)) | p \<Rightarrow> p),
           ct_VolumeMounts := [\<lparr>vm_Name = sharedMemoryVolume, vm_MountPath = ''/dev/shm'', vm_ReadOnly = False\<rparr>]\<rparr>)"

definition model_path :: "ResolvedModel \<Rightarrow> string" where
  "model_path m = (if rm_PVC m \<noteq> [] then path_Join ModelPVCMountPath (rm_Path m) else rm_Path m)"

definition vllm_base :: "LLMService \<Rightarrow> InferenceRuntime \<Rightarrow> ResolvedModel \<Rightarrow> string list \<Rightarrow> envVar list \<Rightarrow> podSpec" where
  "vllm_base svc rt m renderedArgs env =
     (let pod = pod0\<lparr>ps_AutomountServiceAccountToken := Some False,
                 ps_Containers := [serving_container svc rt renderedArgs (env @ rm_Env m)],
                 ps_Volumes := [\<lparr>vol_Name = sharedMemoryVolume, vol_Source = EmptyDir ''Memory''\<rparr>]\<rparr>;
          pod = pod\<lparr>ps_TerminationGracePeriodSeconds := rl_TerminationGracePeriodSeconds (ir_Lifecycle (rt_Spec rt))\<rparr>;
          pod = (if rm_PVC m \<noteq> [] then mountModelStore pod (rm_PVC m) else pod)
      in pod\<lparr>ps_ImagePullSecrets := ps_ImagePullSecrets pod @ sp_ImagePullSecrets (svc_Spec svc)\<rparr>)"

definition template_data :: "LLMService \<Rightarrow> ResolvedModel \<Rightarrow> TemplateData" where
  "template_data svc m =
     \<lparr>td_Model = \<lparr>md_Path = model_path m\<rparr>, td_Service = \<lparr>sd_Name = svc_Name svc, sd_Namespace = svc_Namespace svc\<rparr>\<rparr>"

definition RenderVLLMPodSpec ::
  "template_parser \<Rightarrow> LLMService \<Rightarrow> InferenceRuntime \<Rightarrow> ResolvedModel \<Rightarrow> string + podSpec" where
  "RenderVLLMPodSpec parse svc rt m =
     (let data = template_data svc m;
          args = rtc_Args (ir_Container (rt_Spec rt)) @ rs_ArgsOverride (sp_Runtime (svc_Spec svc))
      in case RenderAll parse args data of
           Inl err \<Rightarrow> Inl err
         | Inr renderedArgs \<Rightarrow>
             (case renderEnv parse (rtc_Env (ir_Container (rt_Spec rt))) data of
                Inl err \<Rightarrow> Inl err
              | Inr env \<Rightarrow> Inr (applyDrain (vllm_base svc rt m renderedArgs env) svc rt)))"

subsection \<open>Rounding of the drain time\<close>

lemma round_half_even_le: "0 < d \<Longrightarrow> a \<le> d * t \<Longrightarrow> round_half_even a d \<le> t"
proof -
  assume d: "0 < d" and a: "a \<le> d * t"
  have q: "a div d \<le> t" using div_le_mono [OF a, of d] d by simp
  have "a mod d = 0" if "a div d = t"
    using that a mult_div_mod_eq [of d a] by (metis add.right_neutral add_le_cancel_left le_zero_eq)
  with q d show ?thesis by (cases "a div d = t") (auto simp: round_half_even_def Let_def)
qed

lemma round_half_even_ge: "0 < d \<Longrightarrow> d * t \<le> a \<Longrightarrow> t \<le> round_half_even a d"
  using div_le_mono [of "d * t" a d] by (auto simp: round_half_even_def Let_def)

lemma float_scale_ge: "0 < d \<Longrightarrow> n * 2 ^ 30 < d * 2 ^ b \<Longrightarrow> 83 - b \<le> float_scale n d"
proof -
  assume "0 < d" and "n * 2 ^ 30 < d * 2 ^ b"
  then have "n * 2 ^ 30 div d < 2 ^ b" by (simp add: div_less_iff_less_mult mult.commute)
  from bit_length_le [OF this] show ?thesis by (simp add: float_scale_def)
qed

lemma Ceil_between:
  assumes "0 < p" and "lo * p \<le> m" and "m \<le> hi * p"
  shows "lo \<le> Ceil (m, p)" and "Ceil (m, p) \<le> hi"
proof -
  have "lo = (lo * p) div p" using assms by simp
  also have "\<dots> \<le> Ceil (m, p)" unfolding Ceil_def fst_conv snd_conv using assms by (intro div_le_mono) linarith
  finally show "lo \<le> Ceil (m, p)" .
  have "m + p - 1 < (hi + 1) * p" using assms by (simp add: algebra_simps)
  then have "(m + p - 1) div p < hi + 1" using assms(1) by (simp add: div_less_iff_less_mult)
  then show "Ceil (m, p) \<le> hi" by (simp add: Ceil_def)
qed

lemma Ceil_above: "0 < p \<Longrightarrow> lo * p < m \<Longrightarrow> lo < Ceil (m, p)"
proof -
  assume "0 < p" and "lo * p < m"
  then have "(lo + 1) * p \<le> m + p - 1" by (simp add: algebra_simps)
  then have "(lo + 1) * p div p \<le> (m + p - 1) div p" by (rule div_le_mono)
  with \<open>0 < p\<close> show ?thesis by (simp add: Ceil_def)
qed

text \<open>The fraction of a second keeps its place between \<open>2 ^ - 30\<close> and one.\<close>

lemma float_quot_fraction:
  assumes "nsec < 1000000000" and "float_quot nsec 1000000000 = (m, p)"
  shows "0 < p \<and> m \<le> p \<and> (0 < nsec \<longrightarrow> p \<le> m * 2 ^ 30) \<and> (nsec = 0 \<longrightarrow> m = 0)"
proof -
  define k where "k = float_scale nsec 1000000000"
  have m: "m = round_half_even (nsec * 2 ^ k) 1000000000" and p: "p = 2 ^ k"
    using assms(2) by (auto simp: float_quot_def k_def Let_def)
  have "m \<le> p" unfolding m p by (rule round_half_even_le) (use assms(1) in simp_all)
  have k: "30 \<le> k"
    using float_scale_ge [of 1000000000 nsec 30] assms(1) by (simp add: k_def)
  have "p \<le> m * 2 ^ 30" if "0 < nsec"
  proof -
    have split: "(2::nat) ^ k = 2 ^ 30 * 2 ^ (k - 30)" using k by (metis le_add_diff_inverse power_add)
    have "1000000000 * 2 ^ (k - 30) \<le> nsec * 2 ^ k"
      unfolding split using that by (intro order.trans [OF _ mult_le_mono1 [of 1 nsec]]) simp_all
    from round_half_even_ge [OF _ this] have "2 ^ (k - 30) \<le> m" by (simp add: m)
    then show ?thesis unfolding p split by simp
  qed
  with \<open>m \<le> p\<close> show ?thesis by (auto simp: p m round_half_even_def)
qed

lemma Seconds_bounds:
  assumes "m \<le> p" and "0 < p"
  shows "sec \<le> Ceil (float_quot (sec * p + m) p)" and "Ceil (float_quot (sec * p + m) p) \<le> sec + 1"
    and "m = 0 \<Longrightarrow> Ceil (float_quot (sec * p + m) p) = sec"
    and "p \<le> m * 2 ^ 30 \<Longrightarrow> 0 < m \<Longrightarrow> sec < 2 ^ 22 \<Longrightarrow> Ceil (float_quot (sec * p + m) p) = sec + 1"
proof -
  define k where "k = float_scale (sec * p + m) p"
  define r where "r = round_half_even ((sec * p + m) * 2 ^ k) p"
  have quot: "float_quot (sec * p + m) p = (r, 2 ^ k)" by (simp add: float_quot_def k_def r_def Let_def)
  have lo: "sec * 2 ^ k \<le> r" unfolding r_def
    by (rule round_half_even_ge) (use assms(2) in \<open>simp_all add: algebra_simps\<close>)
  have "m * 2 ^ k \<le> p * 2 ^ k" using assms(1) by simp
  then have hi: "r \<le> (sec + 1) * 2 ^ k" unfolding r_def
    by (intro round_half_even_le) (use assms(2) in \<open>simp_all add: algebra_simps\<close>)
  show "sec \<le> Ceil (float_quot (sec * p + m) p)" "Ceil (float_quot (sec * p + m) p) \<le> sec + 1"
    unfolding quot using Ceil_between [OF _ lo hi] by simp_all
  show "Ceil (float_quot (sec * p + m) p) = sec" if "m = 0"
  proof -
    have "r \<le> sec * 2 ^ k" unfolding r_def using that
      by (intro round_half_even_le) (use assms(2) in \<open>simp_all add: algebra_simps\<close>)
    from Ceil_between [OF _ lo this] show ?thesis unfolding quot by simp
  qed
  show "Ceil (float_quot (sec * p + m) p) = sec + 1" if frac: "p \<le> m * 2 ^ 30" "0 < m" "sec < 2 ^ 22"
  proof -
    have "sec * p + m \<le> (sec + 1) * p" using assms(1) by (simp add: algebra_simps)
    also have "\<dots> \<le> 2 ^ 22 * p" using frac(3) by (intro mult_le_mono1) simp
    finally have "(sec * p + m) * 2 ^ 30 < p * 2 ^ 53" using assms(2) by simp
    from float_scale_ge [OF assms(2) this] have "30 \<le> k" by (simp add: k_def)
    then have split: "(2::nat) ^ k = 2 ^ 30 * 2 ^ (k - 30)" by (metis le_add_diff_inverse power_add)
    have "p * 2 ^ (k - 30) \<le> m * 2 ^ 30 * 2 ^ (k - 30)" using frac(1) by simp
    then have "p * (sec * 2 ^ k + 2 ^ (k - 30)) \<le> (sec * p + m) * 2 ^ k"
      unfolding split by (simp add: algebra_simps)
    from round_half_even_ge [OF assms(2) this] have "sec * 2 ^ k < r" unfolding r_def
      by (rule order.strict_trans2 [rotated]) simp
    from Ceil_above [OF _ this] have "sec < Ceil (r, 2 ^ k)" by simp
    with \<open>Ceil (float_quot (sec * p + m) p) \<le> sec + 1\<close> show ?thesis unfolding quot by simp
  qed
qed

lemma drain_seconds_bounds:
  assumes "0 < d"
  shows "d div Second \<le> drain_seconds d \<and> drain_seconds d \<le> d div Second + 1
    \<and> (d < 2 ^ 22 * Second \<longrightarrow> d \<le> drain_seconds d * Second)"
proof -
  define sec nsec where "sec = nat (d div Second)" and "nsec = nat (d mod Second)"
  obtain m p where q: "float_quot nsec 1000000000 = (m, p)" by fastforce
  have S: "Second = 1000000000" by (simp add: duration_defs)
  have ns: "nsec < 1000000000" using pos_mod_bound [of Second d] by (simp add: nsec_def S)
  have d: "d = int sec * Second + int nsec" and sec: "int sec = d div Second"
    using assms by (simp_all add: sec_def nsec_def S pos_imp_zdiv_nonneg_iff)
  have secs: "drain_seconds d = int (Ceil (float_quot (sec * p + m) p))"
    using q by (simp add: drain_seconds_def Seconds_def sec_def nsec_def)
  note F = float_quot_fraction [OF ns q]
  then have B: "m \<le> p" "0 < p" by simp_all
  have "d \<le> drain_seconds d * Second" if "d < 2 ^ 22 * Second"
  proof (cases "nsec = 0")
    case True
    then show ?thesis using F Seconds_bounds(3) [OF B] d secs by simp
  next
    case False
    have "int sec * Second < 2 ^ 22 * Second" using that d by linarith
    then have "sec < 2 ^ 22" by (simp add: S)
    moreover have "0 < m" "p \<le> m * 2 ^ 30" using False F by (cases m; simp)+
    ultimately have "drain_seconds d = int sec + 1" using Seconds_bounds(4) [OF B, of sec] secs by simp
    then show ?thesis using d ns by (simp add: S algebra_simps)
  qed
  then show ?thesis using Seconds_bounds(1,2) [OF B, of sec] secs sec by simp
qed

subsection \<open>The rendered pod\<close>

lemma RenderAll_length: "RenderAll parse ts data = Inr rs \<Longrightarrow> length rs = length ts"
  by (induction ts arbitrary: rs) (auto split: sum.splits)

lemma renderEnv_names: "renderEnv parse es data = Inr rs \<Longrightarrow> map env_Name rs = map env_Name es"
  by (induction es arbitrary: rs) (auto split: sum.splits if_splits)

lemma on_serving_simps [simp]:
  "ps_Containers (on_serving f pod) = map (\<lambda>c. if ct_Name c \<noteq> ServingContainerName then c else f c) (ps_Containers pod)"
  "ps_InitContainers (on_serving f pod) = ps_InitContainers pod"
  "ps_Volumes (on_serving f pod) = ps_Volumes pod"
  "ps_NodeSelector (on_serving f pod) = ps_NodeSelector pod"
  "ps_AutomountServiceAccountToken (on_serving f pod) = ps_AutomountServiceAccountToken pod"
  "ps_TerminationGracePeriodSeconds (on_serving f pod) = ps_TerminationGracePeriodSeconds pod"
  by (simp_all add: on_serving_def)

lemma add_volume_simps [simp]:
  "ps_Containers (add_volume v pod) = ps_Containers pod"
  "ps_InitContainers (add_volume v pod) = ps_InitContainers pod"
  "ps_Volumes (add_volume v pod) = ps_Volumes pod @ [v]"
  "ps_AutomountServiceAccountToken (add_volume v pod) = ps_AutomountServiceAccountToken pod"
  "ps_TerminationGracePeriodSeconds (add_volume v pod) = ps_TerminationGracePeriodSeconds pod"
  by (simp_all add: add_volume_def)

lemma add_mount_simps [simp]:
  "ct_Name (add_mount m c) = ct_Name c" "ct_Image (add_mount m c) = ct_Image c" "ct_Args (add_mount m c) = ct_Args c"
  "ct_Env (add_mount m c) = ct_Env c" "ct_Ports (add_mount m c) = ct_Ports c"
  "ct_Resources (add_mount m c) = ct_Resources c" "ct_ReadinessProbe (add_mount m c) = ct_ReadinessProbe c"
  "ct_StartupProbe (add_mount m c) = ct_StartupProbe c" "ct_PreStop (add_mount m c) = ct_PreStop c"
  "ct_VolumeMounts (add_mount m c) = ct_VolumeMounts c @ [m]"
  by (simp_all add: add_mount_def)

text \<open>
  What a pod must satisfy to serve: one container with the image and the port of the runtime and both
  gates of model loading, as the runtime gives them or by default on \<^verbatim>\<open>/health\<close> of that port, no credentials of
  the cluster, and room for the drain in the grace period. Every mount of the container names a volume of
  the pod.
\<close>

definition gate_on :: "string \<Rightarrow> probe option \<Rightarrow> probe option \<Rightarrow> bool" where
  "gate_on portName given gate \<longleftrightarrow>
     (case gate of
        None \<Rightarrow> False
      | Some p \<Rightarrow> given = Some p \<or> given = None \<and> pr_Path p = ''/health'' \<and> pr_Port p = FromString portName)"

definition gated :: "InferenceRuntime \<Rightarrow> container \<Rightarrow> bool" where
  "gated rt c \<longleftrightarrow>
     (let port = rtc_Port (ir_Container (rt_Spec rt)); health = ir_Health (rt_Spec rt) in
      ct_Name c = ServingContainerName \<and> ct_Image c = rtc_Image (ir_Container (rt_Spec rt))
      \<and> ct_Ports c = [\<lparr>cp_Name = rp_Name port, cp_ContainerPort = rp_ContainerPort port, cp_Protocol = ''TCP''\<rparr>]
      \<and> gate_on (rp_Name port) (rh_Readiness health) (ct_ReadinessProbe c)
      \<and> gate_on (rp_Name port) (rh_Startup health) (ct_StartupProbe c))"

definition drained :: "LLMService \<Rightarrow> InferenceRuntime \<Rightarrow> podSpec \<Rightarrow> bool" where
  "drained svc rt pod \<longleftrightarrow>
     (let drain = sc_DrainTimeout (sp_Scaling (svc_Spec svc))
      in rl_PreStopDrain (ir_Lifecycle (rt_Spec rt)) \<and> 0 < drain \<longrightarrow>
         list_all (\<lambda>c. ct_PreStop c = Some [''/bin/sh'', ''-c'', ''sleep '' @ itoa (drain_seconds drain)]) (ps_Containers pod)
         \<and> (case ps_TerminationGracePeriodSeconds pod of Some g \<Rightarrow> drain_seconds drain + 10 \<le> g | None \<Rightarrow> False))"

definition mounts_known :: "podSpec \<Rightarrow> bool" where
  "mounts_known pod \<longleftrightarrow>
     list_all (\<lambda>c. list_all (\<lambda>m. vm_Name m \<in> set (map vol_Name (ps_Volumes pod))) (ct_VolumeMounts c)) (ps_Containers pod)"

definition serving_pod :: "LLMService \<Rightarrow> InferenceRuntime \<Rightarrow> podSpec \<Rightarrow> bool" where
  "serving_pod svc rt pod \<longleftrightarrow>
     length (ps_Containers pod) = 1 \<and> list_all (gated rt) (ps_Containers pod)
     \<and> ps_AutomountServiceAccountToken pod = Some False \<and> drained svc rt pod \<and> mounts_known pod"

lemmas serving_pod_defs = serving_pod_def gated_def drained_def mounts_known_def

lemma serving_container_simps [simp]:
  "ct_Name (serving_container svc rt args env) = ServingContainerName"
  "ct_Image (serving_container svc rt args env) = rtc_Image (ir_Container (rt_Spec rt))"
  "ct_Args (serving_container svc rt args env) = args"
  "ct_Env (serving_container svc rt args env) = env"
  "ct_Resources (serving_container svc rt args env) = computeResources svc"
  "ct_Ports (serving_container svc rt args env) =
     [\<lparr>cp_Name = rp_Name (rtc_Port (ir_Container (rt_Spec rt))),
       cp_ContainerPort = rp_ContainerPort (rtc_Port (ir_Container (rt_Spec rt))), cp_Protocol = ''TCP''\<rparr>]"
  "gate_on (rp_Name (rtc_Port (ir_Container (rt_Spec rt)))) (rh_Readiness (ir_Health (rt_Spec rt)))
     (ct_ReadinessProbe (serving_container svc rt args env))"
  "gate_on (rp_Name (rtc_Port (ir_Container (rt_Spec rt)))) (rh_Startup (ir_Health (rt_Spec rt)))
     (ct_StartupProbe (serving_container svc rt args env))"
  "ct_VolumeMounts (serving_container svc rt args env) =
     [\<lparr>vm_Name = sharedMemoryVolume, vm_MountPath = ''/dev/shm'', vm_ReadOnly = False\<rparr>]"
  by (auto simp: serving_container_def Let_def gate_on_def healthProbe_def defaultStartupProbe_def split: option.splits)

lemma serving_pod_mount:
  assumes "serving_pod svc rt pod" and "vm_Name m = vol_Name v"
  shows "serving_pod svc rt (on_serving (add_mount m) (add_volume v pod))"
  using assms by (auto simp: serving_pod_defs Let_def list_all_iff split: option.splits)

lemma serving_pod_hosts: "serving_pod svc rt pod \<Longrightarrow> serving_pod svc rt (AddHostMounts pod ms)"
  by (induction pod ms rule: AddHostMounts.induct) (simp_all add: serving_pod_mount)

lemma applyDrain_serving:
  assumes "length (ps_Containers pod) = 1" and "list_all (gated rt) (ps_Containers pod)"
    and "ps_AutomountServiceAccountToken pod = Some False" and "mounts_known pod"
  shows "serving_pod svc rt (applyDrain pod svc rt)"
  using assms
  by (auto simp: applyDrain_def serving_pod_defs Let_def list_all_iff split: option.splits)

lemma vllm_base_mounts: "mounts_known (vllm_base svc rt m args env)"
  by (auto simp: mounts_known_def vllm_base_def mountModelStore_def Let_def list_all_iff)

lemma vllm_base_serving: "serving_pod svc rt (applyDrain (vllm_base svc rt m args env) svc rt)"
  using vllm_base_mounts
  by (intro applyDrain_serving) (simp_all add: vllm_base_def mountModelStore_def Let_def gated_def)

lemma RenderVLLMPodSpec_serving:
  "RenderVLLMPodSpec parse svc rt m = Inr pod \<Longrightarrow> serving_pod svc rt pod"
  using vllm_base_serving by (auto simp: RenderVLLMPodSpec_def Let_def split: sum.splits)

lemma applyDrain_keeps [simp]:
  "ps_Volumes (applyDrain pod svc rt) = ps_Volumes pod"
  "map ct_VolumeMounts (ps_Containers (applyDrain pod svc rt)) = map ct_VolumeMounts (ps_Containers pod)"
  "map ct_Args (ps_Containers (applyDrain pod svc rt)) = map ct_Args (ps_Containers pod)"
  "map ct_Resources (ps_Containers (applyDrain pod svc rt)) = map ct_Resources (ps_Containers pod)"
  by (auto simp: applyDrain_def Let_def split: option.splits)

text \<open>Claims of pre-staged weights are mounted read-only.\<close>

definition store_mount :: volumeMount where
  "store_mount = \<lparr>vm_Name = modelStoreVolume, vm_MountPath = ModelPVCMountPath, vm_ReadOnly = True\<rparr>"

definition model_store_read_only :: "ResolvedModel \<Rightarrow> podSpec \<Rightarrow> bool" where
  "model_store_read_only m pod \<longleftrightarrow>
     rm_PVC m \<noteq> [] \<longrightarrow>
       \<lparr>vol_Name = modelStoreVolume, vol_Source = PVCSource (rm_PVC m) True\<rparr> \<in> set (ps_Volumes pod)
       \<and> list_all (\<lambda>ms. store_mount \<in> set ms) (map ct_VolumeMounts (ps_Containers pod))"

lemma RenderVLLMPodSpec_store:
  assumes "RenderVLLMPodSpec parse svc rt m = Inr pod"
  shows "model_store_read_only m pod"
proof -
  obtain args env where pod: "pod = applyDrain (vllm_base svc rt m args env) svc rt"
    using assms by (auto simp: RenderVLLMPodSpec_def Let_def split: sum.splits)
  have "model_store_read_only m (vllm_base svc rt m args env)"
    by (simp add: model_store_read_only_def vllm_base_def mountModelStore_def store_mount_def Let_def)
  then show ?thesis by (simp only: pod model_store_read_only_def applyDrain_keeps)
qed

lemma model_store_mount:
  "model_store_read_only m pod \<Longrightarrow> model_store_read_only m (on_serving (add_mount v) (add_volume w pod))"
  unfolding model_store_read_only_def by (auto simp: list_all_iff)

lemma AddHostMounts_store: "model_store_read_only m pod \<Longrightarrow> model_store_read_only m (AddHostMounts pod ms)"
  by (induction pod ms rule: AddHostMounts.induct) (simp_all add: model_store_mount)

subsection \<open>Contract of an adapter\<close>

locale backend_adapter =
  fixes adapter :: BackendAdapter
  assumes pod_serves: "PodSpec adapter svc rt m = Inr pod \<Longrightarrow> serving_pod svc rt pod"
    and pod_store: "PodSpec adapter svc rt m = Inr pod \<Longrightarrow> model_store_read_only m pod"
    and whole_devices: "Accelerator adapter svc rt = Inr acc \<Longrightarrow>
      ar_Resources acc = [(acc_ResourceName (ir_Accelerator (rt_Spec rt)),
        NewQuantity (max 1 (rsc_Accelerators (sp_Resources (svc_Spec svc)))))]"
    and fraction_refused: "rsc_Fraction (sp_Resources (svc_Spec svc)) \<noteq> None \<Longrightarrow> \<exists>e. Accelerator adapter svc rt = Inl e"

lemma WholeDeviceAccelerator_whole:
  "WholeDeviceAccelerator svc rt = Inr acc \<Longrightarrow>
     ar_Resources acc = [(acc_ResourceName (ir_Accelerator (rt_Spec rt)),
       NewQuantity (max 1 (rsc_Accelerators (sp_Resources (svc_Spec svc)))))]"
  by (auto simp: WholeDeviceAccelerator_def Let_def max_def split: if_splits)

lemma WholeDeviceAccelerator_fraction:
  "rsc_Fraction (sp_Resources (svc_Spec svc)) \<noteq> None \<Longrightarrow> \<exists>e. WholeDeviceAccelerator svc rt = Inl e"
  by (auto simp: WholeDeviceAccelerator_def Let_def)

subsection \<open>Property\<close>

text \<open>
  Graceful scale-down has the time it asks for: with a drain configured and shorter than \<open>2 ^ 22\<close>
  seconds, every container of the rendered pod sleeps at least the drain time before it is stopped,
  and the pod is not killed before ten seconds after that sleep, whatever grace period the runtime
  sets. Above that bound the sum of \<open>Duration.Seconds\<close> can round a fraction of a second away.
\<close>

theorem drain_is_covered:
  assumes "RenderVLLMPodSpec parse svc rt m = Inr pod"
    and "rl_PreStopDrain (ir_Lifecycle (rt_Spec rt))"
    and "sc_DrainTimeout (sp_Scaling (svc_Spec svc)) = drain" and "0 < drain" and "drain < 2 ^ 22 * Second"
  shows "\<exists>secs grace. drain \<le> secs * Second
    \<and> (\<forall>c \<in> set (ps_Containers pod). ct_PreStop c = Some [''/bin/sh'', ''-c'', ''sleep '' @ itoa secs])
    \<and> ps_TerminationGracePeriodSeconds pod = Some grace \<and> secs + 10 \<le> grace"
proof -
  have "drained svc rt pod" using RenderVLLMPodSpec_serving [OF assms(1)] by (simp add: serving_pod_def)
  then have sleep: "\<forall>c \<in> set (ps_Containers pod). ct_PreStop c = Some [''/bin/sh'', ''-c'', ''sleep '' @ itoa (drain_seconds drain)]"
    and grace: "case ps_TerminationGracePeriodSeconds pod of Some g \<Rightarrow> drain_seconds drain + 10 \<le> g | None \<Rightarrow> False"
    using assms(2-4) by (auto simp: drained_def Let_def list_all_iff)
  from grace obtain g where "ps_TerminationGracePeriodSeconds pod = Some g" "drain_seconds drain + 10 \<le> g"
    by (auto split: option.splits)
  with sleep show ?thesis using drain_seconds_bounds assms(4,5) by blast
qed

text \<open>A parser for texts without actions.\<close>

definition plain_text :: template_parser where
  "plain_text t = Inr (\<lambda>_. Inr t)"

definition example_model :: ResolvedModel where
  "example_model = resolved0\<lparr>rm_Path := ''qwen'', rm_Source := ''hf''\<rparr>"

lemma example_render:
  "\<exists>pod. RenderVLLMPodSpec plain_text example_svc example_rt example_model = Inr pod"
  by (simp add: RenderVLLMPodSpec_def plain_text_def Render_def example_svc_def example_rt_def Let_def)

theorem drain_is_covered_witness:
  "\<exists>pod. RenderVLLMPodSpec plain_text example_svc example_rt example_model = Inr pod \<and>
     (\<exists>secs grace. 2 * Minute + 1 \<le> secs * Second
       \<and> (\<forall>c \<in> set (ps_Containers pod). ct_PreStop c = Some [''/bin/sh'', ''-c'', ''sleep '' @ itoa secs])
       \<and> ps_TerminationGracePeriodSeconds pod = Some grace \<and> secs + 10 \<le> grace)"
proof -
  obtain pod where pod: "RenderVLLMPodSpec plain_text example_svc example_rt example_model = Inr pod"
    using example_render by blast
  from drain_is_covered [OF pod, of "2 * Minute + 1"] pod show ?thesis
    by (simp add: example_svc_def example_rt_def duration_defs)
qed

end
