(* ===== verification/Backend_Registry.thy ===== *)
theory Backend_Registry
  imports Runtime_Render
begin

section \<open>Vendor adapters and their registry\<close>

text \<open>
  \<open>internal/backend/nvidia\<close>, \<open>internal/backend/ascend\<close> and \<open>internal/backend/registry\<close>: the two adapters
  of the code, interpreted as instances of \<open>backend_adapter\<close>, and the map from vendors to adapters.
\<close>

definition nvidia_Vendor :: string where "nvidia_Vendor = ''nvidia''"

definition nvidia_New :: "template_parser \<Rightarrow> BackendAdapter" where
  "nvidia_New parse =
     \<lparr>Vendor = nvidia_Vendor, PodSpec = (\<lambda>svc rt m. RenderVLLMPodSpec parse svc rt m),
      Accelerator = (\<lambda>svc rt. WholeDeviceAccelerator svc rt)\<rparr>"

definition ascend_Vendor :: string where "ascend_Vendor = ''ascend''"

definition hostDriverMounts :: "HostMount list" where
  "hostDriverMounts =
     [\<lparr>hm_Name = ''ascend-driver'', hm_Path = ''/usr/local/Ascend/driver''\<rparr>,
      \<lparr>hm_Name = ''npu-smi'', hm_Path = ''/usr/local/bin/npu-smi''\<rparr>,
      \<lparr>hm_Name = ''dcmi'', hm_Path = ''/usr/local/dcmi''\<rparr>,
      \<lparr>hm_Name = ''ascend-install-info'', hm_Path = ''/etc/ascend_install.info''\<rparr>]"

definition ascend_PodSpec ::
  "template_parser \<Rightarrow> LLMService \<Rightarrow> InferenceRuntime \<Rightarrow> ResolvedModel \<Rightarrow> string + podSpec" where
  "ascend_PodSpec parse svc rt m =
     (case RenderVLLMPodSpec parse svc rt m of
        Inl err \<Rightarrow> Inl err
      | Inr pod \<Rightarrow> Inr (AddHostMounts pod hostDriverMounts))"

definition ascend_New :: "template_parser \<Rightarrow> BackendAdapter" where
  "ascend_New parse =
     \<lparr>Vendor = ascend_Vendor, PodSpec = (\<lambda>svc rt m. ascend_PodSpec parse svc rt m),
      Accelerator = (\<lambda>svc rt. WholeDeviceAccelerator svc rt)\<rparr>"

interpretation nvidia: backend_adapter "nvidia_New parse" for parse
  by unfold_locales
    (simp_all add: nvidia_New_def RenderVLLMPodSpec_serving RenderVLLMPodSpec_store WholeDeviceAccelerator_whole
      WholeDeviceAccelerator_fraction)

interpretation ascend: backend_adapter "ascend_New parse" for parse
  by unfold_locales
    (auto simp: ascend_New_def ascend_PodSpec_def WholeDeviceAccelerator_whole WholeDeviceAccelerator_fraction
      intro: serving_pod_hosts RenderVLLMPodSpec_serving AddHostMounts_store RenderVLLMPodSpec_store split: sum.splits)

subsection \<open>The registry\<close>

type_synonym registry = "(string, BackendAdapter) gomap"

definition Register :: "registry \<Rightarrow> BackendAdapter \<Rightarrow> registry" where
  "Register r adapter = AList.update (Vendor adapter) adapter r"

definition registry_New :: "template_parser \<Rightarrow> registry" where
  "registry_New parse = Register (Register [] (nvidia_New parse)) (ascend_New parse)"

definition registry_Get :: "registry \<Rightarrow> string \<Rightarrow> BackendAdapter option" where
  "registry_Get r vendor = map_of r vendor"

lemma registry_Get_Register:
  "registry_Get (Register r a) v = (if v = Vendor a then Some a else registry_Get r v)"
  by (simp add: registry_Get_def Register_def map_of_alist_update)

lemma Vendor_New [simp]: "Vendor (nvidia_New parse) = ''nvidia''" "Vendor (ascend_New parse) = ''ascend''"
  by (simp_all add: ascend_New_def nvidia_New_def ascend_Vendor_def nvidia_Vendor_def)

lemma registry_New_Get:
  "registry_Get (registry_New parse) v =
     (if v = ''ascend'' then Some (ascend_New parse) else if v = ''nvidia'' then Some (nvidia_New parse) else None)"
  by (simp add: registry_New_def registry_Get_Register) (simp add: registry_Get_def)

lemma registry_adapter:
  "registry_Get (registry_New parse) v = Some a \<Longrightarrow> Vendor a = v \<and> backend_adapter a"
  using nvidia.backend_adapter_axioms ascend.backend_adapter_axioms
  by (auto simp: registry_New_Get split: if_splits)

end
