(* ===== verification/Model_Cache.thy ===== *)
theory Model_Cache
  imports Backend_Registry
begin

section \<open>Labels, pod security and the model cache\<close>

text \<open>
  \<open>internal/backend/resources\<close>: the labels and names of \<open>backend.go\<close>, the pod settings of
  \<open>security.go\<close>, and \<open>cache.go\<close> with the cache volume, the claim and the prewarm Job. A create-once
  object carries the digest of its specification; the JSON encoding of a specification and SHA-256
  are parameters. The encoder is total: specifications of these types always encode, and the panic
  of \<open>annotateCreateOnce\<close> is out of reach.
\<close>

subsection \<open>Labels and names\<close>

definition managedByLabel :: string where "managedByLabel = ''app.kubernetes.io/managed-by''"
definition managedByValue :: string where "managedByValue = ''noctaya''"
definition nameLabel :: string where "nameLabel = ''app.kubernetes.io/name''"
definition llmServiceLabel :: string where "llmServiceLabel = ''serving.noctaya.io/llmservice''"
definition runtimeLabel :: string where "runtimeLabel = ''serving.noctaya.io/runtime''"
definition backendSvcSuffix :: string where "backendSvcSuffix = ''-backend''"
definition portNameHTTP :: string where "portNameHTTP = ''http''"
definition volcanoQueueAnnotation :: string where "volcanoQueueAnnotation = ''scheduling.volcano.sh/queue-name''"

lemmas label_defs = managedByLabel_def managedByValue_def nameLabel_def llmServiceLabel_def runtimeLabel_def

definition SelectorLabels :: "LLMService \<Rightarrow> (string, string) gomap" where
  "SelectorLabels svc =
     [(nameLabel, svc_Name svc), (managedByLabel, managedByValue), (llmServiceLabel, svc_Name svc)]"

definition podLabels :: "LLMService \<Rightarrow> InferenceRuntime \<Rightarrow> (string, string) gomap" where
  "podLabels svc rt = AList.update runtimeLabel (rt_Name rt) (SelectorLabels svc)"

definition BackendServiceName :: "LLMService \<Rightarrow> string" where
  "BackendServiceName svc = svc_Name svc @ backendSvcSuffix"

definition object_meta :: "string \<Rightarrow> string \<Rightarrow> (string, string) gomap \<Rightarrow> objectMeta" where
  "object_meta name ns labels = meta0\<lparr>om_Name := name, om_Namespace := ns, om_Labels := labels\<rparr>"

lemma object_meta_simps [simp]:
  "om_Name (object_meta n ns l) = n" "om_Namespace (object_meta n ns l) = ns" "om_Labels (object_meta n ns l) = l"
  "om_Controller (object_meta n ns l) = None" "om_Annotations (object_meta n ns l) = []"
  by (simp_all add: object_meta_def meta0_def)

subsection \<open>Pod settings\<close>

definition disableServiceAccountToken :: "podSpec \<Rightarrow> podSpec" where
  "disableServiceAccountToken pod = pod\<lparr>ps_AutomountServiceAccountToken := Some False\<rparr>"

definition applyImagePullSecrets :: "podSpec \<Rightarrow> LLMService \<Rightarrow> podSpec" where
  "applyImagePullSecrets pod svc =
     pod\<lparr>ps_ImagePullSecrets := ps_ImagePullSecrets pod @ sp_ImagePullSecrets (svc_Spec svc)\<rparr>"

text \<open>\<open>&pod.Containers[0]\<close> of a pod that is built with one container.\<close>

definition on_first :: "(container \<Rightarrow> container) \<Rightarrow> podSpec \<Rightarrow> podSpec" where
  "on_first f pod =
     pod\<lparr>ps_Containers := (case ps_Containers pod of [] \<Rightarrow> [] | c # cs \<Rightarrow> f c # cs)\<rparr>"

definition add_env :: "envVar list \<Rightarrow> container \<Rightarrow> container" where
  "add_env es c = c\<lparr>ct_Env := ct_Env c @ es\<rparr>"

subsection \<open>The cache\<close>

definition CacheMountPath :: string where "CacheMountPath = ''/cache''"
definition CreateOnceHashAnnotation :: string where "CreateOnceHashAnnotation = ''serving.noctaya.io/create-once-hash''"
definition cacheVolumeName :: string where "cacheVolumeName = ''model-cache''"
definition defaultCacheSize :: string where "defaultCacheSize = ''50Gi''"
definition sharedCacheReadyPath :: string where "sharedCacheReadyPath = CacheMountPath @ ''/.noctaya-ready''"
definition torchDeviceBackendAutoloadEnvVar :: string where
  "torchDeviceBackendAutoloadEnvVar = ''TORCH_DEVICE_BACKEND_AUTOLOAD''"
definition ociPullerImage :: string where "ociPullerImage = ''ghcr.io/oras-project/oras:v1.3.0''"
definition ociStagingVolumeName :: string where "ociStagingVolumeName = ''oci-staging''"
definition ociStagingPath :: string where "ociStagingPath = ''/staging/model''"
definition ociAuthVolumeName :: string where "ociAuthVolumeName = ''oci-registry-auth''"
definition ociAuthMountPath :: string where "ociAuthMountPath = ''/var/run/noctaya/registry-auth''"
definition cacheStrategySharedPVC :: string where "cacheStrategySharedPVC = ''SharedPVC''"
definition modelSourceOCI :: string where "modelSourceOCI = ''oci''"
definition pythonExecutable :: string where "pythonExecutable = ''python3''"

definition CachePVCName :: "LLMService \<Rightarrow> string" where
  "CachePVCName svc = svc_Name svc @ ''-cache''"

definition PrewarmJobName :: "LLMService \<Rightarrow> string" where
  "PrewarmJobName svc = svc_Name svc @ ''-prewarm''"

definition cacheEnv :: "envVar list" where
  "cacheEnv = [EnvVar ''HF_HOME'' (CacheMountPath @ ''/hf''), EnvVar ''MODELSCOPE_CACHE'' (CacheMountPath @ ''/modelscope'')]"

record cacheArtifacts =
  art_volume :: "volume option"
  art_mount :: "volumeMount option"
  art_env :: "envVar list"
  art_pvc :: "persistentVolumeClaim option"

definition artifacts0 :: cacheArtifacts where
  "artifacts0 = \<lparr>art_volume = None, art_mount = None, art_env = [], art_pvc = None\<rparr>"

text \<open>The JSON encodings of the specifications and SHA-256.\<close>

record spec_digest =
  enc_pvc :: "pvcSpec \<Rightarrow> string"
  enc_job :: "jobSpec \<Rightarrow> string"
  Sum256 :: "string \<Rightarrow> string"

definition annotateCreateOnce :: "spec_digest \<Rightarrow> objectMeta \<Rightarrow> string \<Rightarrow> objectMeta" where
  "annotateCreateOnce sd om encoded =
     om\<lparr>om_Annotations := AList.update CreateOnceHashAnnotation (hex_encode (Sum256 sd encoded)) (om_Annotations om)\<rparr>"

definition cachePVC :: "spec_digest \<Rightarrow> LLMService \<Rightarrow> string \<Rightarrow> persistentVolumeClaim" where
  "cachePVC sd svc accessMode =
     (let cache = sp_Cache (svc_Spec svc);
          spec = \<lparr>pvc_AccessModes = [accessMode],
                  pvc_Storage = (case ca_Size cache of Some s \<Rightarrow> s | None \<Rightarrow> QuantityText defaultCacheSize),
                  pvc_StorageClassName = (case ca_StorageClassName cache of Some sc \<Rightarrow> if sc \<noteq> [] then Some sc else None | None \<Rightarrow> None)\<rparr>
      in \<lparr>pvc_Meta = annotateCreateOnce sd (object_meta (CachePVCName svc) (svc_Namespace svc) (SelectorLabels svc)) (enc_pvc sd spec),
          pvc_Spec = spec\<rparr>)"

definition planCache :: "spec_digest \<Rightarrow> LLMService \<Rightarrow> string + cacheArtifacts" where
  "planCache sd svc =
     (let cache = sp_Cache (svc_Spec svc);
          strategy = (if ca_Strategy cache = [] then ''NodeLocalPVC'' else ca_Strategy cache)
      in if strategy = ''None'' then Inr artifacts0
         else if strategy = ''BakedImage'' then Inl (''cache strategy '' @ Quote strategy @ '' is not supported yet'')
         else if strategy = ''HostPath'' then
           Inr \<lparr>art_volume = Some \<lparr>vol_Name = cacheVolumeName,
                  vol_Source = HostPath (''/var/lib/noctaya/cache/'' @ svc_Namespace svc @ ''-'' @ svc_Name svc)
                    (Some ''DirectoryOrCreate'')\<rparr>,
                art_mount = Some \<lparr>vm_Name = cacheVolumeName, vm_MountPath = CacheMountPath, vm_ReadOnly = False\<rparr>,
                art_env = cacheEnv, art_pvc = None\<rparr>
         else if strategy = ''NodeLocalPVC'' \<or> strategy = cacheStrategySharedPVC then
           let shared = (strategy = cacheStrategySharedPVC);
               accessMode = (if shared then ''ReadWriteMany'' else ''ReadWriteOnce'');
               readOnly = (shared \<and> ca_Prewarm cache)
           in Inr \<lparr>art_volume = Some \<lparr>vol_Name = cacheVolumeName, vol_Source = PVCSource (CachePVCName svc) readOnly\<rparr>,
                   art_mount = Some \<lparr>vm_Name = cacheVolumeName, vm_MountPath = CacheMountPath, vm_ReadOnly = readOnly\<rparr>,
                   art_env = cacheEnv, art_pvc = Some (cachePVC sd svc accessMode)\<rparr>
         else Inl (''cache strategy '' @ Quote strategy @ '' is not supported in v0''))"

fun set_claim_read_only :: "bool \<Rightarrow> volume \<Rightarrow> volume" where
  "set_claim_read_only ro v =
     (case vol_Source v of PVCSource n r \<Rightarrow> v\<lparr>vol_Source := PVCSource n ro\<rparr> | _ \<Rightarrow> v)"

fun first_serving_image :: "container list \<Rightarrow> string" where
  "first_serving_image [] = []"
| "first_serving_image (c # cs) = (if ct_Name c = ServingContainerName then ct_Image c else first_serving_image cs)"

definition servingContainerImage :: "podSpec \<Rightarrow> string" where
  "servingContainerImage pod = first_serving_image (ps_Containers pod)"

definition newline :: string where "newline = [CHR 0x0A]"

definition wait_command :: "string \<Rightarrow> string list" where
  "wait_command readyPath =
     [pythonExecutable, ''-c'',
      ''import os,time'' @ newline @ ''while not os.path.isfile('' @ Quote readyPath @ ''): time.sleep(2)'']"

definition cache_ready_path :: "LLMService \<Rightarrow> ResolvedModel \<Rightarrow> string" where
  "cache_ready_path svc model =
     (if rm_Source model = modelSourceOCI then rm_ReadyPath model
      else if ca_Strategy (sp_Cache (svc_Spec svc)) = cacheStrategySharedPVC \<and> ca_Prewarm (sp_Cache (svc_Spec svc))
      then sharedCacheReadyPath else [])"

definition add_cache :: "volume \<Rightarrow> volumeMount \<Rightarrow> envVar list \<Rightarrow> podSpec \<Rightarrow> podSpec" where
  "add_cache volume mount env pod = on_serving (add_env env) (on_serving (add_mount mount) (add_volume volume pod))"

definition add_wait :: "string \<Rightarrow> podSpec \<Rightarrow> podSpec" where
  "add_wait readyPath pod =
     (if readyPath \<noteq> [] then
        pod\<lparr>ps_InitContainers := ps_InitContainers pod @
          [container0\<lparr>ct_Name := ''wait-for-prewarm'', ct_Image := servingContainerImage pod,
             ct_Command := wait_command readyPath,
             ct_VolumeMounts := [\<lparr>vm_Name = cacheVolumeName, vm_MountPath = CacheMountPath, vm_ReadOnly = True\<rparr>]\<rparr>]\<rparr>
      else pod)"

definition applyCache :: "podSpec \<Rightarrow> cacheArtifacts \<Rightarrow> LLMService \<Rightarrow> ResolvedModel \<Rightarrow> podSpec" where
  "applyCache pod art svc model =
     (case (art_volume art, art_mount art) of
        (Some volume, Some mount) \<Rightarrow>
          let oci = (rm_Source model = modelSourceOCI);
              mount = (if oci then mount\<lparr>vm_ReadOnly := True\<rparr> else mount);
              volume = (if oci then set_claim_read_only True volume else volume)
          in add_wait (cache_ready_path svc model) (add_cache volume mount (art_env art) pod)
      | _ \<Rightarrow> pod)"

definition BuildCachePVC :: "spec_digest \<Rightarrow> LLMService \<Rightarrow> string + persistentVolumeClaim option" where
  "BuildCachePVC sd svc = (case planCache sd svc of Inl err \<Rightarrow> Inl err | Inr art \<Rightarrow> Inr (art_pvc art))"

subsection \<open>The prewarm Job\<close>

definition downloadCommand :: "ResolvedModel \<Rightarrow> bool \<Rightarrow> string list" where
  "downloadCommand m markReady =
     (let ready = (if markReady
                   then ''; from pathlib import Path; Path('' @ Quote sharedCacheReadyPath @ '').touch()'' else [])
      in if rm_Source m = ''modelscope''
         then [pythonExecutable, ''-c'',
               ''from modelscope import snapshot_download; snapshot_download('' @ Quote (rm_Path m) @ '')'' @ ready]
         else [pythonExecutable, ''-c'',
               ''from huggingface_hub import snapshot_download; snapshot_download('' @ Quote (rm_Path m) @ '')'' @ ready])"

definition unlines :: "string list \<Rightarrow> string" where
  "unlines ls = concat (map (\<lambda>l. l @ newline) ls)"

definition ociPromotionScript :: "ResolvedModel \<Rightarrow> string" where
  "ociPromotionScript model = unlines
     [''import os, pathlib, shutil'',
      ''src = '' @ Quote ociStagingPath,
      ''dst = '' @ Quote (rm_Path model),
      ''partial = dst + \".partial\"'',
      ''ready = '' @ Quote (rm_ReadyPath model),
      ''if os.path.isfile(ready):'',
      ''    raise SystemExit(0)'',
      ''for root, dirs, files in os.walk(src):'',
      ''    for name in dirs + files:'',
      ''        if os.path.islink(os.path.join(root, name)):'',
      ''            raise RuntimeError(\"OCI model artifacts must not contain symbolic links\")'',
      ''pathlib.Path(os.path.dirname(dst)).mkdir(parents=True, exist_ok=True)'',
      ''shutil.rmtree(partial, ignore_errors=True)'',
      ''shutil.copytree(src, partial)'',
      ''shutil.rmtree(dst, ignore_errors=True)'',
      ''os.replace(partial, dst)'',
      ''pathlib.Path(ready).touch()'']"

definition oci_puller :: "ResolvedModel \<Rightarrow> container" where
  "oci_puller model =
     (let puller = container0\<lparr>ct_Name := ''pull-oci-model'', ct_Image := ociPullerImage,
            ct_Args := [''pull'', rm_OCIReference model, ''--output'', ociStagingPath, ''--no-tty''],
            ct_VolumeMounts := [\<lparr>vm_Name = ociStagingVolumeName, vm_MountPath = ociStagingPath, vm_ReadOnly = False\<rparr>]\<rparr>
      in if rm_OCISecretName model \<noteq> []
         then (add_mount \<lparr>vm_Name = ociAuthVolumeName, vm_MountPath = ociAuthMountPath, vm_ReadOnly = True\<rparr> puller)
                \<lparr>ct_Args := ct_Args puller @ [''--registry-config'', ociAuthMountPath @ ''/config.json'']\<rparr>
         else puller)"

definition oci_auth_volume :: "string \<Rightarrow> volume" where
  "oci_auth_volume name =
     \<lparr>vol_Name = ociAuthVolumeName, vol_Source = SecretSource name 0x100 [(''.dockerconfigjson'', ''config.json'')]\<rparr>"

definition configureOCIModelPull :: "podSpec \<Rightarrow> ResolvedModel \<Rightarrow> podSpec" where
  "configureOCIModelPull pod model =
     (let pod = add_volume \<lparr>vol_Name = ociStagingVolumeName, vol_Source = EmptyDir []\<rparr> pod;
          pod = (if rm_OCISecretName model \<noteq> [] then add_volume (oci_auth_volume (rm_OCISecretName model)) pod else pod);
          pod = pod\<lparr>ps_InitContainers := ps_InitContainers pod @ [oci_puller model]\<rparr>;
          pod = on_first (add_mount \<lparr>vm_Name = ociStagingVolumeName, vm_MountPath = ociStagingPath, vm_ReadOnly = True\<rparr>) pod
      in on_first (\<lambda>c. c\<lparr>ct_Command := [pythonExecutable, ''-c'', ociPromotionScript model]\<rparr>) pod)"

definition prewarm_pod :: "LLMService \<Rightarrow> InferenceRuntime \<Rightarrow> ResolvedModel \<Rightarrow> volume \<Rightarrow> volumeMount \<Rightarrow> podSpec" where
  "prewarm_pod svc rt m prewarmVolume prewarmMount =
     (let acc = ir_Accelerator (rt_Spec rt);
          pod = pod0\<lparr>ps_RestartPolicy := ''OnFailure'', ps_NodeSelector := acc_NodeSelector acc,
            ps_Tolerations := acc_Tolerations acc, ps_SchedulerName := sch_Name (acc_Scheduler acc),
            ps_Containers :=
              [container0\<lparr>ct_Name := ''prewarm'', ct_Image := rtc_Image (ir_Container (rt_Spec rt)),
                 ct_Command := downloadCommand m (ca_Strategy (sp_Cache (svc_Spec svc)) = cacheStrategySharedPVC),
                 ct_Env := cacheEnv @ [EnvVar torchDeviceBackendAutoloadEnvVar ''0''] @ rm_Env m,
                 ct_VolumeMounts := [prewarmMount]\<rparr>],
            ps_Volumes := [prewarmVolume]\<rparr>;
          pod = (if rm_Source m = modelSourceOCI then configureOCIModelPull pod m else pod)
      in applyImagePullSecrets (disableServiceAccountToken pod) svc)"

definition prewarm_job :: "spec_digest \<Rightarrow> LLMService \<Rightarrow> InferenceRuntime \<Rightarrow> podSpec \<Rightarrow> job" where
  "prewarm_job sd svc rt pod =
     (let queue = sch_Queue (acc_Scheduler (ir_Accelerator (rt_Spec rt)));
          spec = \<lparr>job_BackoffLimit = 4,
            job_Template = \<lparr>pt_Labels = SelectorLabels svc,
              pt_Annotations = (if queue \<noteq> [] then [(volcanoQueueAnnotation, queue)] else []), pt_Spec = pod\<rparr>\<rparr>
      in \<lparr>job_Meta = annotateCreateOnce sd (object_meta (PrewarmJobName svc) (svc_Namespace svc) (SelectorLabels svc)) (enc_job sd spec),
          job_Spec = spec, job_Conditions = []\<rparr>)"

definition BuildPrewarmJob ::
  "spec_digest \<Rightarrow> LLMService \<Rightarrow> InferenceRuntime \<Rightarrow> ResolvedModel \<Rightarrow> string + job option" where
  "BuildPrewarmJob sd svc rt m =
     (if rm_Source m = ''pvc'' then Inr None
      else if \<not> ca_Prewarm (sp_Cache (svc_Spec svc)) \<and> rm_Source m \<noteq> modelSourceOCI then Inr None
      else case planCache sd svc of
          Inl err \<Rightarrow> Inl err
        | Inr art \<Rightarrow>
            (case (art_volume art, art_mount art) of
               (Some volume, Some mount) \<Rightarrow>
                 Inr (Some (prewarm_job sd svc rt
                   (prewarm_pod svc rt m (set_claim_read_only False volume) (mount\<lparr>vm_ReadOnly := False\<rparr>))))
             | _ \<Rightarrow>
                 if rm_Source m = modelSourceOCI then Inl ''oci:// model sources require a persistent cache strategy''
                 else Inr None))"

subsection \<open>Lemmas\<close>

lemma on_first_simps [simp]:
  "ps_Containers (on_first f pod) = (case ps_Containers pod of [] \<Rightarrow> [] | c # cs \<Rightarrow> f c # cs)"
  "ps_InitContainers (on_first f pod) = ps_InitContainers pod"
  "ps_Volumes (on_first f pod) = ps_Volumes pod"
  "ps_AutomountServiceAccountToken (on_first f pod) = ps_AutomountServiceAccountToken pod"
  by (simp_all add: on_first_def)

lemma add_env_simps [simp]:
  "ct_Name (add_env es c) = ct_Name c" "ct_Image (add_env es c) = ct_Image c"
  "ct_ReadinessProbe (add_env es c) = ct_ReadinessProbe c" "ct_StartupProbe (add_env es c) = ct_StartupProbe c"
  "ct_PreStop (add_env es c) = ct_PreStop c" "ct_VolumeMounts (add_env es c) = ct_VolumeMounts c"
  "ct_Resources (add_env es c) = ct_Resources c" "ct_Env (add_env es c) = ct_Env c @ es" "ct_Ports (add_env es c) = ct_Ports c"
  by (simp_all add: add_env_def)

lemma planCache_mount:
  assumes "planCache sd svc = Inr art" and "art_volume art = Some v"
  obtains m where "art_mount art = Some m" and "vol_Name v = cacheVolumeName" and "vm_Name m = cacheVolumeName"
    and "ca_Strategy (sp_Cache (svc_Spec svc)) = cacheStrategySharedPVC \<and> ca_Prewarm (sp_Cache (svc_Spec svc)) \<Longrightarrow> vm_ReadOnly m"
  using assms by (auto simp: planCache_def artifacts0_def cacheStrategySharedPVC_def Let_def split: if_splits)

lemma planCache_shared_volume:
  assumes "planCache sd svc = Inr art" and "ca_Strategy (sp_Cache (svc_Spec svc)) = cacheStrategySharedPVC"
  shows "art_volume art \<noteq> None"
  using assms by (auto simp: planCache_def cacheStrategySharedPVC_def Let_def)

lemma serving_pod_env: "serving_pod svc rt pod \<Longrightarrow> serving_pod svc rt (on_serving (add_env es) pod)"
  by (auto simp: serving_pod_defs Let_def list_all_iff split: option.splits)

lemma serving_pod_wait: "serving_pod svc rt pod \<Longrightarrow> serving_pod svc rt (add_wait path pod)"
  by (simp add: add_wait_def serving_pod_defs)

lemma set_claim_name [simp]: "vol_Name (set_claim_read_only ro v) = vol_Name v"
  by (simp split: volumeSource.splits)

declare set_claim_read_only.simps [simp del]

lemma applyCache_serving:
  assumes "planCache sd svc = Inr art" and "serving_pod svc rt pod"
  shows "serving_pod svc rt (applyCache pod art svc model)"
proof (cases "art_volume art")
  case (Some v)
  obtain m where "art_mount art = Some m" "vol_Name v = cacheVolumeName" "vm_Name m = cacheVolumeName"
    using planCache_mount [OF assms(1) Some] .
  with Some assms(2) show ?thesis
    by (simp add: applyCache_def add_cache_def Let_def serving_pod_wait serving_pod_env serving_pod_mount)
qed (use assms in \<open>simp add: applyCache_def\<close>)

end
