(* ===== verification/Backend_Resources.thy ===== *)
theory Backend_Resources
  imports Model_Cache
begin

section \<open>The backend workload\<close>

text \<open>
  \<open>internal/backend/resources/backend.go\<close>: the Deployment and the Service of the backend. What the
  Deployment promises is proved once for every adapter that meets the contract \<open>backend_adapter\<close> and
  holds for the adapters of the registry by their interpretations. What the scripts of the prewarm Job and of the
  waiting init container do with the marker file is read off their texts.
\<close>

definition accelerate :: "AcceleratorRequest \<Rightarrow> container \<Rightarrow> container" where
  "accelerate accel c =
     (let limits = (case rr_Limits (ct_Resources c) of None \<Rightarrow> [] | Some l \<Rightarrow> l)
      in c\<lparr>ct_Resources := (ct_Resources c)\<lparr>rr_Limits := Some (maps_Copy limits (ar_Resources accel))\<rparr>\<rparr>)"

definition applyAccelerator :: "podSpec \<Rightarrow> AcceleratorRequest \<Rightarrow> podSpec" where
  "applyAccelerator pod accel =
     (let pod = (if ar_NodeSelector accel \<noteq> []
                 then pod\<lparr>ps_NodeSelector := maps_Copy (ps_NodeSelector pod) (ar_NodeSelector accel)\<rparr> else pod);
          pod = pod\<lparr>ps_Tolerations := ps_Tolerations pod @ ar_Tolerations accel\<rparr>;
          pod = (if ar_SchedulerName accel \<noteq> [] then pod\<lparr>ps_SchedulerName := ar_SchedulerName accel\<rparr> else pod)
      in on_serving (accelerate accel) pod)"

definition BuildBackendDeployment ::
  "spec_digest \<Rightarrow> BackendAdapter \<Rightarrow> LLMService \<Rightarrow> InferenceRuntime \<Rightarrow> ResolvedModel \<Rightarrow> string + deployment" where
  "BuildBackendDeployment sd adapter svc rt model =
     (case PodSpec adapter svc rt model of
        Inl err \<Rightarrow> Inl err
      | Inr pod \<Rightarrow>
          (case Accelerator adapter svc rt of
             Inl err \<Rightarrow> Inl err
           | Inr accel \<Rightarrow>
               (case planCache sd svc of
                  Inl err \<Rightarrow> Inl err
                | Inr artifacts \<Rightarrow>
                    Inr \<lparr>dep_Meta = object_meta (svc_Name svc) (svc_Namespace svc) (podLabels svc rt),
                         dep_Replicas = None, dep_Selector = SelectorLabels svc,
                         dep_Template =
                           \<lparr>pt_Labels = podLabels svc rt,
                            pt_Annotations = (if ar_Queue accel \<noteq> [] then [(volcanoQueueAnnotation, ar_Queue accel)] else []),
                            pt_Spec = applyCache (applyAccelerator pod accel) artifacts svc model\<rparr>,
                         dep_Status = deploymentStatus0\<rparr>)))"

definition BuildBackendService :: "LLMService \<Rightarrow> InferenceRuntime \<Rightarrow> service" where
  "BuildBackendService svc rt =
     \<lparr>ks_Meta = object_meta (BackendServiceName svc) (svc_Namespace svc) (SelectorLabels svc), ks_Type = [],
      ks_Selector = SelectorLabels svc,
      ks_Ports = [\<lparr>sp_Name = portNameHTTP, sp_Port = 80,
        sp_TargetPort = FromString (rp_Name (rtc_Port (ir_Container (rt_Spec rt)))), sp_Protocol = ''TCP''\<rparr>]\<rparr>"

subsection \<open>Service ports\<close>

text \<open>
  The port of a pod behind the target of a Service port: a number stands for itself, a name for the
  container port of that name.
\<close>

fun resolves :: "intstr \<Rightarrow> podSpec \<Rightarrow> int option" where
  "resolves (FromInt n) pod = Some n"
| "resolves (FromString name) pod =
     map_of (concat (map (\<lambda>c. map (\<lambda>p. (cp_Name p, cp_ContainerPort p)) (ct_Ports c)) (ps_Containers pod))) name"

definition port_map :: "service \<Rightarrow> podSpec \<Rightarrow> (int \<times> int option) list" where
  "port_map svc pod = map (\<lambda>p. (sp_Port p, resolves (sp_TargetPort p) pod)) (ks_Ports svc)"

lemma serving_pod_port:
  assumes "serving_pod svc rt pod"
  shows "resolves (FromString (rp_Name (rtc_Port (ir_Container (rt_Spec rt))))) pod = Some (rp_ContainerPort (rtc_Port (ir_Container (rt_Spec rt))))"
proof -
  obtain c where "ps_Containers pod = [c]" "gated rt c"
    using assms by (auto simp: serving_pod_def length_Suc_conv)
  then show ?thesis by (simp add: gated_def Let_def)
qed

subsection \<open>Label selectors\<close>

lemma selects_update: "selects sel labels \<Longrightarrow> k \<notin> fst ` set sel \<Longrightarrow> selects sel (AList.update k v labels)"
  by (auto simp: selects_def list_all_iff map_of_alist_update rev_image_eqI)

lemma backend_selector: "selects (SelectorLabels svc) (podLabels svc rt)"
  by (simp add: selects_def podLabels_def SelectorLabels_def label_defs)

subsection \<open>The pod of the Deployment\<close>

lemma accelerate_simps [simp]:
  "ct_Name (accelerate a c) = ct_Name c" "ct_Image (accelerate a c) = ct_Image c"
  "ct_ReadinessProbe (accelerate a c) = ct_ReadinessProbe c" "ct_StartupProbe (accelerate a c) = ct_StartupProbe c"
  "ct_Ports (accelerate a c) = ct_Ports c" "ct_PreStop (accelerate a c) = ct_PreStop c" "ct_VolumeMounts (accelerate a c) = ct_VolumeMounts c"
  by (simp_all add: accelerate_def Let_def)

lemma applyAccelerator_serving: "serving_pod svc rt pod \<Longrightarrow> serving_pod svc rt (applyAccelerator pod accel)"
  by (auto simp: applyAccelerator_def serving_pod_defs Let_def list_all_iff split: option.splits)

lemma applyAccelerator_store: "model_store_read_only m pod \<Longrightarrow> model_store_read_only m (applyAccelerator pod accel)"
  by (auto simp: applyAccelerator_def model_store_read_only_def Let_def list_all_iff)

lemma applyCache_store: "model_store_read_only m pod \<Longrightarrow> model_store_read_only m (applyCache pod art svc model)"
  by (auto simp: applyCache_def add_cache_def add_wait_def model_store_read_only_def Let_def list_all_iff split: option.splits)

definition device_limit :: "string \<Rightarrow> int \<Rightarrow> container \<Rightarrow> bool" where
  "device_limit name n c \<longleftrightarrow>
     (case rr_Limits (ct_Resources c) of Some l \<Rightarrow> map_of l name = Some (NewQuantity n) | None \<Rightarrow> False)"

lemma applyAccelerator_device:
  assumes "serving_pod svc rt pod" and "ar_Resources accel = [(name, NewQuantity n)]"
  shows "list_all (device_limit name n) (ps_Containers (applyAccelerator pod accel))"
  using assms
  by (auto simp: applyAccelerator_def serving_pod_defs device_limit_def accelerate_def Let_def list_all_iff maps_Copy_def
      map_of_alist_update)

lemma applyCache_device:
  "list_all (device_limit name n) (ps_Containers pod) \<Longrightarrow>
     list_all (device_limit name n) (ps_Containers (applyCache pod art svc model))"
  by (auto simp: applyCache_def add_cache_def add_wait_def device_limit_def Let_def list_all_iff split: option.splits)

context backend_adapter
begin

lemma deployment_serves:
  assumes "BuildBackendDeployment sd adapter svc rt model = Inr dep"
  shows "serving_pod svc rt (pt_Spec (dep_Template dep)) \<and> model_store_read_only model (pt_Spec (dep_Template dep))
    \<and> list_all (device_limit (acc_ResourceName (ir_Accelerator (rt_Spec rt))) (max 1 (rsc_Accelerators (sp_Resources (svc_Spec svc)))))
         (ps_Containers (pt_Spec (dep_Template dep)))"
proof -
  obtain pod accel art where "PodSpec adapter svc rt model = Inr pod" "Accelerator adapter svc rt = Inr accel"
    "planCache sd svc = Inr art" "pt_Spec (dep_Template dep) = applyCache (applyAccelerator pod accel) art svc model"
    using assms by (auto simp: BuildBackendDeployment_def split: sum.splits)
  moreover note whole_devices [OF this(2)]
  ultimately show ?thesis
    using pod_serves pod_store applyCache_serving applyAccelerator_serving applyCache_store applyAccelerator_store
      applyCache_device applyAccelerator_device by metis
qed

end

subsection \<open>Properties\<close>

text \<open>
  C22. Whatever vendor the registry serves, the rendered backend Deployment leaves the replica count to
  the autoscaler, selects its own pods, and its pod serves: one container with the image and the named port of the
  runtime, a readiness and a startup gate, by default on that port, as a limit exactly the number of devices that
  the service asks for, and one when it asks for none,
  no cluster credentials, the drain covered by the grace period, every mount backed by a volume, and a
  claim of pre-staged weights mounted read-only. The backend Service of the same service is in the namespace of the
  Deployment, selects its pods, and its only port, 80, leads to the container port of the runtime.
\<close>

theorem backend_deployment_serves:
  assumes "registry_Get (registry_New parse) vendor = Some adapter"
    and "BuildBackendDeployment sd adapter svc rt model = Inr dep"
  shows "dep_Replicas dep = None \<and> selects (dep_Selector dep) (pt_Labels (dep_Template dep))
    \<and> om_Namespace (ks_Meta (BuildBackendService svc rt)) = om_Namespace (dep_Meta dep)
    \<and> selects (ks_Selector (BuildBackendService svc rt)) (pt_Labels (dep_Template dep))
    \<and> port_map (BuildBackendService svc rt) (pt_Spec (dep_Template dep)) = [(80, Some (rp_ContainerPort (rtc_Port (ir_Container (rt_Spec rt)))))]
    \<and> serving_pod svc rt (pt_Spec (dep_Template dep)) \<and> model_store_read_only model (pt_Spec (dep_Template dep))
    \<and> list_all (device_limit (acc_ResourceName (ir_Accelerator (rt_Spec rt))) (max 1 (rsc_Accelerators (sp_Resources (svc_Spec svc)))))
         (ps_Containers (pt_Spec (dep_Template dep)))"
proof -
  have "backend_adapter adapter" using registry_adapter [OF assms(1)] by simp
  note pod = backend_adapter.deployment_serves [OF this assms(2)]
  have "dep_Replicas dep = None" "dep_Selector dep = SelectorLabels svc" "pt_Labels (dep_Template dep) = podLabels svc rt"
    "om_Namespace (dep_Meta dep) = svc_Namespace svc"
    using assms(2) by (auto simp: BuildBackendDeployment_def split: sum.splits)
  moreover have "port_map (BuildBackendService svc rt) (pt_Spec (dep_Template dep)) = [(80, Some (rp_ContainerPort (rtc_Port (ir_Container (rt_Spec rt)))))]"
    using serving_pod_port [of svc rt "pt_Spec (dep_Template dep)"] pod by (simp add: port_map_def BuildBackendService_def del: resolves.simps)
  ultimately show ?thesis using pod backend_selector by (simp add: BuildBackendService_def)
qed

definition example_digest :: spec_digest where
  "example_digest = \<lparr>enc_pvc = (\<lambda>_. []), enc_job = (\<lambda>_. []), Sum256 = (\<lambda>s. s)\<rparr>"

lemma example_plan: "\<exists>art. planCache sd example_svc = Inr art"
  by (simp add: planCache_def example_svc_def cacheStrategySharedPVC_def Let_def)

lemma example_deployment:
  "\<exists>dep. BuildBackendDeployment example_digest (nvidia_New plain_text) example_svc example_rt m = Inr dep"
proof -
  have "\<exists>pod. PodSpec (nvidia_New plain_text) example_svc example_rt m = Inr pod"
    by (simp add: nvidia_New_def RenderVLLMPodSpec_def plain_text_def Render_def example_svc_def example_rt_def Let_def)
  moreover have "\<exists>acc. Accelerator (nvidia_New plain_text) example_svc example_rt = Inr acc"
    by (simp add: nvidia_New_def WholeDeviceAccelerator_def example_svc_def example_rt_def Let_def)
  ultimately show ?thesis using example_plan [of example_digest] by (auto simp: BuildBackendDeployment_def)
qed

theorem backend_deployment_serves_witness:
  "\<exists>dep. BuildBackendDeployment example_digest (nvidia_New plain_text) example_svc example_rt example_model = Inr dep
     \<and> dep_Replicas dep = None \<and> serving_pod example_svc example_rt (pt_Spec (dep_Template dep))"
proof -
  obtain dep where dep: "BuildBackendDeployment example_digest (nvidia_New plain_text) example_svc example_rt example_model = Inr dep"
    using example_deployment by blast
  have "registry_Get (registry_New plain_text) ''nvidia'' = Some (nvidia_New plain_text)" by (simp add: registry_New_Get)
  from backend_deployment_serves [OF this dep] dep show ?thesis by blast
qed

text \<open>The init containers of the pod before the cache is applied: the adapters add none.\<close>

lemma AddHostMounts_init: "ps_InitContainers (AddHostMounts pod ms) = ps_InitContainers pod"
  by (induction pod ms rule: AddHostMounts.induct) simp_all

lemma RenderVLLMPodSpec_init: "RenderVLLMPodSpec parse svc rt m = Inr pod \<Longrightarrow> ps_InitContainers pod = []"
  by (auto simp: RenderVLLMPodSpec_def vllm_base_def mountModelStore_def applyDrain_def pod0_def Let_def
      split: sum.splits option.splits if_splits)

lemma registered_init:
  "registry_Get (registry_New parse) vendor = Some a \<Longrightarrow> PodSpec a svc rt m = Inr pod \<Longrightarrow> ps_InitContainers pod = []"
  using RenderVLLMPodSpec_init [of parse svc rt m]
  by (auto simp: registry_New_Get nvidia_New_def ascend_New_def ascend_PodSpec_def AddHostMounts_init
      split: if_splits sum.splits)

lemma applyAccelerator_init: "ps_InitContainers (applyAccelerator pod accel) = ps_InitContainers pod"
  by (simp add: applyAccelerator_def Let_def)

text \<open>
  A rendered pod waits exactly when there is a cache volume and a marker to wait for. Its cache volume is
  that of the plan, up to its read-only flag.
\<close>

definition wait_container :: "string \<Rightarrow> string list \<times> volumeMount list" where
  "wait_container path = (wait_command path, [\<lparr>vm_Name = cacheVolumeName, vm_MountPath = CacheMountPath, vm_ReadOnly = True\<rparr>])"

lemma deployment_init:
  assumes "registry_Get (registry_New parse) vendor = Some adapter"
    and "BuildBackendDeployment sd adapter svc rt model = Inr dep"
  shows "\<exists>art. planCache sd svc = Inr art
    \<and> map (\<lambda>c. (ct_Command c, ct_VolumeMounts c)) (ps_InitContainers (pt_Spec (dep_Template dep))) =
      (if art_volume art \<noteq> None \<and> cache_ready_path svc model \<noteq> [] then [wait_container (cache_ready_path svc model)] else [])
    \<and> (\<forall>v. art_volume art = Some v \<longrightarrow>
      v \<in> set (ps_Volumes (pt_Spec (dep_Template dep))) \<or> set_claim_read_only True v \<in> set (ps_Volumes (pt_Spec (dep_Template dep))))"
proof -
  obtain pod accel art where *: "PodSpec adapter svc rt model = Inr pod" "Accelerator adapter svc rt = Inr accel"
    "planCache sd svc = Inr art" "pt_Spec (dep_Template dep) = applyCache (applyAccelerator pod accel) art svc model"
    using assms(2) by (auto simp: BuildBackendDeployment_def split: sum.splits)
  have "ps_InitContainers (applyAccelerator pod accel) = []"
    using registered_init [OF assms(1) *(1)] by (simp add: applyAccelerator_init)
  moreover have "art_volume art \<noteq> None \<longleftrightarrow> art_mount art \<noteq> None"
    using *(3) by (auto simp: planCache_def artifacts0_def Let_def split: if_splits)
  ultimately show ?thesis
    using *(3,4) by (auto simp: applyCache_def add_cache_def add_wait_def wait_container_def Let_def split: option.splits)
qed

lemma deployment_waits:
  assumes "registry_Get (registry_New parse) vendor = Some adapter"
    and "BuildBackendDeployment sd adapter svc rt model = Inr dep"
  obtains art where "planCache sd svc = Inr art"
    and "map ct_Command (ps_InitContainers (pt_Spec (dep_Template dep))) =
      (if art_volume art \<noteq> None \<and> cache_ready_path svc model \<noteq> [] then [wait_command (cache_ready_path svc model)] else [])"
proof -
  obtain art where art: "planCache sd svc = Inr art"
    "map (\<lambda>c. (ct_Command c, ct_VolumeMounts c)) (ps_InitContainers (pt_Spec (dep_Template dep))) =
      (if art_volume art \<noteq> None \<and> cache_ready_path svc model \<noteq> [] then [wait_container (cache_ready_path svc model)] else [])"
    using deployment_init [OF assms] by blast
  have "map ct_Command (ps_InitContainers (pt_Spec (dep_Template dep))) =
      map fst (map (\<lambda>c. (ct_Command c, ct_VolumeMounts c)) (ps_InitContainers (pt_Spec (dep_Template dep))))"
    by (simp add: comp_def)
  then show thesis by (intro that [OF art(1)]) (simp add: art(2) wait_container_def del: map_map)
qed

text \<open>
  What the Python texts of the two containers do with a file, given as the quoted literal \<open>q\<close>. A command
  waits for the file when its text ends in the polling loop over it. A text creates the file at its end when its
  last statement touches the literal, or when its last line touches the variable \<open>ready\<close> and the last line
  that assigns that variable assigns the literal.
\<close>

definition python :: "string \<Rightarrow> string list" where "python script = [pythonExecutable, ''-c'', script]"

definition awaits :: "string list \<Rightarrow> string \<Rightarrow> bool" where
  "awaits command q \<longleftrightarrow>
     (\<exists>before. command = python (before @ newline @ ''while not os.path.isfile('' @ q @ ''): time.sleep(2)''))"

definition touches_last :: "string \<Rightarrow> string \<Rightarrow> bool" where
  "touches_last script q \<longleftrightarrow>
     (\<exists>before. script = before @ ''; from pathlib import Path; Path('' @ q @ '').touch()'')
     \<or> (\<exists>before after. script = unlines (before @ [''ready = '' @ q] @ after @ [''pathlib.Path(ready).touch()''])
          \<and> list_all (\<lambda>l. \<not> HasPrefix l ''ready'') after)"

lemma wait_command_awaits: "awaits (wait_command path) (Quote path)"
  by (auto simp: awaits_def wait_command_def python_def)

lemma downloadCommand_touches: "\<exists>script. downloadCommand m True = python script \<and> touches_last script (Quote sharedCacheReadyPath)"
  by (simp add: downloadCommand_def touches_last_def python_def Let_def)

lemma ociPromotionScript_touches: "touches_last (ociPromotionScript m) (Quote (rm_ReadyPath m))"
proof -
  let ?before = "[''import os, pathlib, shutil'', ''src = '' @ Quote ociStagingPath, ''dst = '' @ Quote (rm_Path m), ''partial = dst + \".partial\"'']"
  let ?after = "[''if os.path.isfile(ready):'', ''    raise SystemExit(0)'', ''for root, dirs, files in os.walk(src):'',
      ''    for name in dirs + files:'', ''        if os.path.islink(os.path.join(root, name)):'',
      ''            raise RuntimeError(\"OCI model artifacts must not contain symbolic links\")'',
      ''pathlib.Path(os.path.dirname(dst)).mkdir(parents=True, exist_ok=True)'', ''shutil.rmtree(partial, ignore_errors=True)'',
      ''shutil.copytree(src, partial)'', ''shutil.rmtree(dst, ignore_errors=True)'', ''os.replace(partial, dst)'']"
  have "ociPromotionScript m = unlines (?before @ [''ready = '' @ Quote (rm_ReadyPath m)] @ ?after @ [''pathlib.Path(ready).touch()''])"
    by (simp only: ociPromotionScript_def append_Cons append_Nil)
  moreover have "list_all (\<lambda>l. \<not> HasPrefix l ''ready'') ?after" by (simp add: HasPrefix_def)
  ultimately show ?thesis unfolding touches_last_def by blast
qed

lemma prewarm_pod_command:
  "map ct_Command (ps_Containers (prewarm_pod svc rt m v w)) =
     [if rm_Source m = modelSourceOCI then [pythonExecutable, ''-c'', ociPromotionScript m]
      else downloadCommand m (ca_Strategy (sp_Cache (svc_Spec svc)) = cacheStrategySharedPVC)]"
  by (simp add: prewarm_pod_def configureOCIModelPull_def applyImagePullSecrets_def disableServiceAccountToken_def Let_def)

lemma prewarm_pod_mount:
  "list_all (\<lambda>ms. w \<in> set ms) (map ct_VolumeMounts (ps_Containers (prewarm_pod svc rt m v w)))"
  "v \<in> set (ps_Volumes (prewarm_pod svc rt m v w))"
  by (simp_all add: prewarm_pod_def configureOCIModelPull_def applyImagePullSecrets_def disableServiceAccountToken_def Let_def)

lemma set_claim_read_only_twice: "set_claim_read_only a (set_claim_read_only b v) = set_claim_read_only a v"
  by (simp add: set_claim_read_only.simps split: volumeSource.split)

lemma planCache_mount_path: "planCache sd svc = Inr art \<Longrightarrow> art_mount art = Some m \<Longrightarrow> vm_MountPath m = CacheMountPath"
  by (auto simp: planCache_def artifacts0_def Let_def split: if_splits)

text \<open>
  C29. A backend never waits for a marker that nobody writes, for every source but \<^verbatim>\<open>pvc://\<close>: an init
  container of the rendered Deployment is a Python text that ends in a loop until a file exists, in the mounted cache
  volume; then the prewarm Job is rendered too, its only container runs a Python text whose last
  statement creates the file of that very literal, and it mounts the same cache volume at the same path, writable.
\<close>

theorem prewarm_marker_is_written:
  assumes "registry_Get (registry_New parse) vendor = Some adapter"
    and "BuildBackendDeployment sd adapter svc rt model = Inr dep"
    and "init \<in> set (ps_InitContainers (pt_Spec (dep_Template dep)))"
    and "rm_Source model \<noteq> ''pvc''"
  shows "\<exists>q job script mount v v'. awaits (ct_Command init) q \<and> BuildPrewarmJob sd svc rt model = Inr (Some job)
    \<and> map ct_Command (ps_Containers (pt_Spec (job_Template (job_Spec job)))) = [python script] \<and> touches_last script q
    \<and> list_all (\<lambda>ms. mount \<in> set ms) (map ct_VolumeMounts (ps_Containers (pt_Spec (job_Template (job_Spec job)))))
    \<and> \<not> vm_ReadOnly mount \<and> mount\<lparr>vm_ReadOnly := True\<rparr> \<in> set (ct_VolumeMounts init)
    \<and> v \<in> set (ps_Volumes (pt_Spec (job_Template (job_Spec job)))) \<and> v' \<in> set (ps_Volumes (pt_Spec (dep_Template dep)))
    \<and> vol_Name v = vm_Name mount \<and> set_claim_read_only True v = set_claim_read_only True v'"
proof -
  let ?path = "cache_ready_path svc model"
  obtain art where art: "planCache sd svc = Inr art"
    "map (\<lambda>c. (ct_Command c, ct_VolumeMounts c)) (ps_InitContainers (pt_Spec (dep_Template dep))) =
      (if art_volume art \<noteq> None \<and> ?path \<noteq> [] then [wait_container ?path] else [])"
    and vols: "\<forall>v. art_volume art = Some v \<longrightarrow>
      v \<in> set (ps_Volumes (pt_Spec (dep_Template dep))) \<or> set_claim_read_only True v \<in> set (ps_Volumes (pt_Spec (dep_Template dep)))"
    using deployment_init [OF assms(1,2)] by blast
  have pair: "(ct_Command init, ct_VolumeMounts init) \<in> set (if art_volume art \<noteq> None \<and> ?path \<noteq> [] then [wait_container ?path] else [])"
    unfolding art(2) [symmetric] using assms(3) by simp
  then have ne: "?path \<noteq> []" and av: "art_volume art \<noteq> None" by (simp_all split: if_splits)
  with pair have init: "ct_Command init = wait_command ?path"
    "ct_VolumeMounts init = [\<lparr>vm_Name = cacheVolumeName, vm_MountPath = CacheMountPath, vm_ReadOnly = True\<rparr>]"
    by (simp_all add: wait_container_def)
  obtain v where v: "art_volume art = Some v" using av by blast
  obtain m where m: "art_mount art = Some m" "vol_Name v = cacheVolumeName" "vm_Name m = cacheVolumeName"
    using planCache_mount [OF art(1) v] .
  define w where "w = m\<lparr>vm_ReadOnly := False\<rparr>"
  define job where "job = prewarm_job sd svc rt (prewarm_pod svc rt model (set_claim_read_only False v) w)"
  have job: "BuildPrewarmJob sd svc rt model = Inr (Some job)"
    using assms(4) ne art(1) v m(1)
    by (simp add: BuildPrewarmJob_def job_def w_def cache_ready_path_def split: if_splits)
  have spec: "pt_Spec (job_Template (job_Spec job)) = prewarm_pod svc rt model (set_claim_read_only False v) w"
    by (simp add: job_def prewarm_job_def Let_def)
  obtain script where script: "map ct_Command (ps_Containers (pt_Spec (job_Template (job_Spec job)))) = [python script]"
    "touches_last script (Quote ?path)"
    unfolding spec prewarm_pod_command using ne downloadCommand_touches [of model] ociPromotionScript_touches [of model]
    by (auto simp: cache_ready_path_def python_def split: if_splits)
  have mount: "w\<lparr>vm_ReadOnly := True\<rparr> \<in> set (ct_VolumeMounts init)" "\<not> vm_ReadOnly w" "vm_Name w = cacheVolumeName"
    using init(2) m(3) planCache_mount_path [OF art(1) m(1)] by (simp_all add: w_def)
  obtain v' where v': "v' \<in> set (ps_Volumes (pt_Spec (dep_Template dep)))" "set_claim_read_only True v = set_claim_read_only True v'"
    using vols [rule_format, OF v] set_claim_read_only_twice by metis
  have "set_claim_read_only True (set_claim_read_only False v) = set_claim_read_only True v'"
    using v'(2) by (simp add: set_claim_read_only_twice)
  with job script wait_command_awaits [of ?path] init(1) mount v'(1) m(2) prewarm_pod_mount [where w = w and svc = svc and rt = rt and m = model and v = "set_claim_read_only False v"]
  show ?thesis unfolding spec
    by (intro exI [of _ "Quote ?path"] exI [of _ job] exI [of _ script] exI [of _ w] exI [of _ "set_claim_read_only False v"] exI [of _ v'])
       (simp add: spec)
qed

lemma example_ready: "rm_Source m \<noteq> ''oci'' \<Longrightarrow> cache_ready_path example_svc m = sharedCacheReadyPath"
  by (simp add: cache_ready_path_def modelSourceOCI_def cacheStrategySharedPVC_def example_svc_def)

lemma ready_path_nonempty: "sharedCacheReadyPath \<noteq> []"
  by (simp add: sharedCacheReadyPath_def)

lemma example_waits:
  assumes "BuildBackendDeployment sd (nvidia_New plain_text) example_svc rt m = Inr dep" and "rm_Source m \<noteq> ''oci''"
  shows "map ct_Command (ps_InitContainers (pt_Spec (dep_Template dep))) = [wait_command sharedCacheReadyPath]"
proof -
  have r: "registry_Get (registry_New plain_text) ''nvidia'' = Some (nvidia_New plain_text)" by (simp add: registry_New_Get)
  have shared: "ca_Strategy (sp_Cache (svc_Spec example_svc)) = cacheStrategySharedPVC"
    by (simp add: example_svc_def cacheStrategySharedPVC_def)
  from deployment_waits [OF r assms(1)] obtain art where "planCache sd example_svc = Inr art"
    "map ct_Command (ps_InitContainers (pt_Spec (dep_Template dep))) =
      (if art_volume art \<noteq> None \<and> cache_ready_path example_svc m \<noteq> [] then [wait_command (cache_ready_path example_svc m)] else [])" .
  with planCache_shared_volume [OF this(1) shared] example_ready [OF assms(2)] ready_path_nonempty show ?thesis by simp
qed

theorem prewarm_marker_is_written_witness:
  "\<exists>dep init q job script. BuildBackendDeployment example_digest (nvidia_New plain_text) example_svc example_rt example_model = Inr dep
    \<and> init \<in> set (ps_InitContainers (pt_Spec (dep_Template dep))) \<and> awaits (ct_Command init) q
    \<and> BuildPrewarmJob example_digest example_svc example_rt example_model = Inr (Some job)
    \<and> map ct_Command (ps_Containers (pt_Spec (job_Template (job_Spec job)))) = [python script] \<and> touches_last script q"
proof -
  obtain dep where dep: "BuildBackendDeployment example_digest (nvidia_New plain_text) example_svc example_rt example_model = Inr dep"
    using example_deployment by blast
  have r: "registry_Get (registry_New plain_text) ''nvidia'' = Some (nvidia_New plain_text)" by (simp add: registry_New_Get)
  have src: "rm_Source example_model \<noteq> ''pvc''" "rm_Source example_model \<noteq> ''oci''" by (simp_all add: example_model_def)
  then have "map ct_Command (ps_InitContainers (pt_Spec (dep_Template dep))) = [wait_command sharedCacheReadyPath]"
    using example_waits [OF dep] by simp
  then obtain init where init: "init \<in> set (ps_InitContainers (pt_Spec (dep_Template dep)))" by (metis list.set_intros(1) map_eq_Cons_conv)
  from prewarm_marker_is_written [OF r dep init src(1)] obtain q job script where
    "awaits (ct_Command init) q" "BuildPrewarmJob example_digest example_svc example_rt example_model = Inr (Some job)"
    "map ct_Command (ps_Containers (pt_Spec (job_Template (job_Spec job)))) = [python script]" "touches_last script q" by (elim exE conjE) (rule that)
  with dep init show ?thesis by (intro exI conjI)
qed

text \<open>
  C39. For a \<^verbatim>\<open>pvc://\<close> source with the strategy \<open>SharedPVC\<close> and prewarming requested, the pod of the
  backend waits for the marker of the shared cache, and no Job is rendered that could write it: the
  backend never starts.
\<close>

theorem pvc_source_waits_forever:
  assumes "registry_Get (registry_New parse) vendor = Some adapter"
    and "BuildBackendDeployment sd adapter svc rt model = Inr dep"
    and "rm_Source model = ''pvc''"
    and "ca_Strategy (sp_Cache (svc_Spec svc)) = cacheStrategySharedPVC" and "ca_Prewarm (sp_Cache (svc_Spec svc))"
  shows "map ct_Command (ps_InitContainers (pt_Spec (dep_Template dep))) = [wait_command sharedCacheReadyPath]
    \<and> BuildPrewarmJob sd svc rt model = Inr None"
proof -
  obtain art where art: "planCache sd svc = Inr art" "map ct_Command (ps_InitContainers (pt_Spec (dep_Template dep))) =
      (if art_volume art \<noteq> None \<and> cache_ready_path svc model \<noteq> [] then [wait_command (cache_ready_path svc model)] else [])"
    using deployment_waits [OF assms(1,2)] .
  moreover have "cache_ready_path svc model = sharedCacheReadyPath"
    using assms(3-5) by (simp add: cache_ready_path_def modelSourceOCI_def)
  ultimately show ?thesis
    using planCache_shared_volume [OF art(1) assms(4)] assms(3) ready_path_nonempty by (simp add: BuildPrewarmJob_def)
qed

theorem pvc_source_waits_forever_witness:
  "\<exists>dep. BuildBackendDeployment example_digest (nvidia_New plain_text) example_svc example_rt
       (resolved0\<lparr>rm_Source := ''pvc'', rm_PVC := ''store''\<rparr>) = Inr dep
    \<and> map ct_Command (ps_InitContainers (pt_Spec (dep_Template dep))) = [wait_command sharedCacheReadyPath]
    \<and> BuildPrewarmJob example_digest example_svc example_rt (resolved0\<lparr>rm_Source := ''pvc'', rm_PVC := ''store''\<rparr>) = Inr None"
proof -
  let ?m = "resolved0\<lparr>rm_Source := ''pvc'', rm_PVC := ''store''\<rparr>"
  obtain dep where dep: "BuildBackendDeployment example_digest (nvidia_New plain_text) example_svc example_rt ?m = Inr dep"
    using example_deployment by blast
  have r: "registry_Get (registry_New plain_text) ''nvidia'' = Some (nvidia_New plain_text)" by (simp add: registry_New_Get)
  from pvc_source_waits_forever [OF r dep] dep show ?thesis
    by (simp add: example_svc_def cacheStrategySharedPVC_def)
qed

end
