(* ===== verification/Subscriptions.thy ===== *)
theory Subscriptions
  imports Go_Base
begin

section \<open>Demand subscriptions\<close>

text \<open>
  \<open>internal/gateway/demand/subscriptions.go\<close>: the fan-out of the latest demand value that the
  gateway and the aggregator share. A subscriber holds a channel of capacity one; \<open>Publish\<close>
  replaces a value the subscriber has not read yet. Channels are references into the store
  \<open>chans\<close> of buffers, because the subscriber and the map \<open>subscribers\<close> alias them, and a
  subscriber reads without holding the mutex. The locale \<open>demand_mailbox\<close> is the contract the
  two clients rely on, interpreted here on the model of the code.
\<close>

subsection \<open>State and operations\<close>

record subscriptions =
  subscribers :: "(uint64 \<times> nat) list"
  nextSubscriber :: uint64
  lastDemand :: int
  chans :: "int list list"

definition NewSubscriptions :: subscriptions where
  "NewSubscriptions = \<lparr>subscribers = [], nextSubscriber = 0, lastDemand = 0, chans = []\<rparr>"

text \<open>A send that would block is \<open>None\<close>; the channels have capacity one.\<close>

definition try_send :: "int list \<Rightarrow> int \<Rightarrow> int list option" where
  "try_send buf v = (if length buf < 1 then Some (buf @ [v]) else None)"

definition try_recv :: "int list \<Rightarrow> (int \<times> int list) option" where
  "try_recv buf = (case buf of [] \<Rightarrow> None | x # xs \<Rightarrow> Some (x, xs))"

text \<open>
  The body of the loop of \<open>Publish\<close> for one channel. The holder of the channel may read at any
  time: the two booleans say whether it takes a value before the inner \<open>select\<close> and before the
  last send. \<open>None\<close> is a send that blocks while the mutex is held.
\<close>

definition reader_takes :: "bool \<Rightarrow> int list \<Rightarrow> int list" where
  "reader_takes r buf = (if r then (case try_recv buf of Some (_, b) \<Rightarrow> b | None \<Rightarrow> buf) else buf)"

definition publish_one :: "int \<Rightarrow> bool \<times> bool \<Rightarrow> int list \<Rightarrow> int list option" where
  "publish_one demand race buf =
     (case try_send buf demand of
        Some b \<Rightarrow> Some b
      | None \<Rightarrow>
          let b1 = reader_takes (fst race) buf;
              b2 = (case try_recv b1 of Some (_, b) \<Rightarrow> b | None \<Rightarrow> b1);
              b3 = reader_takes (snd race) b2
          in try_send b3 demand)"

fun publish_loop ::
  "int \<Rightarrow> (nat \<Rightarrow> bool \<times> bool) \<Rightarrow> (uint64 \<times> nat) list \<Rightarrow> int list list \<Rightarrow> int list list option" where
  "publish_loop demand race [] cs = Some cs"
| "publish_loop demand race ((sid, ch) # subs) cs =
     (case publish_one demand (race ch) (cs ! ch) of
        None \<Rightarrow> None
      | Some b \<Rightarrow> publish_loop demand race subs (cs[ch := b]))"

definition Publish_racing ::
  "(nat \<Rightarrow> bool \<times> bool) \<Rightarrow> int \<Rightarrow> subscriptions \<Rightarrow> (bool \<times> subscriptions) option" where
  "Publish_racing race demand s =
     (if demand = lastDemand s then Some (False, s)
      else let activated = lastDemand s = 0 \<and> demand > 0 in
        (case publish_loop demand race (subscribers s) (chans s) of
           None \<Rightarrow> None
         | Some cs \<Rightarrow> Some (activated, s\<lparr>lastDemand := demand, chans := cs\<rparr>)))"

text \<open>
  The value of a send is the same whatever the readers do, and no send blocks
  (\<open>Publish_racing_total\<close> below), so the components use the call without a race.
\<close>

definition Publish :: "int \<Rightarrow> subscriptions \<Rightarrow> bool \<times> subscriptions" where
  "Publish demand s =
     (case Publish_racing (\<lambda>_. (False, False)) demand s of Some r \<Rightarrow> r | None \<Rightarrow> (False, s))"

text \<open>The second result of \<open>Subscribe\<close> is a closure over the identifier and a \<open>sync.Once\<close>.\<close>

record subscription =
  sub_chan :: nat
  sub_id :: uint64
  sub_once :: bool

definition Subscribe :: "int \<Rightarrow> subscriptions \<Rightarrow> subscription \<times> subscriptions" where
  "Subscribe current s =
     (let ch = length (chans s); sid = nextSubscriber s
      in (\<lparr>sub_chan = ch, sub_id = sid, sub_once = False\<rparr>,
          s\<lparr>chans := chans s @ [[current]],
            nextSubscriber := nextSubscriber s + 1,
            subscribers := AList.update sid ch (subscribers s)\<rparr>))"

definition unsubscribe :: "subscription \<Rightarrow> subscriptions \<Rightarrow> subscription \<times> subscriptions" where
  "unsubscribe h s =
     (if sub_once h then (h, s)
      else (h\<lparr>sub_once := True\<rparr>, s\<lparr>subscribers := AList.delete (sub_id h) (subscribers s)\<rparr>))"

definition Current :: "subscriptions \<Rightarrow> int" where
  "Current s = lastDemand s"

text \<open>A receive by the holder of a channel; \<open>None\<close> is a receive that waits.\<close>

definition receive :: "nat \<Rightarrow> subscriptions \<Rightarrow> (int \<times> subscriptions) option" where
  "receive ch s =
     (if ch < length (chans s)
      then map_option (\<lambda>(v, b). (v, s\<lparr>chans := (chans s)[ch := b]\<rparr>)) (try_recv (chans s ! ch))
      else None)"

definition live :: "subscriptions \<Rightarrow> nat set" where
  "live s = snd ` set (subscribers s)"

definition buffered :: "subscriptions \<Rightarrow> nat \<Rightarrow> int list" where
  "buffered s ch = (if ch < length (chans s) then chans s ! ch else [])"

definition subs_ok :: "subscriptions \<Rightarrow> bool" where
  "subs_ok s \<longleftrightarrow>
     distinct (map fst (subscribers s)) \<and> distinct (map snd (subscribers s)) \<and>
     list_all (\<lambda>(sid, ch). ch < length (chans s)) (subscribers s) \<and>
     list_all (\<lambda>b. length b \<le> 1) (chans s)"

subsection \<open>Publishing never blocks\<close>

lemma publish_one_total: "length buf \<le> 1 \<Longrightarrow> publish_one d race buf = Some [d]"
  by (cases buf)
     (auto simp: publish_one_def try_send_def try_recv_def reader_takes_def Let_def split: option.splits)

text \<open>The channels of the map after the loop: every listed channel holds the new value.\<close>

definition overwrite :: "nat set \<Rightarrow> int \<Rightarrow> int list list \<Rightarrow> int list list" where
  "overwrite C d cs = map (\<lambda>(i, b). if i \<in> C then [d] else b) (enumerate 0 cs)"

lemma length_overwrite [simp]: "length (overwrite C d cs) = length cs"
  by (simp add: overwrite_def)

lemma nth_overwrite: "i < length cs \<Longrightarrow> overwrite C d cs ! i = (if i \<in> C then [d] else cs ! i)"
  by (simp add: overwrite_def nth_enumerate_eq)

lemma publish_loop_total:
  assumes "list_all (\<lambda>(sid, ch). ch < length cs) subs" and "list_all (\<lambda>b. length b \<le> 1) cs"
  shows "publish_loop d race subs cs = Some (overwrite (snd ` set subs) d cs)"
  using assms
proof (induction subs arbitrary: cs)
  case Nil
  show ?case by (simp, rule nth_equalityI) (simp_all add: nth_overwrite)
next
  case (Cons p subs)
  obtain sid ch where p: "p = (sid, ch)" by fastforce
  from Cons.prems p have ch: "ch < length cs" and "length (cs ! ch) \<le> 1"
    by (auto simp: list_all_length)
  then have one: "publish_one d (race ch) (cs ! ch) = Some [d]" by (simp add: publish_one_total)
  have "list_all (\<lambda>b. length b \<le> 1) (cs[ch := [d]])"
    using Cons.prems(2) by (simp add: list_all_list_update)
  then have "publish_loop d race subs (cs[ch := [d]]) = Some (overwrite (snd ` set subs) d (cs[ch := [d]]))"
    using Cons by simp
  moreover have "overwrite (snd ` set subs) d (cs[ch := [d]]) = overwrite (snd ` set (p # subs)) d cs"
    using ch p by (intro nth_equalityI) (auto simp: nth_overwrite nth_list_update)
  ultimately show ?case using one p by simp
qed

lemma Publish_racing_eq:
  assumes "subs_ok s"
  shows "Publish_racing race d s =
    Some (lastDemand s = 0 \<and> d > 0,
          if d = lastDemand s then s
          else s\<lparr>lastDemand := d, chans := overwrite (live s) d (chans s)\<rparr>)"
  using assms by (auto simp: Publish_racing_def subs_ok_def publish_loop_total live_def Let_def)

lemma Publish_eq:
  assumes "subs_ok s"
  shows "Publish d s =
    (lastDemand s = 0 \<and> d > 0,
     if d = lastDemand s then s
     else s\<lparr>lastDemand := d, chans := overwrite (live s) d (chans s)\<rparr>)"
  by (simp add: Publish_def Publish_racing_eq [OF assms])

lemma live_iff: "ch \<in> live s \<longleftrightarrow> (\<exists>sid. (sid, ch) \<in> set (subscribers s))"
  by (force simp: live_def)

lemma subs_ok_live: "subs_ok s \<Longrightarrow> ch \<in> live s \<Longrightarrow> ch < length (chans s)"
  by (auto simp: subs_ok_def live_iff list_all_iff)

lemma subs_ok_new [invar_intros]: "subs_ok NewSubscriptions"
  by (simp add: subs_ok_def NewSubscriptions_def)

lemma subs_ok_publish [invar_intros]: "subs_ok s \<Longrightarrow> subs_ok (snd (Publish d s))"
  by (auto simp: Publish_eq) (auto simp: subs_ok_def list_all_length nth_overwrite)

lemma subs_ok_subscribe [invar_intros]: "subs_ok s \<Longrightarrow> subs_ok (snd (Subscribe c s))"
proof -
  assume ok: "subs_ok s"
  have fresh: "length (chans s) \<notin> snd ` set (subscribers s)"
    using subs_ok_live [OF ok] by (auto simp: live_def)
  have "ch < Suc (length (chans s))"
    if "(sid, ch) \<in> set (AList.update (nextSubscriber s) (length (chans s)) (subscribers s))" for sid ch
    using that set_alist_update_subset ok by (fastforce simp: subs_ok_def list_all_iff)
  then show ?thesis using ok fresh
    by (auto simp: subs_ok_def Subscribe_def Let_def distinct_update distinct_snd_alist_update list_all_iff)
qed

lemma subs_ok_unsubscribe [invar_intros]: "subs_ok s \<Longrightarrow> subs_ok (snd (unsubscribe h s))"
  by (auto simp: subs_ok_def unsubscribe_def AList.delete_eq list_all_iff
        intro: distinct_map_filter)

lemma subs_ok_receive [invar_intros]: "subs_ok s \<Longrightarrow> receive ch s = Some (v, s') \<Longrightarrow> subs_ok s'"
proof -
  assume ok: "subs_ok s" and "receive ch s = Some (v, s')"
  then obtain b where b: "chans s ! ch = v # b" and ch: "ch < length (chans s)"
    and s': "s' = s\<lparr>chans := (chans s)[ch := b]\<rparr>"
    by (auto simp: receive_def try_recv_def split: if_splits list.splits)
  from ok b ch have "length b \<le> 1" by (fastforce simp: subs_ok_def list_all_length)
  with ok s' show ?thesis by (simp add: subs_ok_def list_all_list_update)
qed

subsection \<open>The contract\<close>

text \<open>
  What a client of the mailbox relies on. \<open>unread s ch\<close> is what the holder of \<open>ch\<close> has not read
  yet; \<open>newest\<close> is the last value the holder gets by reading on, after it has read \<open>seen\<close>.
\<close>

definition newest :: "int list \<Rightarrow> int option \<Rightarrow> int option" where
  "newest buf seen = (if buf = [] then seen else Some (last buf))"

locale demand_mailbox =
  fixes publish :: "int \<Rightarrow> 's \<Rightarrow> bool \<times> 's"
    and subscribe :: "int \<Rightarrow> 's \<Rightarrow> 'h \<times> 's"
    and unsub :: "'h \<Rightarrow> 's \<Rightarrow> 'h \<times> 's"
    and recv :: "nat \<Rightarrow> 's \<Rightarrow> (int \<times> 's) option"
    and cur :: "'s \<Rightarrow> int"
    and alive :: "'s \<Rightarrow> nat set"
    and unread :: "'s \<Rightarrow> nat \<Rightarrow> int list"
    and chan_of :: "'h \<Rightarrow> nat"
    and invar :: "'s \<Rightarrow> bool"
  assumes publish_flag: "invar s \<Longrightarrow> fst (publish d s) \<longleftrightarrow> cur s = 0 \<and> d > 0"
    and publish_cur: "invar s \<Longrightarrow> cur (snd (publish d s)) = d"
    and publish_alive: "invar s \<Longrightarrow> alive (snd (publish d s)) = alive s"
    and publish_unread: "invar s \<Longrightarrow> ch \<in> alive s \<Longrightarrow>
          unread (snd (publish d s)) ch = (if d = cur s then unread s ch else [d])"
    and publish_invar: "invar s \<Longrightarrow> invar (snd (publish d s))"
    and subscribe_unread: "invar s \<Longrightarrow> unread (snd (subscribe c s)) ch =
          (if ch = chan_of (fst (subscribe c s)) then [c] else unread s ch)"
    and subscribe_alive: "invar s \<Longrightarrow> chan_of (fst (subscribe c s)) \<in> alive (snd (subscribe c s)) \<and>
          alive (snd (subscribe c s)) \<subseteq> insert (chan_of (fst (subscribe c s))) (alive s)"
    and subscribe_cur: "invar s \<Longrightarrow> cur (snd (subscribe c s)) = cur s"
    and subscribe_invar: "invar s \<Longrightarrow> invar (snd (subscribe c s))"
    and unsub_alive: "alive (snd (unsub h s)) \<subseteq> alive s"
    and unsub_unread: "unread (snd (unsub h s)) = unread s"
    and unsub_cur: "cur (snd (unsub h s)) = cur s"
    and unsub_invar: "invar s \<Longrightarrow> invar (snd (unsub h s))"
    and recv_unread: "invar s \<Longrightarrow> recv ch s = Some (v, s') \<Longrightarrow>
          unread s ch = v # unread s' ch \<and> (\<forall>c. c \<noteq> ch \<longrightarrow> unread s' c = unread s c)"
    and recv_frame: "invar s \<Longrightarrow> recv ch s = Some (v, s') \<Longrightarrow> alive s' = alive s \<and> cur s' = cur s"
    and recv_invar: "invar s \<Longrightarrow> recv ch s = Some (v, s') \<Longrightarrow> invar s'"
begin

text \<open>
  What the operations do to the value at which the holder of a channel ends by reading on, when it has read
  \<open>seen\<close> last: only a publish of another demand changes it, for every live subscriber.
\<close>

lemma publish_newest:
  assumes "invar s" and "ch \<in> alive s"
  shows "newest (unread (snd (publish d s)) ch) v = (if d = cur s then newest (unread s ch) v else Some d)"
  using assms by (simp add: publish_unread newest_def)

lemma subscribe_newest:
  assumes "invar s"
  shows "newest (unread (snd (subscribe c s)) ch) v = (if ch = chan_of (fst (subscribe c s)) then Some c else newest (unread s ch) v)"
  using assms by (simp add: subscribe_unread newest_def)

lemma unsub_newest: "newest (unread (snd (unsub h s)) ch) v = newest (unread s ch) v"
  by (simp add: unsub_unread)

lemma recv_newest:
  assumes "invar s" and "recv k s = Some (v, s')"
  shows "newest (unread s' ch) ((seen(k := Some v)) ch) = newest (unread s ch) (seen ch)"
  using recv_unread [OF assms] by (cases "ch = k") (simp_all add: newest_def)

end

lemma buffered_publish:
  assumes "subs_ok s" and "ch \<in> live s"
  shows "buffered (snd (Publish d s)) ch = (if d = lastDemand s then buffered s ch else [d])"
  using assms subs_ok_live [OF assms] by (simp add: buffered_def Publish_eq nth_overwrite)

lemma live_publish: "subs_ok s \<Longrightarrow> live (snd (Publish d s)) = live s"
  by (simp add: Publish_eq live_def)

lemma live_subscribe: "live (snd (Subscribe c s)) \<subseteq> insert (length (chans s)) (live s)"
  using set_alist_update_subset [of "nextSubscriber s" "length (chans s)" "subscribers s"]
  by (fastforce simp: live_def Subscribe_def Let_def)

lemma subscribed_live: "length (chans s) \<in> live (snd (Subscribe c s))"
  using alist_update_in [of "nextSubscriber s" "length (chans s)" "subscribers s"]
  by (force simp: live_def Subscribe_def Let_def)

lemma receive_Some:
  assumes "receive ch s = Some (v, s')"
  shows "ch < length (chans s) \<and> (\<exists>b. chans s ! ch = v # b \<and> s' = s\<lparr>chans := (chans s)[ch := b]\<rparr>)"
  using assms by (auto simp: receive_def try_recv_def split: if_splits list.splits)

interpretation mailbox: demand_mailbox Publish Subscribe unsubscribe receive lastDemand live buffered sub_chan subs_ok
proof (unfold_locales, goal_cases)
  case (3 s d) then show ?case by (rule live_publish)
next
  case (4 s ch d) then show ?case by (rule buffered_publish)
next
  case (5 s d) then show ?case by (rule subs_ok_publish)
next
  case (6 s c ch) then show ?case by (simp add: Subscribe_def Let_def buffered_def nth_append)
next
  case (7 s c) then show ?case
    using live_subscribe [of c s] subscribed_live [of s c] by (simp add: Subscribe_def Let_def)
next
  case (10 h s) then show ?case by (auto simp: live_def unsubscribe_def AList.delete_eq)
next
  case (13 s h) then show ?case by (rule subs_ok_unsubscribe)
next
  case (14 s ch v s') then show ?case
    by (auto dest!: receive_Some simp: buffered_def nth_list_update)
next
  case (15 s ch v s') then show ?case by (auto dest!: receive_Some simp: live_def)
qed (auto simp: Publish_eq live_publish Subscribe_def unsubscribe_def Let_def buffered_def fun_eq_iff
       intro: subs_ok_receive dest: subs_ok_subscribe)

subsection \<open>Runs of the mailbox\<close>

text \<open>
  A sequence of calls and of receives, with what each subscriber read last, and the demands that it publishes.
\<close>

datatype mb_event = PublishE int | SubscribeE int | UnsubscribeE subscription | ReceiveE nat

type_synonym mb_state = "subscriptions \<times> (nat \<Rightarrow> int option)"

fun mb_step :: "mb_event \<Rightarrow> mb_state \<Rightarrow> mb_state" where
  "mb_step (PublishE d) (s, seen) = (snd (Publish d s), seen)"
| "mb_step (SubscribeE c) (s, seen) = (snd (Subscribe c s), seen)"
| "mb_step (UnsubscribeE h) (s, seen) = (snd (unsubscribe h s), seen)"
| "mb_step (ReceiveE ch) (s, seen) =
     (case receive ch s of None \<Rightarrow> (s, seen) | Some (v, s') \<Rightarrow> (s', seen(ch := Some v)))"

fun mb_run :: "mb_event list \<Rightarrow> mb_state \<Rightarrow> mb_state" where
  "mb_run [] st = st"
| "mb_run (e # es) st = mb_run es (mb_step e st)"

definition mb_init :: mb_state where
  "mb_init = (NewSubscriptions, (\<lambda>_. None))"

fun published :: "mb_event list \<Rightarrow> int list" where
  "published [] = []"
| "published (PublishE d # es) = d # published es"
| "published (_ # es) = published es"

lemma mb_run_append [simp]: "mb_run (es @ fs) st = mb_run fs (mb_run es st)"
  by (induction es arbitrary: st) simp_all

lemma published_append [simp]: "published (es @ fs) = published es @ published fs"
  by (induction es rule: published.induct) simp_all

lemma mb_step_subs_ok: "subs_ok s \<Longrightarrow> subs_ok (fst (mb_step e (s, seen)))"
  by (cases e) (auto intro: invar_intros split: option.splits)

lemma mb_run_subs_ok: "subs_ok (fst st) \<Longrightarrow> subs_ok (fst (mb_run es st))"
proof (induction es arbitrary: st)
  case (Cons e es)
  then show ?case using mb_step_subs_ok [of "fst st" e "snd st"] by simp
qed simp

lemma mb_run_lastDemand: "subs_ok s \<Longrightarrow> lastDemand (fst (mb_run es (s, seen))) = last (lastDemand s # published es)"
proof (induction es arbitrary: s seen)
  case (Cons e es)
  obtain s' seen' where step: "mb_step e (s, seen) = (s', seen')" by fastforce
  have "subs_ok s'" using mb_step_subs_ok [OF Cons.prems, of e seen] step by simp
  moreover have "lastDemand s' = (case e of PublishE d \<Rightarrow> d | _ \<Rightarrow> lastDemand s)"
    using step Cons.prems mailbox.publish_cur
    by (cases e) (auto simp: mailbox.subscribe_cur mailbox.unsub_cur dest: mailbox.recv_frame split: option.splits)
  ultimately show ?case using Cons.IH [of s' seen'] step by (cases e) simp_all
qed simp

lemma mb_step_allocated:
  assumes "subs_ok s" and "ch < length (chans s)" and "mb_step e (s, seen) = (s', seen')"
  shows "ch < length (chans s')"
  using assms
  by (cases e) (auto simp: Publish_eq Subscribe_def unsubscribe_def Let_def dest!: receive_Some split: option.splits if_splits)

text \<open>One step, seen by the holder of an allocated channel: its newest value changes with a publish of another demand only.\<close>

lemma mb_step_newest:
  assumes "subs_ok s" and "ch < length (chans s)" and "mb_step e (s, seen) = (s', seen')" and "ch \<in> live s'"
  shows "ch \<in> live s
    \<and> newest (buffered s' ch) (seen' ch) = (case e of PublishE d \<Rightarrow> if d = lastDemand s then newest (buffered s ch) (seen ch) else Some d
        | _ \<Rightarrow> newest (buffered s ch) (seen ch))
    \<and> lastDemand s' = (case e of PublishE d \<Rightarrow> d | _ \<Rightarrow> lastDemand s)"
proof (cases e)
  case (PublishE d)
  with assms mailbox.publish_cur [OF assms(1)] show ?thesis
    by (auto simp: live_publish mailbox.publish_newest)
next
  case (SubscribeE c)
  have "ch \<in> live s" "ch \<noteq> sub_chan (fst (Subscribe c s))"
    using assms SubscribeE live_subscribe [of c s] by (auto simp: Subscribe_def Let_def)
  with assms SubscribeE mailbox.subscribe_newest [OF assms(1), of c ch] mailbox.subscribe_cur [OF assms(1), of c] show ?thesis by auto
next
  case (UnsubscribeE h)
  with assms mailbox.unsub_alive [of h s] show ?thesis
    by (auto simp: mailbox.unsub_cur mailbox.unsub_newest)
next
  case (ReceiveE k)
  show ?thesis
  proof (cases "receive k s")
    case (Some vs)
    obtain v s1 where r: "receive k s = Some (v, s1)" using Some by (cases vs) simp
    with assms(3) ReceiveE have s': "s' = s1" "seen' = seen(k := Some v)" by simp_all
    from mailbox.recv_newest [OF assms(1) r, of ch seen] mailbox.recv_frame [OF assms(1) r] assms(4) ReceiveE
    show ?thesis by (simp only: s') simp
  qed (use assms ReceiveE in simp)
qed

lemma mb_run_live:
  assumes "subs_ok s" and "ch < length (chans s)" and "ch \<in> live (fst (mb_run es (s, seen)))"
  shows "ch \<in> live s"
  using assms
proof (induction es arbitrary: s seen)
  case (Cons e es)
  obtain s' seen' where step: "mb_step e (s, seen) = (s', seen')" by fastforce
  have "subs_ok s'" using mb_step_subs_ok [OF Cons.prems(1), of e seen] step by simp
  moreover have "ch < length (chans s')" by (rule mb_step_allocated [OF Cons.prems(1,2) step])
  moreover have "ch \<in> live (fst (mb_run es (s', seen')))" using Cons.prems(3) step by simp
  ultimately have "ch \<in> live s'" by (rule Cons.IH)
  then show ?case using mb_step_newest [OF Cons.prems(1,2) step] by blast
qed simp

lemma mb_run_newest:
  assumes "subs_ok s" and "ch < length (chans s)" and "newest (buffered s ch) (seen ch) = Some v"
    and "ch \<in> live (fst (mb_run es (s, seen)))"
  shows "newest (buffered (fst (mb_run es (s, seen))) ch) (snd (mb_run es (s, seen)) ch) =
    Some (if list_all (\<lambda>d. d = lastDemand s) (published es) then v else last (published es))"
  using assms
proof (induction es arbitrary: s seen v)
  case (Cons e es)
  obtain s' seen' where step: "mb_step e (s, seen) = (s', seen')" by fastforce
  have ok: "subs_ok s'" using mb_step_subs_ok [OF Cons.prems(1), of e seen] step by simp
  have len: "ch < length (chans s')" by (rule mb_step_allocated [OF Cons.prems(1,2) step])
  have live: "ch \<in> live (fst (mb_run es (s', seen')))" using Cons.prems(4) step by simp
  have "ch \<in> live s'" by (rule mb_run_live [OF ok len live])
  note at = mb_step_newest [OF Cons.prems(1,2) step this] and IH = Cons.IH [OF ok len _ live]
  show ?case
  proof (cases e)
    case (PublishE d)
    show ?thesis
    proof (cases "d = lastDemand s")
      case True
      then show ?thesis using at IH [of v] PublishE Cons.prems(3) step by (auto simp: list_all_iff)
    next
      case False
      then show ?thesis using at IH [of d] PublishE step last_in_set [of "published es"] by (auto simp: list_all_iff)
    qed
  qed (use at IH [of v] Cons.prems(3) step in simp_all)
qed simp

subsection \<open>Properties\<close>

text \<open>
  Publishing a demand never blocks while it holds the mutex, whatever the readers of the
  channels do in between, and its outcome does not depend on them: it reports an activation
  exactly for a change from zero to a positive demand, records the demand, and leaves it as the
  only unread value of every subscribed channel.
\<close>

theorem Publish_never_blocks:
  assumes "subs_ok s"
  shows "Publish_racing race d s = Some (Publish d s)
    \<and> (fst (Publish d s) \<longleftrightarrow> Current s = 0 \<and> 0 < d)
    \<and> Current (snd (Publish d s)) = d
    \<and> (d \<noteq> Current s \<longrightarrow> (\<forall>ch \<in> live s. buffered (snd (Publish d s)) ch = [d]))"
  using assms buffered_publish [OF assms]
  by (simp add: Publish_racing_eq Publish_eq [symmetric] mailbox.publish_flag mailbox.publish_cur Current_def)

theorem Publish_never_blocks_witness:
  "Publish_racing (\<lambda>_. (True, False)) 3 (snd (Subscribe 0 NewSubscriptions)) =
     Some (Publish 3 (snd (Subscribe 0 NewSubscriptions)))"
proof -
  have "subs_ok (snd (Subscribe 0 NewSubscriptions))"
    by (rule subs_ok_subscribe [OF subs_ok_new])
  from Publish_never_blocks [OF this, of "\<lambda>_. (True, False)" 3] show ?thesis by blast
qed

text \<open>
  C23. Whatever sequence of publishes, subscribes, unsubscribes and receives surrounds it, a subscriber
  that is still subscribed ends, by reading on, at the demand published last, if any publish since
  it subscribed had another value than the one that was published when it subscribed: values are replaced,
  never lost. Otherwise it ends at the value it started with. So a subscriber that starts from the published value, as those
  of the aggregator do, always ends at the demand published last; one that starts from another
  value, as those of the gateway may, gets it with the next change.
\<close>

theorem mb_run_converges:
  assumes "mb_run pre mb_init = (s, seen)" and "Subscribe c s = (h, s1)"
    and "mb_run (pre @ SubscribeE c # post) mb_init = (s', seen')" and "sub_chan h \<in> live s'"
  shows "Current s' = last (0 # published pre @ published post)
    \<and> newest (buffered s' (sub_chan h)) (seen' (sub_chan h)) =
        Some (if list_all (\<lambda>d. d = Current s) (published post) then c else Current s')
    \<and> (c = Current s \<longrightarrow> newest (buffered s' (sub_chan h)) (seen' (sub_chan h)) = Some (Current s'))"
proof -
  have ok: "subs_ok s" using mb_run_subs_ok [of mb_init pre] assms(1) by (simp add: mb_init_def subs_ok_new)
  have ok1: "subs_ok s1" using subs_ok_subscribe [OF ok, of c] assms(2) by simp
  have post: "mb_run post (s1, seen) = (s', seen')" using assms(1-3) by simp
  have pre: "Current s = last (0 # published pre)"
    using mb_run_lastDemand [OF subs_ok_new, of pre "\<lambda>_. None"] assms(1) by (simp add: mb_init_def Current_def NewSubscriptions_def)
  have s1: "lastDemand s1 = Current s" "sub_chan h < length (chans s1)" "newest (buffered s1 (sub_chan h)) (seen (sub_chan h)) = Some c"
    using assms(2) by (auto simp: Subscribe_def Let_def Current_def buffered_def newest_def)
  have cur: "Current s' = last (Current s # published post)"
    using mb_run_lastDemand [OF ok1, of post seen] post s1(1) by (simp add: Current_def)
  have "newest (buffered s' (sub_chan h)) (seen' (sub_chan h)) =
      Some (if list_all (\<lambda>d. d = Current s) (published post) then c else last (published post))"
    using mb_run_newest [of s1 "sub_chan h" seen c post, OF ok1 s1(2,3)] post assms(4) s1(1) by simp
  moreover have "Current s' = last (published post)" if "\<not> list_all (\<lambda>d. d = Current s) (published post)"
    using that cur by (cases "published post") simp_all
  moreover have "Current s' = Current s" if "list_all (\<lambda>d. d = Current s) (published post)"
    using that cur last_in_set [of "published post"] by (auto simp: list_all_iff)
  ultimately show ?thesis using cur pre by (auto simp: last_append)
qed

text \<open>The subscriber of channel 1 starts from 0 when 1 is published, misses the publish of 1, and gets the change to 2.\<close>

theorem mb_run_converges_witness:
  "\<exists>s' seen'. mb_run [SubscribeE 0, PublishE 1, SubscribeE 0, PublishE 1, ReceiveE 1, PublishE 2] mb_init = (s', seen')
     \<and> newest (buffered s' 1) (seen' 1) = Some 2"
proof -
  let ?pre = "[SubscribeE 0, PublishE 1]" and ?post = "[PublishE 1, ReceiveE 1, PublishE 2]"
  obtain s seen where pre: "mb_run ?pre mb_init = (s, seen)" by fastforce
  obtain h s1 where sub: "Subscribe 0 s = (h, s1)" by fastforce
  obtain s' seen' where run: "mb_run (?pre @ SubscribeE 0 # ?post) mb_init = (s', seen')" by fastforce
  have at: "fst (mb_run ?pre mb_init) = \<lparr>subscribers = [(0, 0)], nextSubscriber = 1, lastDemand = 1, chans = [[1]]\<rparr>"
    "fst (mb_run (?pre @ SubscribeE 0 # ?post) mb_init) = \<lparr>subscribers = [(0, 0), (1, 1)], nextSubscriber = 2, lastDemand = 2, chans = [[2], [2]]\<rparr>"
    by code_simp+
  have s: "s = \<lparr>subscribers = [(0, 0)], nextSubscriber = 1, lastDemand = 1, chans = [[1]]\<rparr>" using at(1) unfolding pre by simp
  have s': "s' = \<lparr>subscribers = [(0, 0), (1, 1)], nextSubscriber = 2, lastDemand = 2, chans = [[2], [2]]\<rparr>"
    using at(2) unfolding run by simp
  have ev: "sub_chan h = 1" "sub_chan h \<in> live s'" "Current s = 1" "Current s' = 2"
    using sub by (auto simp: s s' Subscribe_def Let_def live_def Current_def)
  from mb_run_converges [OF pre sub run ev(2)] ev have "newest (buffered s' 1) (seen' 1) = Some 2" by simp
  with run show ?thesis by auto
qed

text \<open>
  A subscriber that starts from another value than the published one, as the gateway's may,
  misses the next publish of that value: \<open>Publish\<close> compares with the last published demand only,
  so the subscriber still ends at its own starting value.
\<close>

theorem Subscribe_other_value_misses_publish:
  assumes "subs_ok s" and "c \<noteq> Current s"
  shows "let (h, s1) = Subscribe c s; s2 = snd (Publish (Current s) s1)
    in newest (buffered s2 (sub_chan h)) None = Some c \<and> Current s2 \<noteq> c"
  using assms subs_ok_subscribe [OF assms(1), of c]
  by (simp add: Subscribe_def Let_def Publish_eq Current_def buffered_def newest_def)

theorem Subscribe_other_value_misses_publish_witness:
  "let (h, s1) = Subscribe 0 (snd (Publish 1 NewSubscriptions)); s2 = snd (Publish 1 s1)
    in newest (buffered s2 (sub_chan h)) None = Some 0 \<and> Current s2 \<noteq> 0"
proof -
  have ok: "subs_ok (snd (Publish 1 NewSubscriptions))" by (rule subs_ok_publish [OF subs_ok_new])
  have cur: "Current (snd (Publish 1 NewSubscriptions)) = 1"
    by (simp add: Current_def mailbox.publish_cur [OF subs_ok_new])
  from Subscribe_other_value_misses_publish [OF ok, of 0] cur show ?thesis by simp
qed

end
