(* ===== verification/Demand_Auth.thy ===== *)
theory Demand_Auth
  imports Go_Strings
begin

section \<open>Authentication of demand reports\<close>

text \<open>
  \<open>internal/gateway/demand/auth.go\<close>: the shared token of the gateways and the aggregator. The
  file system is a parameter \<open>readFile\<close>: the contents of a path, or \<open>None\<close> where
  \<open>os.ReadFile\<close> fails. \<open>crypto/subtle.ConstantTimeCompare\<close> is the loop over the bytes that
  accumulates the differing bits, shown equal to string equality.
\<close>

unbundle bit_operations_syntax

definition EnvAuthTokenFile :: string where
  "EnvAuthTokenFile = ''NOCTAYA_DEMAND_AUTH_TOKEN_FILE''"

definition authScheme :: string where
  "authScheme = ''Bearer ''"

datatype auth_error = TokenFileRequired | ReadTokenFailed string | TokenTooShort

type_synonym file_system = "string \<Rightarrow> string option"

definition ValidateAuthToken :: "string \<Rightarrow> auth_error option" where
  "ValidateAuthToken token =
     (let token = TrimSpace token in if length token < 32 then Some TokenTooShort else None)"

definition ReadAuthToken :: "file_system \<Rightarrow> string \<Rightarrow> auth_error + string" where
  "ReadAuthToken readFile path =
     (if path = [] then Inl TokenFileRequired
      else case readFile path of
        None \<Rightarrow> Inl (ReadTokenFailed path)
      | Some value \<Rightarrow>
          let token = TrimSpace value in
          (case ValidateAuthToken token of Some e \<Rightarrow> Inl e | None \<Rightarrow> Inr token))"

definition AuthorizationValue :: "string \<Rightarrow> string" where
  "AuthorizationValue token = authScheme @ token"

definition byte_word :: "char \<Rightarrow> 8 word" where
  "byte_word c = word_of_nat (of_char c)"

definition ConstantTimeCompare :: "string \<Rightarrow> string \<Rightarrow> nat" where
  "ConstantTimeCompare x y =
     (if length x \<noteq> length y then 0
      else let v = foldl (\<lambda>v (a, b). v OR (byte_word a XOR byte_word b)) 0 (zip x y)
        in if v = 0 then 1 else 0)"

definition Authorized :: "string \<Rightarrow> string \<Rightarrow> bool" where
  "Authorized value token =
     (let expected = AuthorizationValue token
      in length value = length expected \<and> ConstantTimeCompare value expected = 1)"

subsection \<open>The comparison\<close>

lemma byte_word_inject [simp]: "byte_word a = byte_word b \<longleftrightarrow> a = b"
proof
  assume "byte_word a = byte_word b"
  then have "unat (byte_word a) = unat (byte_word b)" by simp
  then have "(of_char a :: nat) = of_char b"
    by (simp add: byte_word_def unat_of_nat)
  then show "a = b" by simp
qed simp

lemma or_eq_zero: "(a OR b = (0 :: 8 word)) \<longleftrightarrow> a = 0 \<and> b = 0"
  by (auto simp: bit_eq_iff bit_or_iff)

lemma xor_eq_zero: "(a XOR b = (0 :: 8 word)) \<longleftrightarrow> a = b"
  by (metis word_bw_assocs(3) xor.left_neutral xor.right_neutral xor_self_eq)

lemma compare_loop:
  "length x = length y \<Longrightarrow>
     (foldl (\<lambda>v (a, b). v OR (byte_word a XOR byte_word b)) w (zip x y) = 0) \<longleftrightarrow> w = 0 \<and> x = y"
  by (induction x y arbitrary: w rule: list_induct2) (auto simp: or_eq_zero xor_eq_zero)

lemma ConstantTimeCompare_eq: "ConstantTimeCompare x y = 1 \<longleftrightarrow> x = y"
  by (auto simp: ConstantTimeCompare_def compare_loop Let_def)

lemma Authorized_iff: "Authorized value token \<longleftrightarrow> value = AuthorizationValue token"
  using ConstantTimeCompare_eq [of "value" "AuthorizationValue token"] by (auto simp: Authorized_def Let_def)

lemma ReadAuthToken_Inr:
  assumes "ReadAuthToken readFile path = Inr token"
  shows "path \<noteq> [] \<and> (\<exists>value. readFile path = Some value \<and> token = TrimSpace value)
    \<and> 32 \<le> length token"
  using assms length_TrimSpace [of token]
  by (auto simp: ReadAuthToken_def ValidateAuthToken_def Let_def split: if_splits option.splits)

end
