(* ===== verification/Http.thy ===== *)
theory Http
  imports Go_Strings
begin

section \<open>HTTP requests and responses\<close>

text \<open>
  The requests the two HTTP handlers read and the response a \<open>http.ResponseWriter\<close> records. A
  header map has one value per canonical key, the one \<open>Header.Get\<close> returns. A response is
  committed by the first \<open>WriteHeader\<close> (or by the first write, which implies status 200); later
  calls of \<open>WriteHeader\<close> and later changes of the header map have no effect, as in \<open>net/http\<close>.
\<close>

record http_request =
  req_Method :: string
  req_Path :: string
  req_Header :: "(string, string) gomap"
  req_Body :: "string option"

record http_response =
  resp_committed :: bool
  resp_status :: nat
  resp_header :: "(string, string) gomap"
  resp_body :: string

definition new_response :: http_response where
  "new_response = \<lparr>resp_committed = False, resp_status = 200, resp_header = [], resp_body = []\<rparr>"

definition Header_Get :: "(string, string) gomap \<Rightarrow> string \<Rightarrow> string" where
  "Header_Get h k = lookup0 [] h k"

definition Header_Set :: "string \<Rightarrow> string \<Rightarrow> http_response \<Rightarrow> http_response" where
  "Header_Set k v w =
     (if resp_committed w then w else w\<lparr>resp_header := AList.update k v (resp_header w)\<rparr>)"

definition WriteHeader :: "nat \<Rightarrow> http_response \<Rightarrow> http_response" where
  "WriteHeader code w = (if resp_committed w then w else w\<lparr>resp_committed := True, resp_status := code\<rparr>)"

definition WriteString :: "string \<Rightarrow> http_response \<Rightarrow> http_response" where
  "WriteString s w = (let w' = WriteHeader 200 w in w'\<lparr>resp_body := resp_body w' @ s\<rparr>)"

text \<open>\<open>http.Error\<close>: the two headers it sets, the status, and the text with a newline.\<close>

definition http_Error :: "string \<Rightarrow> nat \<Rightarrow> http_response \<Rightarrow> http_response" where
  "http_Error msg code w =
     WriteString (msg @ [byte 10])
       (WriteHeader code
         (Header_Set ''X-Content-Type-Options'' ''nosniff''
           (Header_Set ''Content-Type'' ''text/plain; charset=utf-8'' w)))"

definition StatusOK :: nat where "StatusOK = 200"
definition StatusNoContent :: nat where "StatusNoContent = 204"
definition StatusBadRequest :: nat where "StatusBadRequest = 400"
definition StatusUnauthorized :: nat where "StatusUnauthorized = 401"
definition StatusMethodNotAllowed :: nat where "StatusMethodNotAllowed = 405"
definition StatusTooManyRequests :: nat where "StatusTooManyRequests = 429"
definition StatusServiceUnavailable :: nat where "StatusServiceUnavailable = 503"

lemmas status_defs = StatusOK_def StatusNoContent_def StatusBadRequest_def StatusUnauthorized_def
  StatusMethodNotAllowed_def StatusTooManyRequests_def StatusServiceUnavailable_def

lemma Header_Set_simps [simp]:
  "resp_committed (Header_Set k v w) = resp_committed w"
  "resp_status (Header_Set k v w) = resp_status w"
  "resp_body (Header_Set k v w) = resp_body w"
  "map_of (resp_header (Header_Set k v w)) =
     (if resp_committed w then map_of (resp_header w) else (map_of (resp_header w))(k \<mapsto> v))"
  by (simp_all add: Header_Set_def map_of_alist_update)

lemma WriteHeader_simps [simp]:
  "resp_committed (WriteHeader code w)"
  "resp_status (WriteHeader code w) = (if resp_committed w then resp_status w else code)"
  "resp_header (WriteHeader code w) = resp_header w"
  "resp_body (WriteHeader code w) = resp_body w"
  by (simp_all add: WriteHeader_def)

lemma WriteString_simps [simp]:
  "resp_committed (WriteString s w)"
  "resp_status (WriteString s w) = (if resp_committed w then resp_status w else 200)"
  "resp_header (WriteString s w) = resp_header w"
  "resp_body (WriteString s w) = resp_body w @ s"
  by (simp_all add: WriteString_def Let_def)

lemma http_Error_simps [simp]:
  "resp_committed (http_Error msg code w)"
  "resp_status (http_Error msg code w) = (if resp_committed w then resp_status w else code)"
  "resp_body (http_Error msg code w) = resp_body w @ msg @ [byte 10]"
  by (simp_all add: http_Error_def)

subsection \<open>Prometheus counters\<close>

text \<open>A labelled counter is the map from label values to counts; \<open>inc\<close> adds one to a label.\<close>

type_synonym counter_vec = "(string, nat) gomap"

definition inc :: "string \<Rightarrow> counter_vec \<Rightarrow> counter_vec" where
  "inc l m = AList.update l (Suc (lookup0 0 m l)) m"

lemma lookup0_inc: "lookup0 0 (inc l m) k = lookup0 0 m k + (if k = l then 1 else 0)"
  by (simp add: inc_def lookup0_def map_of_alist_update)

end
