(* ===== verification/Aggregator.thy ===== *)
theory Aggregator
  imports Subscriptions Demand_Auth Http
begin

section \<open>The demand aggregator\<close>

text \<open>
  \<open>internal/gateway/scaler/aggregator.go\<close>: the service that sums the newest demand report of
  every gateway replica and publishes the sum to KEDA. The map \<open>members\<close> is an association list
  in the order of one \<open>range\<close> loop; the clock is the argument \<open>now\<close>; the file system and the
  JSON decoder of a report body are parameters. A gauge holds the integer the Go code converts
  to \<open>float64\<close>, after that conversion.
\<close>

subsection \<open>State\<close>

definition DemandReportPath :: string where "DemandReportPath = ''/v1/demand''"
definition defaultMemberTTL :: duration where "defaultMemberTTL = 10 * Second"
definition defaultSweepInterval :: duration where "defaultSweepInterval = Second"
definition defaultMaxMembers :: int where "defaultMaxMembers = 1024"
definition defaultMaxDemand :: int where "defaultMaxDemand = 100"
definition defaultMaxConcurrent :: int where "defaultMaxConcurrent = 64"
definition maxDemandReportBody :: nat where "maxDemandReportBody = 65536"
definition maxMemberIDLength :: nat where "maxMemberIDLength = 512"
definition demandReportAccepted :: string where "demandReportAccepted = ''accepted''"
definition demandReportStale :: string where "demandReportStale = ''stale''"
definition demandReportCapacity :: string where "demandReportCapacity = ''capacity''"

lemmas report_result_defs = demandReportAccepted_def demandReportStale_def demandReportCapacity_def

record DemandAggregatorConfig =
  cfg_MemberTTL :: duration
  cfg_SweepInterval :: duration
  cfg_AuthTokenFile :: string
  cfg_MaxMembers :: int
  cfg_MaxDemand :: int
  cfg_MaxConcurrentReports :: int

record demandReport =
  rep_MemberID :: string
  rep_Sequence :: uint64
  rep_Demand :: int

record demandMember =
  mem_sequence :: uint64
  mem_demand :: int
  mem_expiresAt :: time

record aggregatorMetrics =
  am_demand :: int
  am_members :: int
  am_reports :: counter_vec
  am_expired :: int
  am_scalerStreams :: int

record demandAggregator =
  memberTTL :: duration
  sweepInterval :: duration
  agg_metrics :: aggregatorMetrics
  agg_authTokenFile :: string
  maxMembers :: int
  maxDemand :: int
  reportSlotsCap :: int
  reportSlotsUsed :: int
  members :: "(string, demandMember) gomap"
  total :: int
  agg_demands :: subscriptions

definition newAggregatorMetrics :: aggregatorMetrics where
  "newAggregatorMetrics =
     \<lparr>am_demand = 0, am_members = 0, am_reports = [], am_expired = 0, am_scalerStreams = 0\<rparr>"

definition NewDemandAggregator :: "DemandAggregatorConfig \<Rightarrow> demandAggregator" where
  "NewDemandAggregator cfg =
     \<lparr>memberTTL = (if cfg_MemberTTL cfg \<le> 0 then defaultMemberTTL else cfg_MemberTTL cfg),
      sweepInterval = (if cfg_SweepInterval cfg \<le> 0 then defaultSweepInterval else cfg_SweepInterval cfg),
      agg_metrics = newAggregatorMetrics,
      agg_authTokenFile = cfg_AuthTokenFile cfg,
      maxMembers = (if cfg_MaxMembers cfg \<le> 0 then defaultMaxMembers else cfg_MaxMembers cfg),
      maxDemand = (if cfg_MaxDemand cfg \<le> 0 then defaultMaxDemand else cfg_MaxDemand cfg),
      reportSlotsCap = (if cfg_MaxConcurrentReports cfg \<le> 0 then defaultMaxConcurrent
                        else cfg_MaxConcurrentReports cfg),
      reportSlotsUsed = 0,
      members = [],
      total = 0,
      agg_demands = NewSubscriptions\<rparr>"

subsection \<open>Operations under the mutex\<close>

fun recalculate_loop :: "int \<Rightarrow> (string, demandMember) gomap \<Rightarrow> int" where
  "recalculate_loop t [] = t"
| "recalculate_loop t ((i, member) # ms) =
     (if mem_demand member > wrap64 (MaxInt64 - t) then MaxInt64
      else recalculate_loop (wrap64 (t + mem_demand member)) ms)"

definition recalculateLocked :: "demandAggregator \<Rightarrow> demandAggregator" where
  "recalculateLocked a = a\<lparr>total := recalculate_loop 0 (members a)\<rparr>"

definition publishLocked :: "demandAggregator \<Rightarrow> demandAggregator" where
  "publishLocked a =
     a\<lparr>agg_metrics := (agg_metrics a)\<lparr>am_demand := float64_of_int (total a),
                                    am_members := float64_of_int (int (length (members a)))\<rparr>,
       agg_demands := snd (Publish (total a) (agg_demands a))\<rparr>"

text \<open>The loop of \<open>expireLocked\<close> runs over the entries and deletes from the map as it goes.\<close>

fun expire_loop ::
  "time \<Rightarrow> (string, demandMember) gomap \<Rightarrow> (string, demandMember) gomap \<times> int \<Rightarrow>
     (string, demandMember) gomap \<times> int" where
  "expire_loop now [] st = st"
| "expire_loop now ((i, member) # ms) (m, expired) =
     expire_loop now ms
       (if \<not> Before now (mem_expiresAt member) then (AList.delete i m, expired + 1) else (m, expired))"

definition expireLocked :: "time \<Rightarrow> demandAggregator \<Rightarrow> int \<times> demandAggregator" where
  "expireLocked now a =
     (let (m, expired) = expire_loop now (members a) (members a, 0);
          a' = a\<lparr>members := m\<rparr>
      in if expired > 0
         then (expired,
               recalculateLocked
                 (a'\<lparr>agg_metrics := (agg_metrics a')\<lparr>am_expired :=
                      am_expired (agg_metrics a') + float64_of_int expired\<rparr>\<rparr>))
         else (expired, a'))"

definition expire :: "time \<Rightarrow> demandAggregator \<Rightarrow> demandAggregator" where
  "expire now a = (let (n, a') = expireLocked now a in if n > 0 then publishLocked a' else a')"

definition update :: "demandReport \<Rightarrow> time \<Rightarrow> demandAggregator \<Rightarrow> string \<times> demandAggregator" where
  "update report now a =
     (let a = snd (expireLocked now a);
          store = (\<lambda>a. publishLocked (recalculateLocked
            (a\<lparr>members := AList.update (rep_MemberID report)
                 \<lparr>mem_sequence = rep_Sequence report, mem_demand = rep_Demand report,
                  mem_expiresAt = Add now (memberTTL a)\<rparr> (members a)\<rparr>)))
      in case map_of (members a) (rep_MemberID report) of
           Some existing \<Rightarrow>
             if rep_Sequence report \<le> mem_sequence existing
             then (demandReportStale, publishLocked a)
             else (demandReportAccepted, store a)
         | None \<Rightarrow>
             if int (length (members a)) \<ge> maxMembers a
             then (demandReportCapacity, publishLocked a)
             else (demandReportAccepted, store a))"

subsection \<open>The demand source the external scaler reads\<close>

definition Demand :: "time \<Rightarrow> demandAggregator \<Rightarrow> int \<times> demandAggregator" where
  "Demand now a = (let a = expire now a in (total a, a))"

definition SubscribeDemand :: "time \<Rightarrow> demandAggregator \<Rightarrow> subscription \<times> demandAggregator" where
  "SubscribeDemand now a =
     (let a = expire now a; (h, s) = Subscribe (total a) (agg_demands a)
      in (h, a\<lparr>agg_demands := s\<rparr>))"

definition ScalerStreamConnected :: "demandAggregator \<Rightarrow> demandAggregator" where
  "ScalerStreamConnected a =
     a\<lparr>agg_metrics := (agg_metrics a)\<lparr>am_scalerStreams := am_scalerStreams (agg_metrics a) + 1\<rparr>\<rparr>"

definition ScalerStreamDisconnected :: "demandAggregator \<Rightarrow> demandAggregator" where
  "ScalerStreamDisconnected a =
     a\<lparr>agg_metrics := (agg_metrics a)\<lparr>am_scalerStreams := am_scalerStreams (agg_metrics a) - 1\<rparr>\<rparr>"

subsection \<open>The report handler\<close>

text \<open>
  The handler in three parts: the method check and the acquisition of a slot of \<open>reportSlots\<close>,
  the body that runs while the slot is held, and the deferred release. \<open>decode\<close> is the pair of
  calls of the JSON decoder: the report when the body is one JSON object with known fields and
  nothing after it.
\<close>

definition acquireReportSlot :: "http_request \<Rightarrow> demandAggregator \<Rightarrow> http_response + demandAggregator" where
  "acquireReportSlot r a =
     (if req_Method r \<noteq> ''POST''
      then Inl (http_Error ''method not allowed'' StatusMethodNotAllowed
                  (Header_Set ''Allow'' ''POST'' new_response))
      else if reportSlotsUsed a < reportSlotsCap a
      then Inr (a\<lparr>reportSlotsUsed := reportSlotsUsed a + 1\<rparr>)
      else Inl (http_Error ''too many demand reports'' StatusTooManyRequests new_response))"

definition valid_report :: "int \<Rightarrow> demandReport \<Rightarrow> bool" where
  "valid_report maxD report \<longleftrightarrow>
     \<not> (rep_MemberID report = [] \<or> length (rep_MemberID report) > maxMemberIDLength \<or>
        rep_Sequence report = 0 \<or> rep_Demand report < 0 \<or> rep_Demand report > maxD)"

definition reportBody ::
  "file_system \<Rightarrow> (string \<Rightarrow> demandReport option) \<Rightarrow> time \<Rightarrow> http_request \<Rightarrow> demandAggregator \<Rightarrow>
     http_response \<times> demandAggregator" where
  "reportBody readFile decode now r a =
     (case ReadAuthToken readFile (agg_authTokenFile a) of
        Inl _ \<Rightarrow> (http_Error ''demand authentication unavailable'' StatusServiceUnavailable new_response, a)
      | Inr token \<Rightarrow>
          if \<not> Authorized (Header_Get (req_Header r) ''Authorization'') token
          then (http_Error ''unauthorized'' StatusUnauthorized new_response, a)
          else let body = (case req_Body r of Some b \<Rightarrow> b | None \<Rightarrow> []) in
            (case (if length body > maxDemandReportBody then None else decode body) of
               None \<Rightarrow> (http_Error ''invalid demand report'' StatusBadRequest new_response, a)
             | Some report \<Rightarrow>
                 if \<not> valid_report (maxDemand a) report
                 then (http_Error ''invalid demand report'' StatusBadRequest new_response, a)
                 else let (res, a) = update report now a;
                          a = a\<lparr>agg_metrics := (agg_metrics a)\<lparr>am_reports := inc res (am_reports (agg_metrics a))\<rparr>\<rparr>
                   in if res = demandReportCapacity
                      then (http_Error ''gateway member capacity reached'' StatusTooManyRequests new_response, a)
                      else (WriteHeader StatusNoContent new_response, a)))"

definition releaseReportSlot :: "demandAggregator \<Rightarrow> demandAggregator" where
  "releaseReportSlot a = a\<lparr>reportSlotsUsed := reportSlotsUsed a - 1\<rparr>"

definition handleDemandReport ::
  "file_system \<Rightarrow> (string \<Rightarrow> demandReport option) \<Rightarrow> time \<Rightarrow> http_request \<Rightarrow> demandAggregator \<Rightarrow>
     http_response \<times> demandAggregator" where
  "handleDemandReport readFile decode now r a =
     (case acquireReportSlot r a of
        Inl resp \<Rightarrow> (resp, a)
      | Inr a1 \<Rightarrow> let (resp, a2) = reportBody readFile decode now r a1 in (resp, releaseReportSlot a2))"

text \<open>
  The routes of \<open>Handler\<close>. \<open>serveMetrics\<close> is the Prometheus handler of the registry and
  \<open>notFound\<close> the answer of the mux for a request that no pattern matches.
\<close>

definition Handler ::
  "file_system \<Rightarrow> (string \<Rightarrow> demandReport option) \<Rightarrow> (aggregatorMetrics \<Rightarrow> http_response) \<Rightarrow> http_response \<Rightarrow>
     time \<Rightarrow> http_request \<Rightarrow> demandAggregator \<Rightarrow> http_response \<times> demandAggregator" where
  "Handler readFile decode serveMetrics notFound now r a =
     (if req_Path r = ''/healthz'' then (WriteHeader StatusOK new_response, a)
      else if req_Path r = ''/readyz'' then
        (case ReadAuthToken readFile (agg_authTokenFile a) of
           Inl _ \<Rightarrow> (http_Error ''demand authentication unavailable'' StatusServiceUnavailable new_response, a)
         | Inr _ \<Rightarrow> (WriteHeader StatusOK new_response, a))
      else if req_Path r = ''/metrics'' then (serveMetrics (agg_metrics a), a)
      else if req_Path r = DemandReportPath then handleDemandReport readFile decode now r a
      else (notFound, a))"

text \<open>The loop of \<open>Run\<close> over what its \<open>select\<close> takes: a tick, with the clock reading, or the end of the context.\<close>

datatype sweep_event = Tick time | ContextDone

fun Run :: "sweep_event list \<Rightarrow> demandAggregator \<Rightarrow> demandAggregator" where
  "Run [] a = a"
| "Run (ContextDone # es) a = a"
| "Run (Tick now # es) a = Run es (expire now a)"

subsection \<open>The saturating sum\<close>

text \<open>The value the aggregator keeps: the sum of the members' demands, at most \<open>MaxInt64\<close>.\<close>

definition saturated_sum :: "(string, demandMember) gomap \<Rightarrow> int" where
  "saturated_sum ms = min MaxInt64 (\<Sum>(i, m) \<leftarrow> ms. mem_demand m)"

definition unexpired :: "time \<Rightarrow> (string, demandMember) gomap \<Rightarrow> (string, demandMember) gomap" where
  "unexpired now ms = filter (\<lambda>(i, m). Before now (mem_expiresAt m)) ms"

definition demands_within :: "int \<Rightarrow> (string, demandMember) gomap \<Rightarrow> bool" where
  "demands_within hi ms \<longleftrightarrow> list_all (\<lambda>(i, m). 0 \<le> mem_demand m \<and> mem_demand m \<le> hi) ms"

lemma sum_demands_nonneg: "demands_within hi ms \<Longrightarrow> 0 \<le> (\<Sum>(i, m) \<leftarrow> ms. mem_demand m)"
  by (induction ms) (auto simp: demands_within_def)

lemma recalculate_loop_eq:
  assumes "demands_within MaxInt64 ms" and "0 \<le> t" and "t \<le> MaxInt64"
  shows "recalculate_loop t ms = min MaxInt64 (t + (\<Sum>(i, m) \<leftarrow> ms. mem_demand m))"
  using assms
proof (induction ms arbitrary: t)
  case (Cons p ms)
  obtain i m where p: "p = (i, m)" by fastforce
  have m: "0 \<le> mem_demand m" "mem_demand m \<le> MaxInt64" and ms: "demands_within MaxInt64 ms"
    using Cons.prems p by (auto simp: demands_within_def)
  have "in_int64 (MaxInt64 - t)" using Cons.prems by (simp add: in_int64_def MaxInt64_def)
  then have room: "wrap64 (MaxInt64 - t) = MaxInt64 - t" by (rule wrap64_id)
  note nonneg = sum_demands_nonneg [OF ms]
  show ?case
  proof (cases "mem_demand m > MaxInt64 - t")
    case True
    then show ?thesis using p room nonneg by simp
  next
    case False
    then have "in_int64 (t + mem_demand m)" using Cons.prems m by (simp add: in_int64_def MaxInt64_def)
    then show ?thesis
      using False Cons.IH [OF ms, of "t + mem_demand m"] p room Cons.prems m
      by (simp add: wrap64_id algebra_simps)
  qed
qed simp

lemma demands_within_mono: "demands_within hi ms \<Longrightarrow> hi \<le> hi' \<Longrightarrow> demands_within hi' ms"
  by (auto simp: demands_within_def list_all_iff)

lemma demands_within_filter: "demands_within hi ms \<Longrightarrow> demands_within hi (filter P ms)"
  by (auto simp: demands_within_def list_all_iff)

lemma demands_within_update:
  "demands_within hi ms \<Longrightarrow> 0 \<le> mem_demand m \<Longrightarrow> mem_demand m \<le> hi \<Longrightarrow>
     demands_within hi (AList.update i m ms)"
  using set_alist_update_subset [of i m ms] by (auto simp: demands_within_def list_all_iff)

lemma saturated_sum_nonneg: "demands_within hi ms \<Longrightarrow> 0 \<le> saturated_sum ms"
  using sum_demands_nonneg [of hi ms] by (simp add: saturated_sum_def MaxInt64_def)

lemma saturated_sum_zero_iff:
  "demands_within hi ms \<Longrightarrow> saturated_sum ms = 0 \<longleftrightarrow> (\<forall>(i, m) \<in> set ms. mem_demand m = 0)"
proof -
  assume w: "demands_within hi ms"
  have "(\<Sum>(i, m) \<leftarrow> ms. mem_demand m) = 0 \<longleftrightarrow> (\<forall>(i, m) \<in> set ms. mem_demand m = 0)"
    using w by (induction ms) (fastforce simp: demands_within_def dest: sum_demands_nonneg [unfolded demands_within_def])+
  then show ?thesis using sum_demands_nonneg [OF w] by (auto simp: saturated_sum_def MaxInt64_def)
qed

subsection \<open>Expiry\<close>

lemma expire_loop_eq:
  "expire_loop now ms (m, n) =
     (filter (\<lambda>(k, x). k \<notin> fst ` set (filter (\<lambda>(i, y). \<not> Before now (mem_expiresAt y)) ms)) m,
      n + int (length (filter (\<lambda>(i, y). \<not> Before now (mem_expiresAt y)) ms)))"
proof (induction ms arbitrary: m n)
  case (Cons p ms)
  obtain i y where p: "p = (i, y)" by fastforce
  show ?case using Cons.IH p
    by (auto simp: AList.delete_eq intro!: filter_cong)
qed simp

lemma filter_expired_keys:
  assumes "distinct (map fst ms)"
  shows "filter (\<lambda>(k, x). k \<notin> fst ` set (filter (\<lambda>(i, y). \<not> Before now (mem_expiresAt y)) ms)) ms
       = unexpired now ms"
  unfolding unexpired_def
  using assms by (intro filter_cong) (auto simp: image_iff dest: eq_key_imp_eq_value)

definition members_ok :: "demandAggregator \<Rightarrow> bool" where
  "members_ok a \<longleftrightarrow>
     distinct (map fst (members a)) \<and> int (length (members a)) \<le> maxMembers a \<and>
     demands_within (maxDemand a) (members a) \<and> 0 < maxDemand a \<and> maxDemand a \<le> MaxInt64 \<and>
     0 < maxMembers a \<and> total a = saturated_sum (members a) \<and> subs_ok (agg_demands a)"

text \<open>Between two operations the published demand and the gauges agree with the members.\<close>

definition published_ok :: "demandAggregator \<Rightarrow> bool" where
  "published_ok a \<longleftrightarrow>
     Current (agg_demands a) = total a \<and> am_demand (agg_metrics a) = float64_of_int (total a) \<and>
     am_members (agg_metrics a) = float64_of_int (int (length (members a)))"

definition agg_ok :: "demandAggregator \<Rightarrow> bool" where
  "agg_ok a \<longleftrightarrow> members_ok a \<and> published_ok a"

lemma recalculateLocked_total:
  "demands_within (maxDemand a) (members a) \<Longrightarrow> maxDemand a \<le> MaxInt64 \<Longrightarrow>
     total (recalculateLocked a) = saturated_sum (members a)"
  using recalculate_loop_eq [of "members a" 0] demands_within_mono
  by (simp add: recalculateLocked_def saturated_sum_def MaxInt64_def)

lemma recalculateLocked_frame [frame_simps]:
  "members (recalculateLocked a) = members a" "maxMembers (recalculateLocked a) = maxMembers a"
  "maxDemand (recalculateLocked a) = maxDemand a" "agg_demands (recalculateLocked a) = agg_demands a"
  "memberTTL (recalculateLocked a) = memberTTL a" "agg_metrics (recalculateLocked a) = agg_metrics a"
  "reportSlotsUsed (recalculateLocked a) = reportSlotsUsed a" "reportSlotsCap (recalculateLocked a) = reportSlotsCap a"
  "agg_authTokenFile (recalculateLocked a) = agg_authTokenFile a"
  by (simp_all add: recalculateLocked_def)

lemma publishLocked_frame [frame_simps]:
  "members (publishLocked a) = members a" "maxMembers (publishLocked a) = maxMembers a"
  "maxDemand (publishLocked a) = maxDemand a" "total (publishLocked a) = total a"
  "memberTTL (publishLocked a) = memberTTL a"
  "reportSlotsUsed (publishLocked a) = reportSlotsUsed a" "reportSlotsCap (publishLocked a) = reportSlotsCap a"
  "agg_authTokenFile (publishLocked a) = agg_authTokenFile a"
  by (simp_all add: publishLocked_def)

lemma expireLocked_frame [frame_simps]:
  "maxMembers (snd (expireLocked now a)) = maxMembers a" "maxDemand (snd (expireLocked now a)) = maxDemand a"
  "memberTTL (snd (expireLocked now a)) = memberTTL a" "agg_demands (snd (expireLocked now a)) = agg_demands a"
  "reportSlotsUsed (snd (expireLocked now a)) = reportSlotsUsed a"
  "reportSlotsCap (snd (expireLocked now a)) = reportSlotsCap a"
  "agg_authTokenFile (snd (expireLocked now a)) = agg_authTokenFile a"
  by (simp_all add: expireLocked_def Let_def frame_simps split: prod.splits)

lemma publishLocked_ok [invar_intros]: "members_ok a \<Longrightarrow> agg_ok (publishLocked a)"
  by (auto simp: agg_ok_def members_ok_def published_ok_def frame_simps)
     (simp_all add: publishLocked_def subs_ok_publish Current_def mailbox.publish_cur)

lemma expireLocked_members:
  assumes "members_ok a"
  shows "members (snd (expireLocked now a)) = unexpired now (members a)"
    and "fst (expireLocked now a) = int (length (members a)) - int (length (unexpired now (members a)))"
proof -
  have d: "distinct (map fst (members a))" using assms by (simp add: members_ok_def)
  show "members (snd (expireLocked now a)) = unexpired now (members a)"
    using filter_expired_keys [OF d, of now]
    by (simp add: expireLocked_def expire_loop_eq Let_def frame_simps del: set_filter)
  have "length (unexpired now (members a)) +
      length (filter (\<lambda>(i, y). \<not> Before now (mem_expiresAt y)) (members a)) = length (members a)"
    using sum_length_filter_compl [of "\<lambda>(i, m). Before now (mem_expiresAt m)" "members a"]
    by (simp add: unexpired_def case_prod_unfold)
  then show "fst (expireLocked now a) = int (length (members a)) - int (length (unexpired now (members a)))"
    by (auto simp: expireLocked_def expire_loop_eq Let_def)
qed

lemma unexpired_same: "length (unexpired now ms) = length ms \<Longrightarrow> unexpired now ms = ms"
  by (metis filter_id_conv length_filter_less less_irrefl unexpired_def)

lemma expireLocked_ok [invar_intros]:
  assumes "members_ok a"
  shows "members_ok (snd (expireLocked now a))"
proof -
  let ?a = "snd (expireLocked now a)"
  note mem = expireLocked_members [OF assms, of now]
  have w: "demands_within (maxDemand a) (members ?a)"
    using assms by (simp add: mem unexpired_def members_ok_def demands_within_filter)
  have le: "length (members ?a) \<le> length (members a)" by (simp add: mem unexpired_def)
  have "total ?a = saturated_sum (members ?a)"
  proof (cases "fst (expireLocked now a) > 0")
    case True
    then obtain b where b: "?a = recalculateLocked b" and "maxDemand b = maxDemand a"
      by (auto simp: expireLocked_def Let_def split: prod.splits if_splits)
    with w assms show ?thesis
      using recalculateLocked_total [of b] by (simp add: frame_simps members_ok_def)
  next
    case False
    with mem le have "length (unexpired now (members a)) = length (members a)" by simp
    then have "members ?a = members a" using mem unexpired_same by simp
    moreover have "total ?a = total a"
      using False by (auto simp: expireLocked_def Let_def split: prod.splits if_splits)
    ultimately show ?thesis using assms by (simp add: members_ok_def)
  qed
  moreover have "distinct (map fst (members ?a))"
    using assms by (simp add: mem unexpired_def members_ok_def distinct_map_filter)
  ultimately show ?thesis using w le assms by (simp add: members_ok_def frame_simps)
qed


lemma expire_ok:
  assumes "agg_ok a"
  shows "agg_ok (expire now a)" and "members (expire now a) = unexpired now (members a)"
    and "total (expire now a) = saturated_sum (unexpired now (members a))"
proof -
  have m: "members_ok a" using assms by (simp add: agg_ok_def)
  obtain n a' where e: "expireLocked now a = (n, a')" by fastforce
  have a': "members_ok a'" "members a' = unexpired now (members a)"
    using expireLocked_ok [OF m, of now] expireLocked_members(1) [OF m, of now] e by simp_all
  have pub: "agg_ok a'" if "\<not> n > 0"
  proof -
    have "n = int (length (members a)) - int (length (unexpired now (members a)))"
      using expireLocked_members(2) [OF m, of now] e by simp
    then have "length (unexpired now (members a)) = length (members a)"
      using that by (simp add: unexpired_def order_antisym)
    then have "members a' = members a" using a' unexpired_same by simp
    then have "a' = a" using that e by (auto simp: expireLocked_def Let_def split: prod.splits if_splits)
    with assms show ?thesis by simp
  qed
  show ok: "agg_ok (expire now a)"
    using e a' pub by (simp add: expire_def publishLocked_ok)
  show mem: "members (expire now a) = unexpired now (members a)"
    using e a' by (simp add: expire_def frame_simps)
  show "total (expire now a) = saturated_sum (unexpired now (members a))"
    using ok mem by (simp add: agg_ok_def members_ok_def)
qed

lemma expire_frame [frame_simps]:
  "maxMembers (expire now a) = maxMembers a" "maxDemand (expire now a) = maxDemand a"
  "memberTTL (expire now a) = memberTTL a"
  "reportSlotsUsed (expire now a) = reportSlotsUsed a" "reportSlotsCap (expire now a) = reportSlotsCap a"
  "agg_authTokenFile (expire now a) = agg_authTokenFile a"
  using expireLocked_frame [of now a]
  by (cases "expireLocked now a"; simp add: expire_def frame_simps)+

lemma store_ok:
  assumes "members_ok a" and "rep_MemberID r \<in> fst ` set (members a) \<or> int (length (members a)) < maxMembers a"
    and "0 \<le> rep_Demand r" and "rep_Demand r \<le> maxDemand a"
  shows "members_ok (recalculateLocked (a\<lparr>members := AList.update (rep_MemberID r)
           \<lparr>mem_sequence = rep_Sequence r, mem_demand = rep_Demand r, mem_expiresAt = t\<rparr> (members a)\<rparr>))"
    (is "members_ok (recalculateLocked ?b)")
proof -
  have w: "demands_within (maxDemand ?b) (members ?b)"
    using assms by (simp add: members_ok_def demands_within_update)
  moreover have "maxDemand ?b \<le> MaxInt64" using assms by (simp add: members_ok_def)
  ultimately have "total (recalculateLocked ?b) = saturated_sum (members ?b)"
    by (rule recalculateLocked_total)
  with w assms show ?thesis
    by (auto simp: members_ok_def frame_simps distinct_update length_alist_update)
qed

subsection \<open>The abstract aggregator\<close>

text \<open>
  What the aggregator promises: a partial map from member identities to their newest report. An
  operation at \<open>now\<close> first forgets the members whose lease ended; a report is stale when its
  sequence number is not larger than the member's, refused for capacity when it would be a new
  member of a full map, and stored otherwise. The demand is the saturated sum of the map.
\<close>

type_synonym agg_spec = "string \<rightharpoonup> demandMember"

definition spec_expire :: "time \<Rightarrow> agg_spec \<Rightarrow> agg_spec" where
  "spec_expire now M = (\<lambda>i. case M i of Some m \<Rightarrow> if now < mem_expiresAt m then Some m else None | None \<Rightarrow> None)"

definition spec_update :: "int \<Rightarrow> duration \<Rightarrow> demandReport \<Rightarrow> time \<Rightarrow> agg_spec \<Rightarrow> string \<times> agg_spec" where
  "spec_update maxM ttl r now M =
     (let M' = spec_expire now M;
          new = M'(rep_MemberID r \<mapsto> \<lparr>mem_sequence = rep_Sequence r, mem_demand = rep_Demand r,
                                       mem_expiresAt = now + ttl\<rparr>)
      in case M' (rep_MemberID r) of
           Some m \<Rightarrow> if rep_Sequence r \<le> mem_sequence m then (demandReportStale, M') else (demandReportAccepted, new)
         | None \<Rightarrow> if maxM \<le> int (card (dom M')) then (demandReportCapacity, M') else (demandReportAccepted, new))"

definition spec_demand :: "agg_spec \<Rightarrow> int" where
  "spec_demand M = min MaxInt64 (\<Sum>i \<in> dom M. mem_demand (the (M i)))"

definition abs_members :: "demandAggregator \<Rightarrow> agg_spec" where
  "abs_members a = map_of (members a)"

lemma map_of_unexpired:
  "distinct (map fst ms) \<Longrightarrow> map_of (unexpired now ms) = spec_expire now (map_of ms)"
proof (induction ms)
  case (Cons p ms)
  obtain i m where p: "p = (i, m)" by fastforce
  with Cons.prems have "map_of ms i = None" by (auto simp: map_of_eq_None_iff)
  then show ?case using Cons p
    by (auto simp: unexpired_def spec_expire_def Before_def fun_eq_iff split: option.splits)
qed (simp add: unexpired_def spec_expire_def fun_eq_iff)

lemma sum_map_of:
  "distinct (map fst ms) \<Longrightarrow> (\<Sum>i \<in> dom (map_of ms). f (the (map_of ms i))) = (\<Sum>(i, m) \<leftarrow> ms. f m :: int)"
proof (induction ms)
  case (Cons p ms)
  obtain i m where p: "p = (i, m)" by fastforce
  with Cons.prems have i: "i \<notin> dom (map_of ms)" by (simp add: dom_map_of_conv_image_fst)
  have "(\<Sum>j \<in> dom (map_of ms). f (the (map_of (p # ms) j))) = (\<Sum>j \<in> dom (map_of ms). f (the (map_of ms j)))"
    using i p by (intro sum.cong) auto
  moreover have "dom (map_of (p # ms)) = insert i (dom (map_of ms))" using p by auto
  moreover have "f (the (map_of (p # ms) i)) = f m" using p by simp
  ultimately have "(\<Sum>j \<in> dom (map_of (p # ms)). f (the (map_of (p # ms) j)))
      = f m + (\<Sum>j \<in> dom (map_of ms). f (the (map_of ms j)))"
    using i by (simp only: sum.insert finite_dom_map_of not_False_eq_True)
  also have "(\<Sum>j \<in> dom (map_of ms). f (the (map_of ms j))) = (\<Sum>(i, m) \<leftarrow> ms. f m)"
    using Cons by simp
  finally show ?case using p by (simp only: list.map sum_list.Cons prod.case)
qed simp

lemma saturated_sum_spec: "distinct (map fst ms) \<Longrightarrow> saturated_sum ms = spec_demand (map_of ms)"
  by (simp add: saturated_sum_def spec_demand_def sum_map_of)

lemma card_dom_map_of: "distinct (map fst ms) \<Longrightarrow> card (dom (map_of ms)) = length ms"
  by (metis dom_map_of_conv_image_fst distinct_card length_map list.set_map)

lemma update_ok:
  assumes "agg_ok a" and "0 \<le> rep_Demand r" and "rep_Demand r \<le> maxDemand a"
  shows "agg_ok (snd (update r now a))"
proof -
  have m: "members_ok (snd (expireLocked now a))"
    using assms by (simp add: agg_ok_def expireLocked_ok)
  let ?a = "snd (expireLocked now a)"
  show ?thesis
  proof (cases "map_of (members ?a) (rep_MemberID r)")
    case None
    then show ?thesis using m assms
      by (auto simp: update_def Let_def frame_simps intro!: publishLocked_ok store_ok)
  next
    case (Some ex)
    then have "rep_MemberID r \<in> fst ` set (members ?a)" by (metis domI dom_map_of_conv_image_fst)
    with Some show ?thesis using m assms
      by (auto simp: update_def Let_def frame_simps intro!: publishLocked_ok store_ok)
  qed
qed

lemma update_frame [frame_simps]:
  "maxMembers (snd (update r now a)) = maxMembers a" "maxDemand (snd (update r now a)) = maxDemand a"
  "memberTTL (snd (update r now a)) = memberTTL a"
  "reportSlotsUsed (snd (update r now a)) = reportSlotsUsed a"
  "reportSlotsCap (snd (update r now a)) = reportSlotsCap a"
  "agg_authTokenFile (snd (update r now a)) = agg_authTokenFile a"
  by (simp_all add: update_def Let_def frame_simps split: option.splits)

text \<open>The report slots take no part in an update.\<close>

lemma expireLocked_slots:
  "expireLocked now (a\<lparr>reportSlotsUsed := n\<rparr>) =
     (fst (expireLocked now a), (snd (expireLocked now a))\<lparr>reportSlotsUsed := n\<rparr>)"
  by (simp add: expireLocked_def recalculateLocked_def Let_def split: prod.splits)

lemma update_slots:
  "update r now (a\<lparr>reportSlotsUsed := n\<rparr>) = (fst (update r now a), (snd (update r now a))\<lparr>reportSlotsUsed := n\<rparr>)"
  by (simp add: update_def expireLocked_slots recalculateLocked_def publishLocked_def Let_def split: option.splits)

lemma update_refines_spec:
  assumes "agg_ok a"
  shows "(fst (update r now a), abs_members (snd (update r now a)))
       = spec_update (maxMembers a) (memberTTL a) r now (abs_members a)"
proof -
  have m: "members_ok a" using assms by (simp add: agg_ok_def)
  then have d: "distinct (map fst (members a))" by (simp add: members_ok_def)
  let ?a = "snd (expireLocked now a)"
  have exp: "map_of (members ?a) = spec_expire now (map_of (members a))"
    by (simp add: expireLocked_members [OF m] map_of_unexpired [OF d])
  have "distinct (map fst (members ?a))" using expireLocked_ok [OF m] by (simp add: members_ok_def)
  then have card: "int (length (members ?a)) = int (card (dom (spec_expire now (map_of (members a)))))"
    using exp by (simp add: card_dom_map_of flip: exp)
  show ?thesis
    by (auto simp: update_def spec_update_def abs_members_def Let_def frame_simps exp card
          map_of_alist_update Add_def split: option.splits)
qed

subsection \<open>The handler\<close>

lemma reportBody_cases:
  assumes "reportBody readFile decode now r a = (resp, a')"
  shows "a' = a \<and> resp_status resp \<in> {503, 401, 400} \<or>
    (\<exists>token report. ReadAuthToken readFile (agg_authTokenFile a) = Inr token
      \<and> Header_Get (req_Header r) ''Authorization'' = AuthorizationValue token
      \<and> decode (case req_Body r of Some b \<Rightarrow> b | None \<Rightarrow> []) = Some report
      \<and> valid_report (maxDemand a) report
      \<and> a' = (snd (update report now a))\<lparr>agg_metrics := (agg_metrics (snd (update report now a)))\<lparr>am_reports :=
            inc (fst (update report now a)) (am_reports (agg_metrics (snd (update report now a))))\<rparr>\<rparr>
      \<and> resp_status resp = (if fst (update report now a) = demandReportCapacity then 429 else 204))"
proof (cases "ReadAuthToken readFile (agg_authTokenFile a)")
  case (Inl e)
  with assms show ?thesis by (auto simp: reportBody_def status_defs new_response_def)
next
  case (Inr token)
  let ?body = "case req_Body r of Some b \<Rightarrow> b | None \<Rightarrow> []"
  show ?thesis
  proof (cases "Authorized (Header_Get (req_Header r) ''Authorization'') token")
    case False
    with Inr assms show ?thesis by (auto simp: reportBody_def status_defs new_response_def)
  next
    case auth: True
    show ?thesis
    proof (cases "if length ?body > maxDemandReportBody then None else decode ?body")
      case None
      with Inr auth assms show ?thesis by (auto simp: reportBody_def Let_def status_defs new_response_def)
    next
      case (Some report)
      then have dec: "decode ?body = Some report" by (simp split: if_splits)
      show ?thesis
      proof (cases "valid_report (maxDemand a) report")
        case False
        with Inr auth Some assms show ?thesis
          by (simp add: reportBody_def Let_def) (auto simp: status_defs new_response_def)
      next
        case True
        have "resp_status resp = (if fst (update report now a) = demandReportCapacity then 429 else 204)"
          and "a' = (snd (update report now a))\<lparr>agg_metrics := (agg_metrics (snd (update report now a)))\<lparr>am_reports :=
            inc (fst (update report now a)) (am_reports (agg_metrics (snd (update report now a))))\<rparr>\<rparr>"
          using Inr auth Some True assms
          by (auto simp add: reportBody_def Let_def case_prod_unfold status_defs new_response_def split: if_splits)
        with Inr auth dec True show ?thesis by (simp add: Authorized_iff)
      qed
    qed
  qed
qed

lemma agg_ok_metrics:
  "agg_ok (a\<lparr>agg_metrics := (agg_metrics a)\<lparr>am_reports := x\<rparr>\<rparr>) = agg_ok a"
  "agg_ok (a\<lparr>reportSlotsUsed := n\<rparr>) = agg_ok a"
  "agg_ok (a\<lparr>agg_metrics := (agg_metrics a)\<lparr>am_scalerStreams := y\<rparr>\<rparr>) = agg_ok a"
  by (simp_all add: agg_ok_def members_ok_def published_ok_def)

lemma scaler_stream_frame [frame_simps]:
  "agg_ok (ScalerStreamConnected a) = agg_ok a" "agg_ok (ScalerStreamDisconnected a) = agg_ok a"
  "members (ScalerStreamConnected a) = members a" "members (ScalerStreamDisconnected a) = members a"
  "memberTTL (ScalerStreamConnected a) = memberTTL a" "memberTTL (ScalerStreamDisconnected a) = memberTTL a"
  "reportSlotsUsed (ScalerStreamConnected a) = reportSlotsUsed a"
  "reportSlotsUsed (ScalerStreamDisconnected a) = reportSlotsUsed a"
  "reportSlotsCap (ScalerStreamConnected a) = reportSlotsCap a"
  "reportSlotsCap (ScalerStreamDisconnected a) = reportSlotsCap a"
  "agg_demands (ScalerStreamConnected a) = agg_demands a" "agg_demands (ScalerStreamDisconnected a) = agg_demands a"
  by (simp_all add: ScalerStreamConnected_def ScalerStreamDisconnected_def agg_ok_metrics)

lemma valid_report_bounds: "valid_report hi r \<Longrightarrow> 0 \<le> rep_Demand r \<and> rep_Demand r \<le> hi"
  by (simp add: valid_report_def)

lemma reportBody_ok:
  assumes "agg_ok a" and "reportBody readFile decode now r a = (resp, a')"
  shows "agg_ok a' \<and> reportSlotsUsed a' = reportSlotsUsed a \<and> reportSlotsCap a' = reportSlotsCap a
    \<and> memberTTL a' = memberTTL a"
  using reportBody_cases [OF assms(2)] assms(1) update_ok [OF assms(1)] valid_report_bounds
  by (auto simp: agg_ok_metrics frame_simps)

definition expires_by :: "time \<Rightarrow> (string, demandMember) gomap \<Rightarrow> bool" where
  "expires_by t ms \<longleftrightarrow> list_all (\<lambda>(i, m). mem_expiresAt m \<le> t) ms"

lemma expires_by_update: "expires_by t ms \<Longrightarrow> mem_expiresAt m \<le> t \<Longrightarrow> expires_by t (AList.update i m ms)"
  using set_alist_update_subset [of i m ms] by (auto simp: expires_by_def list_all_iff)

lemma expires_by_unexpired: "expires_by t ms \<Longrightarrow> expires_by t (unexpired now ms)"
  by (auto simp: expires_by_def unexpired_def list_all_iff)

lemma expires_by_mono: "expires_by t ms \<Longrightarrow> t \<le> t' \<Longrightarrow> expires_by t' ms"
  by (auto simp: expires_by_def list_all_iff)

lemma update_expiry:
  assumes "agg_ok a" and "expires_by (now + memberTTL a) (members a)"
  shows "expires_by (now + memberTTL a) (members (snd (update r now a)))"
proof -
  have m: "members_ok a" using assms by (simp add: agg_ok_def)
  have "expires_by (now + memberTTL a) (members (snd (expireLocked now a)))"
    using assms by (simp add: expireLocked_members [OF m] expires_by_unexpired)
  then show ?thesis
    by (simp add: update_def Let_def frame_simps Add_def expires_by_update split: option.split)
qed

subsection \<open>Concurrent handlers\<close>

text \<open>
  The aggregator with the report handlers that hold a slot, at the clock reading \<open>now\<close>. A handler
  acquires its slot in one step and does the rest, under the mutex, in another; in between the
  other handlers, the sweep of \<open>Run\<close>, the scaler's queries and its streams take their steps. The
  contents of the token file may differ at every step.
\<close>

type_synonym agg_sys = "demandAggregator \<times> http_request list"

inductive agg_step :: "(string \<Rightarrow> demandReport option) \<Rightarrow> time \<Rightarrow> agg_sys \<Rightarrow> agg_sys \<Rightarrow> bool"
  for decode :: "string \<Rightarrow> demandReport option" and now :: time where
  report_begin: "acquireReportSlot r a = Inr a' \<Longrightarrow> agg_step decode now (a, rs) (a', rs @ [r])"
| report_finish: "reportBody readFile decode now r a = (resp, a') \<Longrightarrow>
     agg_step decode now (a, rs1 @ r # rs2) (releaseReportSlot a', rs1 @ rs2)"
| sweep: "agg_step decode now (a, rs) (expire now a, rs)"
| query: "Demand now a = (d, a') \<Longrightarrow> agg_step decode now (a, rs) (a', rs)"
| stream_open: "SubscribeDemand now a = (h, a') \<Longrightarrow> agg_step decode now (a, rs) (ScalerStreamConnected a', rs)"
| stream_read: "receive ch (agg_demands a) = Some (v, s) \<Longrightarrow>
     agg_step decode now (a, rs) (a\<lparr>agg_demands := s\<rparr>, rs)"
| stream_close: "unsubscribe h (agg_demands a) = (h', s) \<Longrightarrow>
     agg_step decode now (a, rs) (ScalerStreamDisconnected (a\<lparr>agg_demands := s\<rparr>), rs)"

inductive agg_reach :: "(string \<Rightarrow> demandReport option) \<Rightarrow> DemandAggregatorConfig \<Rightarrow> time \<Rightarrow> agg_sys \<Rightarrow> bool"
  for decode :: "string \<Rightarrow> demandReport option" and cfg :: DemandAggregatorConfig where
  start: "agg_reach decode cfg t (NewDemandAggregator cfg, [])"
| step: "agg_reach decode cfg t st \<Longrightarrow> t \<le> now \<Longrightarrow> agg_step decode now st st' \<Longrightarrow> agg_reach decode cfg now st'"

definition agg_inv :: "time \<Rightarrow> agg_sys \<Rightarrow> bool" where
  "agg_inv t st \<longleftrightarrow>
     (let (a, rs) = st in
      agg_ok a \<and> reportSlotsUsed a = int (length rs) \<and> reportSlotsUsed a \<le> reportSlotsCap a \<and>
      expires_by (t + memberTTL a) (members a))"

lemma agg_ok_new: "in_int64 (cfg_MaxDemand cfg) \<Longrightarrow> agg_ok (NewDemandAggregator cfg)"
  by (auto simp: agg_ok_def members_ok_def published_ok_def NewDemandAggregator_def subs_ok_new
        demands_within_def saturated_sum_def newAggregatorMetrics_def Current_def
        float64_of_int_exact MaxInt64_def in_int64_def defaultMaxDemand_def defaultMaxMembers_def)
     (simp_all add: NewSubscriptions_def)

lemma agg_inv_start: "in_int64 (cfg_MaxDemand cfg) \<Longrightarrow> agg_inv t (NewDemandAggregator cfg, [])"
  using agg_ok_new [of cfg]
  by (simp add: agg_inv_def) (simp add: NewDemandAggregator_def defaultMaxConcurrent_def expires_by_def)

lemma agg_ok_demands:
  assumes "agg_ok a" and "subs_ok s" and "Current s = Current (agg_demands a)"
  shows "agg_ok (a\<lparr>agg_demands := s\<rparr>)"
  using assms by (simp add: agg_ok_def members_ok_def published_ok_def)

lemma SubscribeDemand_ok:
  assumes "agg_ok a" and "SubscribeDemand now a = (h, a')"
  shows "agg_ok a' \<and> members a' = unexpired now (members a) \<and> memberTTL a' = memberTTL a
    \<and> reportSlotsUsed a' = reportSlotsUsed a \<and> reportSlotsCap a' = reportSlotsCap a"
proof -
  note e = expire_ok [OF assms(1), of now]
  have s: "subs_ok (agg_demands (expire now a))" using e(1) by (simp add: agg_ok_def members_ok_def)
  have a': "a' = (expire now a)\<lparr>agg_demands := snd (Subscribe (total (expire now a)) (agg_demands (expire now a)))\<rparr>"
    using assms(2) by (simp add: SubscribeDemand_def Let_def case_prod_unfold split: prod.splits)
  have "agg_ok a'" unfolding a'
    by (rule agg_ok_demands [OF e(1)])
       (simp_all add: subs_ok_subscribe [OF s] Current_def mailbox.subscribe_cur [OF s])
  with a' e show ?thesis by (simp add: frame_simps)
qed

lemma agg_inv_later: "agg_inv t st \<Longrightarrow> t \<le> now \<Longrightarrow> agg_inv now st"
  by (auto simp: agg_inv_def elim: expires_by_mono)

lemma agg_inv_expire: "agg_inv now (a, rs) \<Longrightarrow> agg_inv now (expire now a, rs)"
  using expire_ok [of a now] by (simp add: agg_inv_def frame_simps expires_by_unexpired)

lemma agg_inv_step:
  assumes "agg_step decode now st st'" and "agg_inv now st"
  shows "agg_inv now st'"
  using assms
proof cases
  case (report_begin r a a' rs)
  with assms(2) show ?thesis
    by (auto simp: agg_inv_def acquireReportSlot_def agg_ok_metrics split: if_splits)
next
  case (report_finish readFile r a resp a' rs1 rs2)
  then have ok: "agg_ok a" and exp: "expires_by (now + memberTTL a) (members a)"
    using assms(2) by (auto simp: agg_inv_def)
  have "expires_by (now + memberTTL a) (members a')"
    using reportBody_cases [OF report_finish(3)] exp by (auto simp: update_expiry [OF ok exp])
  then show ?thesis
    using reportBody_ok [OF ok report_finish(3)] report_finish assms(2)
    by (auto simp: agg_inv_def releaseReportSlot_def agg_ok_metrics)
next
  case (sweep a rs)
  then show ?thesis using assms agg_inv_expire by simp
next
  case (query a d a' rs)
  then show ?thesis using assms agg_inv_expire [of now a rs] by (auto simp: Demand_def Let_def)
next
  case (stream_open a h a' rs)
  then show ?thesis using assms SubscribeDemand_ok [of a now h a']
    by (auto simp: agg_inv_def frame_simps expires_by_unexpired)
next
  case (stream_read ch a v s rs)
  then have s: "subs_ok (agg_demands a)" using assms by (simp add: agg_inv_def agg_ok_def members_ok_def)
  have "agg_ok (a\<lparr>agg_demands := s\<rparr>)"
    using stream_read assms mailbox.recv_frame [OF s stream_read(3)] subs_ok_receive [OF s stream_read(3)]
    by (intro agg_ok_demands) (simp_all add: agg_inv_def Current_def)
  then show ?thesis using stream_read assms by (auto simp: agg_inv_def)
next
  case (stream_close h a h' s rs)
  then have o: "subs_ok (agg_demands a)" using assms by (simp add: agg_inv_def agg_ok_def members_ok_def)
  have "subs_ok s" and "Current s = Current (agg_demands a)"
    using mailbox.unsub_cur [of h "agg_demands a"] subs_ok_unsubscribe [OF o, of h] stream_close(3)
    by (simp_all add: Current_def)
  then have "agg_ok (a\<lparr>agg_demands := s\<rparr>)"
    using stream_close(1) assms(2) by (intro agg_ok_demands) (simp_all add: agg_inv_def)
  then show ?thesis using stream_close assms
    by (auto simp: agg_inv_def frame_simps)
qed

lemma agg_reach_inv: "agg_reach decode cfg t st \<Longrightarrow> in_int64 (cfg_MaxDemand cfg) \<Longrightarrow> agg_inv t st"
proof (induction rule: agg_reach.induct)
  case (start t)
  then show ?case by (rule agg_inv_start)
next
  case (step t st now st')
  then show ?case by (metis agg_inv_later agg_inv_step)
qed


subsection \<open>Reports that overtake each other\<close>

lemma spec_demand_cong:
  assumes "\<And>i. map_option mem_demand (M i) = map_option mem_demand (M' i)"
  shows "spec_demand M = spec_demand M'"
proof -
  have "dom M = dom M'" using assms by (auto simp: dom_def) (metis option.map_disc_iff not_Some_eq)+
  moreover have "mem_demand (the (M i)) = mem_demand (the (M' i))" if "i \<in> dom M'" for i
    using that assms [of i] by (cases "M i"; cases "M' i") auto
  ultimately show ?thesis by (simp add: spec_demand_def)
qed

lemma spec_expire_twice: "t1 \<le> t2 \<Longrightarrow> spec_expire t2 (spec_expire t1 M) = spec_expire t2 M"
  by (auto simp: spec_expire_def fun_eq_iff split: option.splits)

lemma dom_spec_expire: "dom (spec_expire t M) \<subseteq> dom M"
  by (auto simp: spec_expire_def split: option.splits if_splits)

text \<open>The member's entry after an accepted report, and the others.\<close>

definition stored :: "duration \<Rightarrow> demandReport \<Rightarrow> time \<Rightarrow> agg_spec \<Rightarrow> agg_spec" where
  "stored ttl r now M =
     M(rep_MemberID r \<mapsto> \<lparr>mem_sequence = rep_Sequence r, mem_demand = rep_Demand r, mem_expiresAt = now + ttl\<rparr>)"

lemma spec_update_accepted:
  "fst (spec_update maxM ttl r now M) = demandReportAccepted \<Longrightarrow>
     snd (spec_update maxM ttl r now M) = stored ttl r now (spec_expire now M)"
  by (auto simp: spec_update_def stored_def Let_def report_result_defs split: option.splits if_splits)

lemma spec_update_accepted_iff:
  "fst (spec_update maxM ttl r now M) = demandReportAccepted \<longleftrightarrow>
     (case spec_expire now M (rep_MemberID r) of Some m \<Rightarrow> mem_sequence m < rep_Sequence r
      | None \<Rightarrow> int (card (dom (spec_expire now M))) < maxM)"
  by (auto simp: spec_update_def Let_def report_result_defs not_le split: option.splits)

lemma spec_late_report:
  assumes acc: "fst (spec_update maxM ttl r2 t1 M) = demandReportAccepted"
    and same: "rep_MemberID r1 = rep_MemberID r2" and seq: "rep_Sequence r1 < rep_Sequence r2"
    and lease: "t2 < t1 + ttl"
  shows "spec_update maxM ttl r1 t2 (snd (spec_update maxM ttl r2 t1 M))
       = (demandReportStale, spec_expire t2 (stored ttl r2 t1 (spec_expire t1 M)))"
proof -
  have "spec_expire t2 (stored ttl r2 t1 (spec_expire t1 M)) (rep_MemberID r1)
      = Some \<lparr>mem_sequence = rep_Sequence r2, mem_demand = rep_Demand r2, mem_expiresAt = t1 + ttl\<rparr>"
    using same lease by (simp add: stored_def spec_expire_def)
  moreover have "rep_Sequence r1 \<le> rep_Sequence r2" using seq by (rule less_imp_le)
  ultimately show ?thesis
    unfolding spec_update_accepted [OF acc] by (simp add: spec_update_def Let_def)
qed

lemma spec_newest_accepted:
  assumes fin: "finite (dom M)" and cap: "int (card (dom M)) \<le> maxM"
    and acc: "fst (spec_update maxM ttl r2 t1 M) = demandReportAccepted"
    and same: "rep_MemberID r1 = rep_MemberID r2" and seq: "rep_Sequence r1 < rep_Sequence r2"
    and t: "t1 \<le> t2"
  shows "fst (spec_update maxM ttl r2 t2 (snd (spec_update maxM ttl r1 t1 M))) = demandReportAccepted"
proof -
  let ?i = "rep_MemberID r2" and ?M = "snd (spec_update maxM ttl r1 t1 M)"
  let ?M1 = "spec_expire t1 M"
  have M: "?M = ?M1 \<or> ?M = stored ttl r1 t1 ?M1"
    by (auto simp: spec_update_def stored_def Let_def split: option.splits)
  have older: "mem_sequence m < rep_Sequence r2" if "?M ?i = Some m" for m
    using that M acc same seq by (auto simp: spec_update_accepted_iff stored_def split: option.splits)
  have sub: "dom (spec_expire t2 ?M) \<subseteq> insert ?i (dom ?M1)"
    using M same dom_spec_expire [of t2 ?M] by (auto simp: stored_def)
  have "int (card (dom (spec_expire t2 ?M))) < maxM" if none: "spec_expire t2 ?M ?i = None"
  proof -
    have fin1: "finite (dom ?M1)" using finite_subset [OF dom_spec_expire fin] .
    have le: "card (dom (spec_expire t2 ?M)) \<le> card (dom ?M1 - {?i})"
      using none sub fin1 by (intro card_mono) auto
    show ?thesis
    proof (cases "?i \<in> dom ?M1")
      case True
      then have "card (dom ?M1 - {?i}) < card (dom ?M1)" using fin1 by (intro card_Diff1_less)
      with le have "card (dom (spec_expire t2 ?M)) < card (dom ?M1)" by simp
      moreover have "card (dom ?M1) \<le> card (dom M)" by (rule card_mono [OF fin dom_spec_expire])
      ultimately show ?thesis using cap by linarith
    next
      case False
      then have "int (card (dom ?M1)) < maxM"
        using acc by (simp add: spec_update_accepted_iff domIff)
      with le False show ?thesis by simp
    qed
  qed
  moreover have "mem_sequence m < rep_Sequence r2" if "spec_expire t2 ?M ?i = Some m" for m
    using older that by (auto simp: spec_expire_def split: option.splits if_splits)
  ultimately show ?thesis by (auto simp: spec_update_accepted_iff split: option.split)
qed

lemma spec_reports_commute:
  assumes fin: "finite (dom M)" and cap: "int (card (dom M)) \<le> maxM"
    and acc: "fst (spec_update maxM ttl r2 t1 M) = demandReportAccepted"
    and same: "rep_MemberID r1 = rep_MemberID r2" and seq: "rep_Sequence r1 < rep_Sequence r2"
    and t: "t1 \<le> t2" "t2 < t1 + ttl"
  shows "map_option mem_demand (snd (spec_update maxM ttl r2 t2 (snd (spec_update maxM ttl r1 t1 M))) j)
       = map_option mem_demand (snd (spec_update maxM ttl r1 t2 (snd (spec_update maxM ttl r2 t1 M))) j)"
proof -
  let ?M = "snd (spec_update maxM ttl r1 t1 M)"
  have "?M = spec_expire t1 M \<or> ?M = stored ttl r1 t1 (spec_expire t1 M)"
    by (auto simp: spec_update_def stored_def Let_def split: option.splits)
  then have "spec_expire t2 ?M j = spec_expire t2 M j" if "j \<noteq> rep_MemberID r2"
    using that same by (auto simp: spec_expire_twice [OF t(1)] stored_def) 
      (use spec_expire_twice [OF t(1), of M] in \<open>auto simp: spec_expire_def fun_eq_iff split: option.splits\<close>)
  moreover have "spec_expire t2 (stored ttl r2 t1 (spec_expire t1 M)) j = spec_expire t2 M j" if "j \<noteq> rep_MemberID r2"
    using that spec_expire_twice [OF t(1), of M]
    by (auto simp: stored_def spec_expire_def fun_eq_iff split: option.splits)
  ultimately show ?thesis
    using spec_update_accepted [OF spec_newest_accepted [OF fin cap acc same seq t(1)]]
      spec_late_report [OF acc same seq t(2)] t(2)
    by (cases "j = rep_MemberID r2") (simp_all add: stored_def spec_expire_def)
qed

lemma agg_ok_abs:
  assumes "agg_ok a"
  shows "finite (dom (abs_members a))" and "int (card (dom (abs_members a))) \<le> maxMembers a"
    and "total a = spec_demand (abs_members a)"
  using assms by (simp_all add: abs_members_def agg_ok_def members_ok_def finite_dom_map_of card_dom_map_of
                    saturated_sum_spec)

lemma update_total:
  assumes "agg_ok a" and "0 \<le> rep_Demand r" and "rep_Demand r \<le> maxDemand a"
  shows "total (snd (update r now a)) = spec_demand (snd (spec_update (maxMembers a) (memberTTL a) r now (abs_members a)))"
  using update_refines_spec [OF assms(1), of r now] agg_ok_abs(3) [OF update_ok [OF assms]]
  by (metis snd_conv)

lemma update_abs:
  assumes "agg_ok a"
  shows "abs_members (snd (update r now a)) = snd (spec_update (maxMembers a) (memberTTL a) r now (abs_members a))"
    and "fst (update r now a) = fst (spec_update (maxMembers a) (memberTTL a) r now (abs_members a))"
  using update_refines_spec [OF assms, of r now] by (metis snd_conv fst_conv)+

subsection \<open>Properties\<close>

text \<open>
  C7. In every state that concurrent report handlers, sweeps, scaler queries and scaler streams
  can reach, the handlers in flight hold exactly the used slots and never more than the
  configured number, the member map stays within its limit and has one entry per identity, every
  kept demand lies between zero and the per-report limit, and the total is the saturated sum of
  the kept demands, which is also the value last published to the scaler and the gauge.
\<close>

theorem agg_reach_bounded:
  assumes "agg_reach decode cfg t (a, rs)" and "in_int64 (cfg_MaxDemand cfg)"
  shows "reportSlotsUsed a = int (length rs) \<and> int (length rs) \<le> reportSlotsCap a \<and>
    distinct (map fst (members a)) \<and> int (length (members a)) \<le> maxMembers a \<and>
    list_all (\<lambda>(i, m). 0 \<le> mem_demand m \<and> mem_demand m \<le> maxDemand a) (members a) \<and>
    total a = min MaxInt64 (\<Sum>(i, m) \<leftarrow> members a. mem_demand m) \<and>
    0 \<le> total a \<and> Current (agg_demands a) = total a \<and>
    am_demand (agg_metrics a) = float64_of_int (total a)"
  using agg_reach_inv [OF assms] saturated_sum_nonneg [of "maxDemand a" "members a"]
  by (simp add: agg_inv_def agg_ok_def members_ok_def published_ok_def demands_within_def saturated_sum_def)

definition example_config :: DemandAggregatorConfig where
  "example_config = \<lparr>cfg_MemberTTL = 10 * Second, cfg_SweepInterval = Second, cfg_AuthTokenFile = ''/token'',
     cfg_MaxMembers = 2, cfg_MaxDemand = 100, cfg_MaxConcurrentReports = 1\<rparr>"

definition example_report :: "string \<Rightarrow> nat \<Rightarrow> int \<Rightarrow> demandReport" where
  "example_report i n d = \<lparr>rep_MemberID = i, rep_Sequence = of_nat n, rep_Demand = d\<rparr>"

definition example_decode :: "string \<Rightarrow> demandReport option" where
  "example_decode body = (if body = ''b'' then Some (example_report ''m'' 1 7) else None)"

definition example_files :: file_system where
  "example_files path = (if path = ''/token'' then Some (replicate 32 CHR ''t'') else None)"

definition example_request :: http_request where
  "example_request = \<lparr>req_Method = ''POST'', req_Path = ''/v1/demand'',
     req_Header = [(''Authorization'', ''Bearer '' @ replicate 32 CHR ''t'')], req_Body = Some ''b''\<rparr>"

lemmas example_defs = example_config_def example_report_def example_decode_def example_files_def example_request_def

definition example_agg :: demandAggregator where
  "example_agg = snd (handleDemandReport example_files example_decode 5 example_request
     (NewDemandAggregator example_config))"

lemma agg_reach_handle:
  assumes "agg_reach decode cfg t (a, rs)" and "t \<le> now" and "acquireReportSlot r a = Inr a1"
  shows "agg_reach decode cfg now (snd (handleDemandReport readFile decode now r a), rs)"
proof -
  obtain resp a2 where b: "reportBody readFile decode now r a1 = (resp, a2)" by fastforce
  have "agg_reach decode cfg now (a1, rs @ [r])"
    using assms agg_step.report_begin by (blast intro: agg_reach.step)
  moreover have "agg_step decode now (a1, rs @ [r]) (releaseReportSlot a2, rs)"
    using agg_step.report_finish [OF b, of rs "[]"] by simp
  ultimately show ?thesis using assms(3) b
    by (auto simp: handleDemandReport_def intro: agg_reach.step)
qed

lemma example_token: "ReadAuthToken example_files ''/token'' = Inr (replicate 32 CHR ''t'')"
  by (simp add: ReadAuthToken_def ValidateAuthToken_def example_files_def TrimSpace_visible visible_def)

lemma example_agg_eq:
  "members example_agg = [(''m'', \<lparr>mem_sequence = 1, mem_demand = 7, mem_expiresAt = 10000000005\<rparr>)]"
  "maxMembers example_agg = 2" "maxDemand example_agg = 100" "memberTTL example_agg = 10000000000"
  using example_token
  by (simp_all add: example_agg_def handleDemandReport_def acquireReportSlot_def reportBody_def example_config_def
       NewDemandAggregator_def example_request_def Authorized_iff AuthorizationValue_def authScheme_def
       Header_Get_def lookup0_def maxDemandReportBody_def example_decode_def valid_report_def example_report_def
       update_def expireLocked_def maxMemberIDLength_def Let_def frame_simps releaseReportSlot_def
       report_result_defs duration_defs Add_def)

lemma example_agg_published:
  "total example_agg = 7"
  "agg_demands example_agg = \<lparr>subscribers = [], nextSubscriber = 0, lastDemand = 7, chans = []\<rparr>"
  using example_token
  by (simp_all add: example_agg_def handleDemandReport_def acquireReportSlot_def reportBody_def example_config_def
       NewDemandAggregator_def example_request_def Authorized_iff AuthorizationValue_def authScheme_def
       Header_Get_def lookup0_def maxDemandReportBody_def example_decode_def valid_report_def example_report_def
       update_def expireLocked_def maxMemberIDLength_def Let_def releaseReportSlot_def
       report_result_defs publishLocked_def recalculateLocked_def wrap64_id in_int64_def MaxInt64_def
       Publish_def Publish_racing_def NewSubscriptions_def)

lemma example_agg_reach: "agg_reach example_decode example_config 5 (example_agg, [])"
  unfolding example_agg_def
  by (rule agg_reach_handle [OF agg_reach.start [of _ _ 5]])
     (simp_all add: acquireReportSlot_def example_request_def NewDemandAggregator_def example_config_def)

lemma example_config_ok: "in_int64 (cfg_MaxDemand example_config)"
  by (simp add: example_config_def in_int64_def MaxInt64_def)

theorem agg_reach_bounded_witness:
  "agg_reach example_decode example_config 5 (example_agg, []) \<and> total example_agg = 7
     \<and> Current (agg_demands example_agg) = 7"
  using agg_reach_bounded [OF example_agg_reach example_config_ok] example_agg_reach
  by (simp add: example_agg_eq MaxInt64_def)

lemma Demand_refines_spec:
  assumes "agg_ok a"
  shows "(fst (Demand now a), abs_members (snd (Demand now a)))
       = (spec_demand (spec_expire now (abs_members a)), spec_expire now (abs_members a))"
proof -
  have d: "distinct (map fst (members a))" using assms by (simp add: agg_ok_def members_ok_def)
  then have "distinct (map fst (unexpired now (members a)))"
    by (simp add: unexpired_def distinct_map_filter)
  then show ?thesis
    using expire_ok(2,3) [OF assms, of now] map_of_unexpired [OF d, of now]
    by (simp add: Demand_def Let_def abs_members_def saturated_sum_spec)
qed

text \<open>
  C5. Refinement: on every reachable state the answer to a report and the members it leaves are
  those of the abstract aggregator, a partial map in which a report is stale when its sequence
  number is not larger, refused when it would be a new member of a full map, and stored
  otherwise; and the demand answered to the scaler is the sum over the members still leased.
\<close>

theorem aggregator_refines_spec:
  assumes "agg_reach decode cfg t (a, rs)" and "in_int64 (cfg_MaxDemand cfg)"
  shows "(fst (update r now a), abs_members (snd (update r now a)))
       = spec_update (maxMembers a) (memberTTL a) r now (abs_members a)
    \<and> (fst (Demand now a), abs_members (snd (Demand now a)))
       = (spec_demand (spec_expire now (abs_members a)), spec_expire now (abs_members a))"
proof -
  have "agg_ok a" using agg_reach_inv [OF assms] by (simp add: agg_inv_def)
  then show ?thesis using update_refines_spec Demand_refines_spec by blast
qed

theorem aggregator_refines_spec_witness:
  "agg_reach example_decode example_config 5 (example_agg, [])
     \<and> (fst (update (example_report ''m'' 1 9) 6 example_agg),
         abs_members (snd (update (example_report ''m'' 1 9) 6 example_agg)))
       = (demandReportStale, abs_members example_agg)
     \<and> fst (Demand 20000000000 example_agg) = 0"
  using aggregator_refines_spec [OF example_agg_reach example_config_ok, of "example_report ''m'' 1 9" 6]
    aggregator_refines_spec [OF example_agg_reach example_config_ok, of "example_report ''m'' 1 9" 20000000000]
    example_agg_reach
  by (simp add: abs_members_def example_agg_eq spec_update_def spec_expire_def spec_demand_def Let_def
        example_report_def MaxInt64_def fun_eq_iff dom_def)

text \<open>
  The total does not depend on the order in which the loop over the member map visits the
  entries, and it saturates at the largest 64-bit integer instead of wrapping around.
\<close>

theorem recalculateLocked_order:
  assumes "mset (members a) = mset (members b)"
    and "list_all (\<lambda>(i, m). 0 \<le> mem_demand m \<and> mem_demand m \<le> MaxInt64) (members a)"
  shows "total (recalculateLocked a) = total (recalculateLocked b)
    \<and> total (recalculateLocked a) = min MaxInt64 (\<Sum>(i, m) \<leftarrow> members a. mem_demand m)"
proof -
  let ?sum = "\<lambda>ms. \<Sum>(i, m) \<leftarrow> ms. mem_demand (m :: demandMember)"
  have "set (members b) = set (members a)" using assms(1) by (metis set_mset_mset)
  then have "demands_within MaxInt64 (members b)"
    using assms(2) by (simp add: demands_within_def list_all_iff)
  moreover have "?sum (members a) = ?sum (members b)" using assms(1) by (metis mset_map sum_mset_sum_list)
  ultimately show ?thesis
    using recalculate_loop_eq [of "members a" 0] recalculate_loop_eq [of "members b" 0] assms(2)
    by (simp add: recalculateLocked_def demands_within_def MaxInt64_def)
qed

theorem recalculateLocked_order_witness:
  "total (recalculateLocked (example_agg\<lparr>members :=
      [(''m'', \<lparr>mem_sequence = 1, mem_demand = MaxInt64, mem_expiresAt = 9\<rparr>),
       (''n'', \<lparr>mem_sequence = 1, mem_demand = 2, mem_expiresAt = 9\<rparr>)]\<rparr>)) = MaxInt64"
  using recalculateLocked_order [of
      "example_agg\<lparr>members := [(''m'', \<lparr>mem_sequence = 1, mem_demand = MaxInt64, mem_expiresAt = 9\<rparr>),
         (''n'', \<lparr>mem_sequence = 1, mem_demand = 2, mem_expiresAt = 9\<rparr>)]\<rparr>"
      "example_agg\<lparr>members := [(''n'', \<lparr>mem_sequence = 1, mem_demand = 2, mem_expiresAt = 9\<rparr>),
         (''m'', \<lparr>mem_sequence = 1, mem_demand = MaxInt64, mem_expiresAt = 9\<rparr>)]\<rparr>"]
  by (simp add: MaxInt64_def)

text \<open>
  Reports of one gateway that overtake each other: when the newer report would be accepted
  and both arrive within one lease, the older one arriving late is answered as stale, and the
  final total and every member's demand are the same as if they had arrived in order.
\<close>

theorem late_report_is_harmless:
  assumes "agg_reach decode cfg t (a, rs)" and "in_int64 (cfg_MaxDemand cfg)"
    and "valid_report (maxDemand a) r1" and "valid_report (maxDemand a) r2"
    and "rep_MemberID r1 = rep_MemberID r2" and "rep_Sequence r1 < rep_Sequence r2"
    and "t1 \<le> t2" and "t2 < t1 + memberTTL a"
    and "fst (update r2 t1 a) = demandReportAccepted"
  shows "fst (update r1 t2 (snd (update r2 t1 a))) = demandReportStale
    \<and> fst (update r2 t2 (snd (update r1 t1 a))) = demandReportAccepted
    \<and> total (snd (update r1 t2 (snd (update r2 t1 a)))) = total (snd (update r2 t2 (snd (update r1 t1 a))))"
proof -
  have ok: "agg_ok a" using agg_reach_inv [OF assms(1,2)] by (simp add: agg_inv_def)
  note b1 = valid_report_bounds [OF assms(3)] and b2 = valid_report_bounds [OF assms(4)]
  have ok1: "agg_ok (snd (update r1 t1 a))" and ok2: "agg_ok (snd (update r2 t1 a))"
    using update_ok [OF ok] b1 b2 by simp_all
  note fin = agg_ok_abs(1) [OF ok] and cap = agg_ok_abs(2) [OF ok]
  have acc: "fst (spec_update (maxMembers a) (memberTTL a) r2 t1 (abs_members a)) = demandReportAccepted"
    using assms(9) by (simp add: update_abs(2) [OF ok])
  have "fst (update r1 t2 (snd (update r2 t1 a))) = demandReportStale"
    using spec_late_report [OF acc assms(5,6,8)]
    by (simp add: update_abs(2) [OF ok2] update_abs(1) [OF ok] frame_simps)
  moreover have "fst (update r2 t2 (snd (update r1 t1 a))) = demandReportAccepted"
    using spec_newest_accepted [OF fin cap acc assms(5,6,7)]
    by (simp add: update_abs(2) [OF ok1] update_abs(1) [OF ok] frame_simps)
  moreover have "total (snd (update r1 t2 (snd (update r2 t1 a)))) = total (snd (update r2 t2 (snd (update r1 t1 a))))"
    using spec_demand_cong [OF spec_reports_commute [OF fin cap acc assms(5-8)]] b1 b2
    by (simp add: update_total [OF ok1] update_total [OF ok2] update_abs(1) [OF ok] frame_simps)
  ultimately show ?thesis by simp
qed

theorem late_report_is_harmless_witness:
  "fst (update (example_report ''m'' 2 5) 7 (snd (update (example_report ''m'' 3 4) 6 example_agg))) = demandReportStale
   \<and> total (snd (update (example_report ''m'' 2 5) 7 (snd (update (example_report ''m'' 3 4) 6 example_agg))))
    = total (snd (update (example_report ''m'' 3 4) 7 (snd (update (example_report ''m'' 2 5) 6 example_agg))))"
proof -
  have "fst (update (example_report ''m'' 3 4) 6 example_agg) = demandReportAccepted"
    by (simp add: update_def example_agg_eq expireLocked_def example_report_def Before_def Let_def
        word_le_nat_alt)
  then show ?thesis
    using late_report_is_harmless [OF example_agg_reach example_config_ok,
        of "example_report ''m'' 2 5" "example_report ''m'' 3 4" 6 7]
    by (simp add: valid_report_def example_agg_eq example_report_def maxMemberIDLength_def)
qed

text \<open>
  Liveness: demand of gateways that stopped reporting is forgotten. One member lifetime after
  the last step that can have stored a report, the demand answered to the scaler is zero.
\<close>

theorem silent_gateways_forgotten:
  assumes "agg_reach decode cfg t (a, rs)" and "in_int64 (cfg_MaxDemand cfg)"
    and "t + memberTTL a \<le> now"
  shows "fst (Demand now a) = 0 \<and> members (snd (Demand now a)) = []"
proof -
  have ok: "agg_ok a" and exp: "expires_by (t + memberTTL a) (members a)"
    using agg_reach_inv [OF assms(1,2)] by (simp_all add: agg_inv_def)
  have "unexpired now (members a) = []"
    using exp assms(3) by (auto simp: unexpired_def expires_by_def list_all_iff Before_def filter_empty_conv)
  then show ?thesis using expire_ok [OF ok, of now] by (simp add: Demand_def saturated_sum_def MaxInt64_def)
qed

theorem silent_gateways_forgotten_witness:
  "agg_reach example_decode example_config 5 (example_agg, []) \<and> fst (Demand 10000000005 example_agg) = 0"
  using silent_gateways_forgotten [OF example_agg_reach example_config_ok, of 10000000005] example_agg_reach
  by (simp add: example_agg_eq)

text \<open>
  C35. The report endpoint changes the aggregator's members only for a \<^verbatim>\<open>POST\<close> request that carries
  exactly the shared token, which has at least 32 bytes, and a report within the limits; the slot
  it took is given back on every path; and it answers 405, 429, 503, 401 or 400 without any
  change of state, or 204 or 429 after an update.
\<close>

theorem handleDemandReport_guarded:
  assumes "handleDemandReport readFile decode now r a = (resp, a')"
  shows "a' = a \<and> resp_status resp \<in> {400, 401, 405, 429, 503} \<or>
    (\<exists>token report. req_Method r = ''POST'' \<and> reportSlotsUsed a < reportSlotsCap a
      \<and> ReadAuthToken readFile (agg_authTokenFile a) = Inr token \<and> 32 \<le> length token
      \<and> Header_Get (req_Header r) ''Authorization'' = ''Bearer '' @ token
      \<and> decode (case req_Body r of Some b \<Rightarrow> b | None \<Rightarrow> []) = Some report \<and> valid_report (maxDemand a) report
      \<and> members a' = members (snd (update report now a)) \<and> total a' = total (snd (update report now a))
      \<and> reportSlotsUsed a' = reportSlotsUsed a
      \<and> resp_status resp = (if fst (update report now a) = demandReportCapacity then 429 else 204))"
proof (cases "acquireReportSlot r a")
  case (Inl resp')
  then show ?thesis using assms
    by (auto simp: handleDemandReport_def acquireReportSlot_def status_defs new_response_def split: if_splits)
next
  case (Inr a1)
  then have a1: "a1 = a\<lparr>reportSlotsUsed := reportSlotsUsed a + 1\<rparr>" and post: "req_Method r = ''POST''"
    and slot: "reportSlotsUsed a < reportSlotsCap a"
    by (auto simp: acquireReportSlot_def split: if_splits)
  obtain a2 where b: "reportBody readFile decode now r a1 = (resp, a2)" and a': "a' = releaseReportSlot a2"
    using assms Inr by (auto simp: handleDemandReport_def split: prod.splits)
  show ?thesis
    using reportBody_cases [OF b]
  proof (elim disjE exE conjE)
    fix token report
    assume *: "ReadAuthToken readFile (agg_authTokenFile a1) = Inr token"
      "Header_Get (req_Header r) ''Authorization'' = AuthorizationValue token"
      "decode (case req_Body r of None \<Rightarrow> [] | Some b \<Rightarrow> b) = Some report"
      "valid_report (maxDemand a1) report"
      "a2 = (snd (update report now a1))\<lparr>agg_metrics := (agg_metrics (snd (update report now a1)))\<lparr>am_reports :=
            inc (fst (update report now a1)) (am_reports (agg_metrics (snd (update report now a1))))\<rparr>\<rparr>"
      "resp_status resp = (if fst (update report now a1) = demandReportCapacity then 429 else 204)"
    show ?thesis
      using * post slot ReadAuthToken_Inr [OF *(1)] update_slots [where r = report and now = now and a = a and n = "reportSlotsUsed a + 1"]
      unfolding a' a1
      by (intro disjI2 exI [of _ token] exI [of _ report])
         (simp add: releaseReportSlot_def AuthorizationValue_def authScheme_def frame_simps)
  qed (auto simp: a' a1 releaseReportSlot_def)
qed

theorem handleDemandReport_guarded_witness:
  "handleDemandReport (\<lambda>_. None) example_decode 5 example_request example_agg
     = (fst (handleDemandReport (\<lambda>_. None) example_decode 5 example_request example_agg), example_agg)"
proof -
  obtain resp a' where h: "handleDemandReport (\<lambda>_. None) example_decode 5 example_request example_agg = (resp, a')"
    by fastforce
  show ?thesis using handleDemandReport_guarded [OF h] h by (auto simp: ReadAuthToken_def split: if_splits)
qed
end
