(* ===== verification/Gateway.thy ===== *)
theory Gateway
  imports Subscriptions Http
begin

section \<open>The gateway: admission, demand and activation\<close>

text \<open>
  The state of a gateway replica and its operations on it, from the files \<open>config.go\<close>,
  \<open>gateway.go\<close>, \<open>metrics.go\<close>, \<open>demand.go\<close> and \<open>activation.go\<close> of \<open>internal/gateway/proxy\<close>. The
  channels \<open>sem\<close> and \<open>probeDone\<close> are the number of tokens held and whether the channel exists; an
  atomic or mutex-protected section is one operation; a clock reading is the argument \<open>now\<close>. What
  other goroutines do while one waits is a function on the state that the waiting operation
  takes as an argument. URL and duration parsing and the file system are parameters.
\<close>

subsection \<open>Configuration\<close>

definition EnvBackendURL :: string where "EnvBackendURL = ''NOCTAYA_BACKEND_URL''"
definition EnvMaxQueue :: string where "EnvMaxQueue = ''NOCTAYA_MAX_QUEUE''"
definition EnvActivationTimeout :: string where "EnvActivationTimeout = ''NOCTAYA_ACTIVATION_TIMEOUT''"
definition EnvColdStartMode :: string where "EnvColdStartMode = ''NOCTAYA_COLDSTART_MODE''"
definition EnvHeartbeatInterval :: string where "EnvHeartbeatInterval = ''NOCTAYA_HEARTBEAT_INTERVAL''"
definition EnvClientAPIKeyFile :: string where "EnvClientAPIKeyFile = ''NOCTAYA_CLIENT_API_KEY_FILE''"
definition DefaultMaxQueue :: int where "DefaultMaxQueue = 100"
definition ColdStartKeepalive :: string where "ColdStartKeepalive = ''keepalive''"
definition ColdStartReject :: string where "ColdStartReject = ''reject''"

record Config =
  BackendURL :: string
  MaxQueue :: int
  ActivationTimeout :: duration
  RetryInterval :: duration
  ColdStartMode :: string
  HeartbeatInterval :: duration
  ClientAPIKeyFile :: string
  ActivationGracePeriod :: duration

text \<open>\<open>os.Getenv\<close> is a total function, empty for an unset variable.\<close>

definition ConfigFromEnv :: "(string \<Rightarrow> duration option) \<Rightarrow> (string \<Rightarrow> string) \<Rightarrow> Config" where
  "ConfigFromEnv parseDuration getenv =
     \<lparr>BackendURL = getenv EnvBackendURL,
      MaxQueue = (case ParseInt (getenv EnvMaxQueue) of Some v \<Rightarrow> v | None \<Rightarrow> 0),
      ActivationTimeout = (case parseDuration (getenv EnvActivationTimeout) of Some d \<Rightarrow> d | None \<Rightarrow> 0),
      RetryInterval = 0,
      ColdStartMode = getenv EnvColdStartMode,
      HeartbeatInterval = (case parseDuration (getenv EnvHeartbeatInterval) of Some d \<Rightarrow> d | None \<Rightarrow> 0),
      ClientAPIKeyFile = getenv EnvClientAPIKeyFile,
      ActivationGracePeriod = 0\<rparr>"

subsection \<open>State\<close>

record metrics =
  m_pending :: int
  m_demand :: int
  m_requests :: counter_vec
  m_rejections :: counter_vec
  m_coldStart :: "duration list"
  m_scalerStreams :: int
  m_activationEvents :: int
  m_demandReports :: counter_vec

definition newMetrics :: metrics where
  "newMetrics = \<lparr>m_pending = 0, m_demand = 0, m_requests = [], m_rejections = [], m_coldStart = [],
     m_scalerStreams = 0, m_activationEvents = 0, m_demandReports = []\<rparr>"

record url =
  url_Scheme :: string
  url_Host :: string
  url_String :: string

record gateway =
  cfg :: Config
  backend :: url
  sem_used :: int
  sem_cap :: int
  pending :: int
  m :: metrics
  closed :: bool
  probeAt :: time
  probeReady :: bool
  probeDone :: bool
  leaseActive :: bool
  leaseDeadline :: time
  readyGraceUntil :: time
  leaseWatcher :: bool
  demands :: subscriptions

datatype gateway_error = BackendURLInvalid | ClientKeyUnreadable string | ClientKeyEmpty

definition absolute_http :: "url option \<Rightarrow> bool" where
  "absolute_http u = (case u of None \<Rightarrow> False
     | Some u \<Rightarrow> url_Host u \<noteq> [] \<and> (url_Scheme u = ''http'' \<or> url_Scheme u = ''https''))"

definition readClientAPIKey :: "(string \<Rightarrow> string option) \<Rightarrow> string \<Rightarrow> gateway_error + string" where
  "readClientAPIKey readFile path =
     (case readFile path of
        None \<Rightarrow> Inl (ClientKeyUnreadable path)
      | Some value \<Rightarrow> let key = TrimSpace value in if key = [] then Inl ClientKeyEmpty else Inr key)"

definition with_defaults :: "Config \<Rightarrow> Config" where
  "with_defaults c =
     c\<lparr>MaxQueue := (if MaxQueue c \<le> 0 then DefaultMaxQueue else MaxQueue c),
       ActivationTimeout := (if ActivationTimeout c \<le> 0 then 5 * Minute else ActivationTimeout c),
       RetryInterval := (if RetryInterval c \<le> 0 then 500 * Millisecond else RetryInterval c),
       ColdStartMode := (if ColdStartMode c \<noteq> ColdStartReject then ColdStartKeepalive else ColdStartMode c),
       HeartbeatInterval := (if HeartbeatInterval c \<le> 0 then 10 * Second else HeartbeatInterval c),
       ActivationGracePeriod := (if ActivationGracePeriod c \<le> 0 then 15 * Second else ActivationGracePeriod c)\<rparr>"

definition New ::
  "(string \<Rightarrow> url option) \<Rightarrow> (string \<Rightarrow> string option) \<Rightarrow> Config \<Rightarrow> gateway_error + gateway" where
  "New parseURL readFile c =
     (let backend = parseURL (BackendURL c) in
      if \<not> absolute_http backend then Inl BackendURLInvalid
      else case (if ClientAPIKeyFile c \<noteq> [] then readClientAPIKey readFile (ClientAPIKeyFile c) else Inr []) of
        Inl e \<Rightarrow> Inl e
      | Inr _ \<Rightarrow>
          Inr \<lparr>cfg = with_defaults c, backend = the backend, sem_used = 0, sem_cap = MaxQueue (with_defaults c),
               pending = 0, m = newMetrics, closed = False,
               probeAt = 0, probeReady = False, probeDone = False,
               leaseActive = False, leaseDeadline = 0, readyGraceUntil = 0, leaseWatcher = False,
               demands = NewSubscriptions\<rparr>)"

definition Close :: "gateway \<Rightarrow> gateway" where
  "Close g = g\<lparr>closed := True\<rparr>"

subsection \<open>Demand\<close>

definition Pending :: "gateway \<Rightarrow> int" where
  "Pending g = pending g"

definition lease_floor :: "time \<Rightarrow> gateway \<Rightarrow> bool" where
  "lease_floor now g \<longleftrightarrow> leaseActive g \<and> Before now (leaseDeadline g) \<or> Before now (readyGraceUntil g)"

definition Demand :: "time \<Rightarrow> gateway \<Rightarrow> int" where
  "Demand now g =
     (if pending g > 0 then pending g else if lease_floor now g then 1 else 0)"

text \<open>The part of \<open>notifyDemandChange\<close> after the demand was computed.\<close>

definition publish_demand :: "int \<Rightarrow> gateway \<Rightarrow> gateway" where
  "publish_demand d g =
     (let (activated, s) = Publish d (demands g);
          mm = (m g)\<lparr>m_demand := float64_of_int d\<rparr>
      in g\<lparr>demands := s,
           m := (if activated then mm\<lparr>m_activationEvents := m_activationEvents mm + 1\<rparr> else mm)\<rparr>)"

definition notifyDemandChange :: "time \<Rightarrow> gateway \<Rightarrow> gateway" where
  "notifyDemandChange now g = publish_demand (Demand now g) g"

text \<open>
  \<open>changePending\<close> adds to the atomic counter and then sets the gauge to the sum it got: two
  operations, between which other goroutines run.
\<close>

definition add_pending :: "int \<Rightarrow> gateway \<Rightarrow> int \<times> gateway" where
  "add_pending delta g = (let p = wrap64 (pending g + delta) in (p, g\<lparr>pending := p\<rparr>))"

definition set_pending_gauge :: "int \<Rightarrow> gateway \<Rightarrow> gateway" where
  "set_pending_gauge p g = g\<lparr>m := (m g)\<lparr>m_pending := float64_of_int p\<rparr>\<rparr>"

definition changePending :: "int \<Rightarrow> time \<Rightarrow> gateway \<Rightarrow> gateway" where
  "changePending delta now g =
     (let (p, g) = add_pending delta g in notifyDemandChange now (set_pending_gauge p g))"

definition SubscribeDemand :: "time \<Rightarrow> gateway \<Rightarrow> subscription \<times> gateway" where
  "SubscribeDemand now g =
     (let (h, s) = Subscribe (Demand now g) (demands g) in (h, g\<lparr>demands := s\<rparr>))"

definition ScalerStreamConnected :: "gateway \<Rightarrow> gateway" where
  "ScalerStreamConnected g = g\<lparr>m := (m g)\<lparr>m_scalerStreams := m_scalerStreams (m g) + 1\<rparr>\<rparr>"

definition ScalerStreamDisconnected :: "gateway \<Rightarrow> gateway" where
  "ScalerStreamDisconnected g = g\<lparr>m := (m g)\<lparr>m_scalerStreams := m_scalerStreams (m g) - 1\<rparr>\<rparr>"

definition recordDemandReport :: "string \<Rightarrow> gateway \<Rightarrow> gateway" where
  "recordDemandReport result g = g\<lparr>m := (m g)\<lparr>m_demandReports := inc result (m_demandReports (m g))\<rparr>\<rparr>"


subsection \<open>Frame lemmas\<close>

lemma publish_demand_frame [frame_simps]:
  "cfg (publish_demand d g) = cfg g" "sem_used (publish_demand d g) = sem_used g"
  "sem_cap (publish_demand d g) = sem_cap g" "pending (publish_demand d g) = pending g"
  "leaseActive (publish_demand d g) = leaseActive g" "leaseDeadline (publish_demand d g) = leaseDeadline g"
  "readyGraceUntil (publish_demand d g) = readyGraceUntil g" "leaseWatcher (publish_demand d g) = leaseWatcher g"
  "probeDone (publish_demand d g) = probeDone g" "closed (publish_demand d g) = closed g"
  "demands (publish_demand d g) = snd (Publish d (demands g))"
  "m_pending (m (publish_demand d g)) = m_pending (m g)"
  "m_demand (m (publish_demand d g)) = float64_of_int d"
  by (simp_all add: publish_demand_def Let_def case_prod_unfold)

lemma add_pending_frame [frame_simps]:
  "cfg (snd (add_pending d g)) = cfg g" "sem_used (snd (add_pending d g)) = sem_used g"
  "sem_cap (snd (add_pending d g)) = sem_cap g" "demands (snd (add_pending d g)) = demands g"
  "leaseActive (snd (add_pending d g)) = leaseActive g" "leaseDeadline (snd (add_pending d g)) = leaseDeadline g"
  "readyGraceUntil (snd (add_pending d g)) = readyGraceUntil g" "leaseWatcher (snd (add_pending d g)) = leaseWatcher g"
  "probeDone (snd (add_pending d g)) = probeDone g" "closed (snd (add_pending d g)) = closed g"
  "m (snd (add_pending d g)) = m g"
  "pending (snd (add_pending d g)) = wrap64 (pending g + d)" "fst (add_pending d g) = wrap64 (pending g + d)"
  by (simp_all add: add_pending_def Let_def)

lemma set_pending_gauge_frame [frame_simps]:
  "cfg (set_pending_gauge p g) = cfg g" "sem_used (set_pending_gauge p g) = sem_used g"
  "sem_cap (set_pending_gauge p g) = sem_cap g" "demands (set_pending_gauge p g) = demands g"
  "leaseActive (set_pending_gauge p g) = leaseActive g" "leaseDeadline (set_pending_gauge p g) = leaseDeadline g"
  "readyGraceUntil (set_pending_gauge p g) = readyGraceUntil g" "leaseWatcher (set_pending_gauge p g) = leaseWatcher g"
  "probeDone (set_pending_gauge p g) = probeDone g" "closed (set_pending_gauge p g) = closed g"
  "pending (set_pending_gauge p g) = pending g" "m_demand (m (set_pending_gauge p g)) = m_demand (m g)"
  "m_pending (m (set_pending_gauge p g)) = float64_of_int p"
  by (simp_all add: set_pending_gauge_def)

end
