(* ===== verification/Gateway_Resources.thy ===== *)
theory Gateway_Resources
  imports Backend_Resources Aggregator Gateway
begin

section \<open>The gateway and scaler workloads\<close>

text \<open>
  \<open>internal/backend/resources\<close>: \<open>security.go\<close>, \<open>scaler.go\<close> and \<open>gateway.go\<close>, which render the
  gateway and, with more than one gateway replica, the demand aggregator with the secret both share.
  The text of a duration and the random source of the token are parameters.
\<close>

subsection \<open>Environment names of the gateway process\<close>

definition EnvListenAddr :: string where "EnvListenAddr = ''NOCTAYA_LISTEN_ADDR''"
definition EnvDemandAggregatorURL :: string where "EnvDemandAggregatorURL = ''NOCTAYA_DEMAND_AGGREGATOR_URL''"
definition EnvGatewayID :: string where "EnvGatewayID = ''NOCTAYA_GATEWAY_ID''"
definition EnvScalerListenAddr :: string where "EnvScalerListenAddr = ''NOCTAYA_SCALER_LISTEN_ADDR''"
definition EnvAggregatorListenAddr :: string where "EnvAggregatorListenAddr = ''NOCTAYA_AGGREGATOR_LISTEN_ADDR''"
definition EnvMaxGatewayMembers :: string where "EnvMaxGatewayMembers = ''NOCTAYA_MAX_GATEWAY_MEMBERS''"
definition EnvMaxGatewayDemand :: string where "EnvMaxGatewayDemand = ''NOCTAYA_MAX_GATEWAY_DEMAND''"
definition EnvTLSCertFile :: string where "EnvTLSCertFile = ''NOCTAYA_SCALER_TLS_CERT_FILE''"
definition EnvTLSKeyFile :: string where "EnvTLSKeyFile = ''NOCTAYA_SCALER_TLS_KEY_FILE''"
definition EnvTLSClientCAFile :: string where "EnvTLSClientCAFile = ''NOCTAYA_SCALER_TLS_CLIENT_CA_FILE''"

lemmas env_names = EnvListenAddr_def EnvDemandAggregatorURL_def EnvGatewayID_def EnvScalerListenAddr_def
  EnvAggregatorListenAddr_def EnvMaxGatewayMembers_def EnvMaxGatewayDemand_def EnvTLSCertFile_def EnvTLSKeyFile_def
  EnvTLSClientCAFile_def EnvBackendURL_def EnvMaxQueue_def EnvActivationTimeout_def EnvColdStartMode_def
  EnvHeartbeatInterval_def EnvClientAPIKeyFile_def EnvAuthTokenFile_def

subsection \<open>Names and labels\<close>

definition gatewayPort :: int where "gatewayPort = 8080"
definition defaultGatewayReplicas :: int where "defaultGatewayReplicas = 1"
definition gatewayLabel :: string where "gatewayLabel = ''serving.noctaya.io/gateway''"
definition gatewayScalerPort :: int where "gatewayScalerPort = 9090"
definition gatewayAggregatorPort :: int where "gatewayAggregatorPort = 9091"
definition scalerLabel :: string where "scalerLabel = ''serving.noctaya.io/scaler''"
definition gatewayScalerSvcSuffix :: string where "gatewayScalerSvcSuffix = ''-scaler''"
definition portNameGRPC :: string where "portNameGRPC = ''grpc''"
definition scalerTLSVolumeName :: string where "scalerTLSVolumeName = ''external-scaler-tls''"
definition scalerTLSMountPath :: string where "scalerTLSMountPath = ''/var/run/noctaya/scaler-tls''"
definition demandAuthSecretSuffix :: string where "demandAuthSecretSuffix = ''-demand-auth''"
definition demandAuthVolumeName :: string where "demandAuthVolumeName = ''demand-auth''"
definition demandAuthMountPath :: string where "demandAuthMountPath = ''/var/run/noctaya/demand-auth''"
definition demandAuthTokenKey :: string where "demandAuthTokenKey = ''token''"
definition demandAuthTokenPath :: string where "demandAuthTokenPath = demandAuthMountPath @ ''/'' @ demandAuthTokenKey"
definition clientAuthVolumeName :: string where "clientAuthVolumeName = ''client-auth''"
definition clientAuthMountPath :: string where "clientAuthMountPath = ''/var/run/noctaya/client-auth''"
definition clientAPIKeyPath :: string where "clientAPIKeyPath = clientAuthMountPath @ ''/api-key''"

definition ValidateGatewayReplicas :: "int \<Rightarrow> string option" where
  "ValidateGatewayReplicas replicas =
     (if replicas < 1 then Some ''gateway replicas must be at least 1''
      else if replicas > 2 ^ 31 - 1 then Some ''gateway replicas must fit in a Kubernetes int32 field''
      else None)"

definition GatewayServiceName :: "LLMService \<Rightarrow> string" where
  "GatewayServiceName svc = svc_Name svc"

definition gatewaySelectorLabels :: "LLMService \<Rightarrow> (string, string) gomap" where
  "gatewaySelectorLabels svc =
     [(nameLabel, svc_Name svc @ ''-gateway''), (managedByLabel, managedByValue), (gatewayLabel, svc_Name svc)]"

definition gatewayServiceLabels :: "LLMService \<Rightarrow> (string, string) gomap" where
  "gatewayServiceLabels svc = AList.update llmServiceLabel (svc_Name svc) (gatewaySelectorLabels svc)"

definition GatewayScalerServiceName :: "LLMService \<Rightarrow> string" where
  "GatewayScalerServiceName svc = svc_Name svc @ gatewayScalerSvcSuffix"

definition GatewayScalerAddress :: "LLMService \<Rightarrow> string" where
  "GatewayScalerAddress svc =
     GatewayScalerServiceName svc @ ''.'' @ svc_Namespace svc @ ''.svc:'' @ itoa gatewayScalerPort"

definition GatewayDemandReportURL :: "LLMService \<Rightarrow> string" where
  "GatewayDemandReportURL svc =
     ''http://'' @ GatewayScalerServiceName svc @ ''.'' @ svc_Namespace svc @ ''.svc:'' @ itoa gatewayAggregatorPort
       @ DemandReportPath"

definition DemandAuthSecretName :: "LLMService \<Rightarrow> string" where
  "DemandAuthSecretName svc = svc_Name svc @ demandAuthSecretSuffix"

definition scalerSelectorLabels :: "LLMService \<Rightarrow> (string, string) gomap" where
  "scalerSelectorLabels svc =
     [(nameLabel, svc_Name svc @ ''-scaler''), (managedByLabel, managedByValue), (scalerLabel, svc_Name svc)]"

subsection \<open>The shared secret\<close>

fun auth_error_text :: "auth_error \<Rightarrow> string" where
  "auth_error_text TokenFileRequired = ''demand authentication token file is required''"
| "auth_error_text (ReadTokenFailed e) = ''read demand authentication token: '' @ e"
| "auth_error_text TokenTooShort = ''demand authentication token must contain at least 32 characters''"

text \<open>\<open>rand\<close> is the outcome of filling 32 bytes from the random source.\<close>

definition BuildDemandAuthSecret :: "string + string \<Rightarrow> LLMService \<Rightarrow> int \<Rightarrow> string + secret option" where
  "BuildDemandAuthSecret rand svc gatewayReplicas =
     (if gatewayReplicas \<le> 1 then Inr None
      else case rand of
        Inl err \<Rightarrow> Inl (''generate demand authentication token: '' @ err)
      | Inr raw \<Rightarrow>
          Inr (Some \<lparr>sec_Meta = object_meta (DemandAuthSecretName svc) (svc_Namespace svc) (SelectorLabels svc),
                     sec_Type = ''Opaque'', sec_Data = [(demandAuthTokenKey, base64_raw_url raw)]\<rparr>))"

definition ValidateDemandAuthSecret :: "secret \<Rightarrow> string option" where
  "ValidateDemandAuthSecret sec =
     (case map_of (sec_Data sec) demandAuthTokenKey of
        None \<Rightarrow> Some (''demand authentication Secret '' @ om_Name (sec_Meta sec) @ '' is missing key '' @ Quote demandAuthTokenKey)
      | Some token \<Rightarrow>
          (case ValidateAuthToken token of
             Some err \<Rightarrow> Some (''demand authentication Secret '' @ om_Name (sec_Meta sec) @ '' is invalid: '' @ auth_error_text err)
           | None \<Rightarrow> None))"

subsection \<open>Pod settings\<close>

definition hardenNoctayaContainer :: "podSpec \<Rightarrow> podSpec" where
  "hardenNoctayaContainer pod =
     on_first (\<lambda>c. c\<lparr>ct_SecurityContext := Some \<lparr>sc_AllowPrivilegeEscalation = False, sc_ReadOnlyRootFilesystem = True,
                                                sc_Drop = [''ALL'']\<rparr>\<rparr>)
       ((disableServiceAccountToken pod)\<lparr>ps_SecurityContext :=
          Some \<lparr>psc_RunAsNonRoot = True, psc_RunAsUser = 65532, psc_RunAsGroup = 65532, psc_FSGroup = 65532,
                psc_Seccomp = ''RuntimeDefault''\<rparr>\<rparr>)"

text \<open>A secret volume, its mount in the first container and the variables that name its files.\<close>

definition mount_secret ::
  "string \<Rightarrow> string \<Rightarrow> (string \<times> string) list \<Rightarrow> string \<Rightarrow> envVar list \<Rightarrow> podSpec \<Rightarrow> podSpec" where
  "mount_secret volumeName secretName items mountPath env pod =
     on_first (add_env env)
       (on_first (add_mount \<lparr>vm_Name = volumeName, vm_MountPath = mountPath, vm_ReadOnly = True\<rparr>)
         (add_volume \<lparr>vol_Name = volumeName, vol_Source = SecretSource secretName 0x120 items\<rparr> pod))"

definition configureClientAuthentication :: "podSpec \<Rightarrow> LLMService \<Rightarrow> podSpec" where
  "configureClientAuthentication pod svc =
     (case ep_Authentication (sp_Endpoint (svc_Spec svc)) of
        None \<Rightarrow> pod
      | Some authentication \<Rightarrow>
          mount_secret clientAuthVolumeName (sk_Name (ea_SecretRef authentication))
            [(sk_Key (ea_SecretRef authentication), ''api-key'')] clientAuthMountPath
            [EnvVar EnvClientAPIKeyFile clientAPIKeyPath] pod)"

definition configureDemandAuth :: "podSpec \<Rightarrow> LLMService \<Rightarrow> podSpec" where
  "configureDemandAuth pod svc =
     mount_secret demandAuthVolumeName (DemandAuthSecretName svc) [] demandAuthMountPath
       [EnvVar EnvAuthTokenFile demandAuthTokenPath] pod"

definition configureExternalScalerTLS :: "podSpec \<Rightarrow> LLMService \<Rightarrow> podSpec" where
  "configureExternalScalerTLS pod svc =
     (case Option.bind (sc_ExternalScaler (sp_Scaling (svc_Spec svc))) es_TLS of
        None \<Rightarrow> pod
      | Some tls \<Rightarrow>
          mount_secret scalerTLSVolumeName (tls_ServerSecretName tls) [] scalerTLSMountPath
            [EnvVar EnvTLSCertFile (scalerTLSMountPath @ ''/tls.crt''), EnvVar EnvTLSKeyFile (scalerTLSMountPath @ ''/tls.key''),
             EnvVar EnvTLSClientCAFile (scalerTLSMountPath @ ''/ca.crt'')] pod)"

definition gatewayMaxQueue :: "LLMService \<Rightarrow> int" where
  "gatewayMaxQueue svc =
     (if ep_MaxQueue (sp_Endpoint (svc_Spec svc)) > 0 then ep_MaxQueue (sp_Endpoint (svc_Spec svc)) else DefaultMaxQueue)"

definition gatewayResourceList :: "GatewayComputeSpec \<Rightarrow> resource_list" where
  "gatewayResourceList spec =
     (let resources = (case gc_CPU spec of Some q \<Rightarrow> Some [(''cpu'', q)] | None \<Rightarrow> None)
      in case gc_Memory spec of
           Some q \<Rightarrow> Some (AList.update ''memory'' q (case resources of None \<Rightarrow> [] | Some r \<Rightarrow> r))
         | None \<Rightarrow> resources)"

definition gatewayResourceRequirements :: "GatewayResourceSpec \<Rightarrow> resourceRequirements" where
  "gatewayResourceRequirements spec =
     \<lparr>rr_Requests = gatewayResourceList (gr_Requests spec), rr_Limits = gatewayResourceList (gr_Limits spec)\<rparr>"

definition tcp_port :: "string \<Rightarrow> int \<Rightarrow> containerPort" where
  "tcp_port name n = \<lparr>cp_Name = name, cp_ContainerPort = n, cp_Protocol = ''TCP''\<rparr>"

definition service_port :: "string \<Rightarrow> int \<Rightarrow> int \<Rightarrow> servicePort" where
  "service_port name n target = \<lparr>sp_Name = name, sp_Port = n, sp_TargetPort = FromInt target, sp_Protocol = ''TCP''\<rparr>"

definition http_probe :: "string \<Rightarrow> int \<Rightarrow> probe" where
  "http_probe path n = \<lparr>pr_Path = path, pr_Port = FromInt n, pr_PeriodSeconds = 0, pr_FailureThreshold = 0\<rparr>"

subsection \<open>The gateway Deployment\<close>

definition gateway_env :: "(duration \<Rightarrow> string) \<Rightarrow> LLMService \<Rightarrow> int \<Rightarrow> envVar list" where
  "gateway_env durationString svc replicas =
     (let backendURL = ''http://'' @ BackendServiceName svc @ ''.'' @ svc_Namespace svc @ ''.svc:80'';
          env = [EnvVar EnvBackendURL backendURL, EnvVar EnvListenAddr ('':'' @ itoa gatewayPort),
                 EnvVar EnvMaxQueue (itoa (gatewayMaxQueue svc))];
          env = env @ (if replicas = 1 then [EnvVar EnvScalerListenAddr ('':'' @ itoa gatewayScalerPort)]
            else [EnvVar EnvDemandAggregatorURL (GatewayDemandReportURL svc),
                  \<lparr>env_Name = EnvGatewayID, env_Value = [], env_FieldPath = Some ''metadata.uid''\<rparr>]);
          timeout = sc_ActivationTimeout (sp_Scaling (svc_Spec svc));
          env = env @ (if timeout > 0 then [EnvVar EnvActivationTimeout (durationString timeout)] else []);
          coldStart = ep_ColdStart (sp_Endpoint (svc_Spec svc))
      in env @ (if cs_Mode coldStart \<noteq> [] then
                  EnvVar EnvColdStartMode (cs_Mode coldStart) #
                  (if cs_HeartbeatInterval coldStart > 0
                   then [EnvVar EnvHeartbeatInterval (durationString (cs_HeartbeatInterval coldStart))] else [])
                else []))"

definition gateway_ports :: "int \<Rightarrow> containerPort list" where
  "gateway_ports replicas =
     tcp_port portNameHTTP gatewayPort # (if replicas = 1 then [tcp_port portNameGRPC gatewayScalerPort] else [])"

definition gateway_pod :: "(duration \<Rightarrow> string) \<Rightarrow> LLMService \<Rightarrow> string \<Rightarrow> int \<Rightarrow> podSpec" where
  "gateway_pod durationString svc img replicas =
     (let pod = pod0\<lparr>ps_TerminationGracePeriodSeconds := Some 30,
            ps_Containers :=
              [container0\<lparr>ct_Name := ''gateway'', ct_Image := img, ct_Env := gateway_env durationString svc replicas,
                 ct_Ports := gateway_ports replicas,
                 ct_ReadinessProbe := Some (http_probe ''/healthz'' gatewayPort),
                 ct_LivenessProbe := Some (http_probe ''/healthz'' gatewayPort),
                 ct_Resources := gatewayResourceRequirements (ep_Resources (sp_Endpoint (svc_Spec svc)))\<rparr>]\<rparr>;
          pod = (if replicas > 1
                 then pod\<lparr>ps_Affinity := Some \<lparr>aa_Weight = 100, aa_MatchLabels = gatewaySelectorLabels svc,
                                             aa_TopologyKey = ''kubernetes.io/hostname''\<rparr>\<rparr> else pod);
          pod = configureClientAuthentication pod svc;
          pod = (if replicas = 1 then configureExternalScalerTLS pod svc else configureDemandAuth pod svc)
      in applyImagePullSecrets (hardenNoctayaContainer pod) svc)"

definition noctaya_deployment :: "string \<Rightarrow> string \<Rightarrow> (string, string) gomap \<Rightarrow> int \<Rightarrow> podSpec \<Rightarrow> deployment" where
  "noctaya_deployment name ns labels replicas pod =
     \<lparr>dep_Meta = object_meta name ns labels, dep_Replicas = Some replicas, dep_Selector = labels,
      dep_Template = \<lparr>pt_Labels = labels, pt_Annotations = [], pt_Spec = pod\<rparr>, dep_Status = deploymentStatus0\<rparr>"

definition BuildGatewayDeployment :: "(duration \<Rightarrow> string) \<Rightarrow> LLMService \<Rightarrow> string \<Rightarrow> int \<Rightarrow> string + deployment" where
  "BuildGatewayDeployment durationString svc img replicas =
     (if TrimSpace img = [] then Inl ''gateway image is required''
      else let replicas = (if replicas = 0 then defaultGatewayReplicas else replicas)
        in case ValidateGatewayReplicas replicas of
             Some err \<Rightarrow> Inl err
           | None \<Rightarrow>
               Inr (noctaya_deployment (svc_Name svc @ ''-gateway'') (svc_Namespace svc) (gatewaySelectorLabels svc) replicas
                 (gateway_pod durationString svc img replicas)))"

definition BuildGatewayPodDisruptionBudget :: "LLMService \<Rightarrow> int \<Rightarrow> podDisruptionBudget option" where
  "BuildGatewayPodDisruptionBudget svc replicas =
     (if replicas \<le> 1 then None
      else Some \<lparr>pdb_Meta = object_meta (svc_Name svc @ ''-gateway'') (svc_Namespace svc) (gatewayServiceLabels svc),
                 pdb_MinAvailable = FromInt 1, pdb_Selector = gatewaySelectorLabels svc\<rparr>)"

definition BuildGatewayService :: "LLMService \<Rightarrow> service" where
  "BuildGatewayService svc =
     \<lparr>ks_Meta = object_meta (GatewayServiceName svc) (svc_Namespace svc) (gatewayServiceLabels svc), ks_Type = [],
      ks_Selector = gatewaySelectorLabels svc, ks_Ports = [service_port portNameHTTP 80 gatewayPort]\<rparr>"

subsection \<open>The scaler Deployment and Service\<close>

definition scaler_env :: "LLMService \<Rightarrow> int \<Rightarrow> envVar list" where
  "scaler_env svc gatewayReplicas =
     [EnvVar EnvAggregatorListenAddr ('':'' @ itoa gatewayAggregatorPort), EnvVar EnvScalerListenAddr ('':'' @ itoa gatewayScalerPort),
      EnvVar EnvMaxGatewayMembers (itoa (max 16 (gatewayReplicas * 4))), EnvVar EnvMaxGatewayDemand (itoa (gatewayMaxQueue svc))]"

definition scaler_pod :: "LLMService \<Rightarrow> string \<Rightarrow> int \<Rightarrow> podSpec" where
  "scaler_pod svc img gatewayReplicas =
     (let pod = pod0\<lparr>ps_TerminationGracePeriodSeconds := Some 30,
            ps_Containers :=
              [container0\<lparr>ct_Name := ''scaler'', ct_Image := img, ct_Args := [''--mode=aggregator''],
                 ct_Env := scaler_env svc gatewayReplicas,
                 ct_Ports := [tcp_port portNameGRPC gatewayScalerPort, tcp_port portNameHTTP gatewayAggregatorPort],
                 ct_ReadinessProbe := Some (http_probe ''/readyz'' gatewayAggregatorPort),
                 ct_LivenessProbe := Some (http_probe ''/readyz'' gatewayAggregatorPort)\<rparr>]\<rparr>
      in applyImagePullSecrets
           (hardenNoctayaContainer (configureExternalScalerTLS (configureDemandAuth pod svc) svc)) svc)"

definition BuildGatewayScalerDeployment :: "LLMService \<Rightarrow> string \<Rightarrow> int \<Rightarrow> deployment option" where
  "BuildGatewayScalerDeployment svc img gatewayReplicas =
     (if gatewayReplicas \<le> 1 then None
      else Some (noctaya_deployment (GatewayScalerServiceName svc) (svc_Namespace svc) (scalerSelectorLabels svc) 1
        (scaler_pod svc img gatewayReplicas)))"

definition BuildGatewayScalerService :: "LLMService \<Rightarrow> int \<Rightarrow> service" where
  "BuildGatewayScalerService svc replicas =
     \<lparr>ks_Meta = object_meta (GatewayScalerServiceName svc) (svc_Namespace svc) (gatewayServiceLabels svc),
      ks_Type = ''ClusterIP'',
      ks_Selector = (if replicas > 1 then scalerSelectorLabels svc else gatewaySelectorLabels svc),
      ks_Ports = service_port portNameGRPC gatewayScalerPort gatewayScalerPort #
        (if replicas > 1 then [service_port portNameHTTP gatewayAggregatorPort gatewayAggregatorPort] else [])\<rparr>"

subsection \<open>The environment of a container\<close>

text \<open>
  What \<open>os.Getenv\<close> reads in a container: the value of the first entry of that name, the identity of
  the pod for an entry that refers to it, and the empty string for a name without an entry. The names
  of the rendered lists are distinct.
\<close>

definition container_env :: "string \<Rightarrow> envVar list \<Rightarrow> string \<Rightarrow> string" where
  "container_env uid env name =
     (case find (\<lambda>e. env_Name e = name) env of
        None \<Rightarrow> []
      | Some e \<Rightarrow> (case env_FieldPath e of None \<Rightarrow> env_Value e | Some _ \<Rightarrow> uid))"

lemma container_env_simps [simp]:
  "container_env uid [] name = []"
  "container_env uid (EnvVar k v # es) name = (if k = name then v else container_env uid es name)"
  "container_env uid (\<lparr>env_Name = k, env_Value = v, env_FieldPath = Some p\<rparr> # es) name = (if k = name then uid else container_env uid es name)"
  by (simp_all add: container_env_def EnvVar_def)

lemma container_env_append:
  "container_env uid (es @ fs) name =
     (if name \<in> set (map env_Name es) then container_env uid es name else container_env uid fs name)"
  by (induction es) (auto simp: container_env_def)

definition client_auth_env :: "LLMService \<Rightarrow> envVar list" where
  "client_auth_env svc =
     (if ep_Authentication (sp_Endpoint (svc_Spec svc)) = None then [] else [EnvVar EnvClientAPIKeyFile clientAPIKeyPath])"

definition scaler_tls_env :: "LLMService \<Rightarrow> envVar list" where
  "scaler_tls_env svc =
     (if Option.bind (sc_ExternalScaler (sp_Scaling (svc_Spec svc))) es_TLS = None then []
      else [EnvVar EnvTLSCertFile (scalerTLSMountPath @ ''/tls.crt''), EnvVar EnvTLSKeyFile (scalerTLSMountPath @ ''/tls.key''),
            EnvVar EnvTLSClientCAFile (scalerTLSMountPath @ ''/ca.crt'')])"

lemmas workload_defs = gateway_pod_def scaler_pod_def configureClientAuthentication_def configureDemandAuth_def
  configureExternalScalerTLS_def mount_secret_def hardenNoctayaContainer_def applyImagePullSecrets_def
  disableServiceAccountToken_def client_auth_env_def scaler_tls_env_def

lemma gateway_pod_env:
  "map ct_Env (ps_Containers (gateway_pod ds svc img r)) =
     [gateway_env ds svc r @ client_auth_env svc
      @ (if r = 1 then scaler_tls_env svc else [EnvVar EnvAuthTokenFile demandAuthTokenPath])]"
  by (simp add: workload_defs Let_def split: option.split)

lemma scaler_pod_env:
  "map ct_Env (ps_Containers (scaler_pod svc img r)) =
     [scaler_env svc r @ [EnvVar EnvAuthTokenFile demandAuthTokenPath] @ scaler_tls_env svc]"
  by (simp add: workload_defs Let_def split: option.split)

lemma gateway_pod_ports: "map ct_Ports (ps_Containers (gateway_pod ds svc img r)) = [gateway_ports r]"
  by (simp add: workload_defs Let_def split: option.split)

lemma scaler_pod_ports:
  "map ct_Ports (ps_Containers (scaler_pod svc img r)) =
     [[tcp_port portNameGRPC gatewayScalerPort, tcp_port portNameHTTP gatewayAggregatorPort]]"
  by (simp add: workload_defs Let_def split: option.split)

lemma env_distinct:
  "distinct [EnvListenAddr, EnvDemandAggregatorURL, EnvGatewayID, EnvScalerListenAddr, EnvAggregatorListenAddr,
     EnvMaxGatewayMembers, EnvMaxGatewayDemand, EnvTLSCertFile, EnvTLSKeyFile, EnvTLSClientCAFile, EnvBackendURL, EnvMaxQueue,
     EnvActivationTimeout, EnvColdStartMode, EnvHeartbeatInterval, EnvClientAPIKeyFile, EnvAuthTokenFile]"
  by (simp add: env_names)

lemma env_distinct_reversed:
  "distinct [EnvAuthTokenFile, EnvClientAPIKeyFile, EnvHeartbeatInterval, EnvColdStartMode, EnvActivationTimeout, EnvMaxQueue,
     EnvBackendURL, EnvTLSClientCAFile, EnvTLSKeyFile, EnvTLSCertFile, EnvMaxGatewayDemand, EnvMaxGatewayMembers,
     EnvAggregatorListenAddr, EnvScalerListenAddr, EnvGatewayID, EnvDemandAggregatorURL, EnvListenAddr]"
  using distinct_rev [THEN iffD2, OF env_distinct] by (simp only: rev.simps append.simps)

lemmas env_neq = env_distinct [simplified] env_distinct_reversed [simplified]

lemma env_Name_EnvVar [simp]: "env_Name (EnvVar k v) = k"
  by (simp add: EnvVar_def)

lemma container_env_concat:
  "container_env uid (es @ fs) name =
     (if list_ex (\<lambda>e. env_Name e = name) es then container_env uid es name else container_env uid fs name)"
  unfolding container_env_append by (auto simp: list_ex_iff)

lemmas rendered_env = container_env_concat gateway_env_def client_auth_env_def scaler_tls_env_def scaler_env_def Let_def
  env_neq

subsection \<open>Properties\<close>

lemma base64_visible_trim: "TrimSpace (base64_raw_url bs) = base64_raw_url bs"
  by (rule TrimSpace_visible) (auto intro: base64_raw_url_visible)

text \<open>
  The generated token is usable by both ends: a secret built from 32 random bytes passes its own
  validation, and a gateway or aggregator that reads the mounted key file obtains exactly the encoded
  token, 43 characters long.
\<close>

theorem demand_secret_roundtrip:
  assumes "length raw = 32" and "1 < replicas" and "path \<noteq> []"
  shows "\<exists>sec token. BuildDemandAuthSecret (Inr raw) svc replicas = Inr (Some sec)
    \<and> ValidateDemandAuthSecret sec = None \<and> map_of (sec_Data sec) demandAuthTokenKey = Some token
    \<and> ReadAuthToken [path \<mapsto> token] path = Inr token \<and> length token = 43"
proof -
  have len: "length (base64_raw_url raw) = 43" using assms(1) by (simp add: length_base64_raw_url)
  then show ?thesis
    using assms(2,3)
    by (simp add: BuildDemandAuthSecret_def ValidateDemandAuthSecret_def ReadAuthToken_def ValidateAuthToken_def
        base64_visible_trim Let_def)
qed

theorem demand_secret_roundtrip_witness:
  "\<exists>sec token. BuildDemandAuthSecret (Inr (replicate 32 CHR ''x'')) example_svc 3 = Inr (Some sec)
    \<and> ValidateDemandAuthSecret sec = None \<and> map_of (sec_Data sec) demandAuthTokenKey = Some token
    \<and> ReadAuthToken [''/token'' \<mapsto> token] ''/token'' = Inr token \<and> length token = 43"
  using demand_secret_roundtrip [of "replicate 32 CHR ''x''" 3 "''/token''" example_svc] by simp

text \<open>
  The three workloads of a service never select each other's pods, also across services of one
  namespace: the selector of the backend, of the gateway and of the scaler matches the labels of a pod
  template of the same workload of the same service and of nothing else.
\<close>

theorem workload_selectors_disjoint:
  "(selects (SelectorLabels a) (podLabels b rt) \<longleftrightarrow> svc_Name a = svc_Name b)
   \<and> (selects (gatewaySelectorLabels a) (gatewaySelectorLabels b) \<longleftrightarrow> svc_Name a = svc_Name b)
   \<and> (selects (scalerSelectorLabels a) (scalerSelectorLabels b) \<longleftrightarrow> svc_Name a = svc_Name b)
   \<and> \<not> selects (SelectorLabels a) (gatewaySelectorLabels b) \<and> \<not> selects (SelectorLabels a) (scalerSelectorLabels b)
   \<and> \<not> selects (gatewaySelectorLabels a) (podLabels b rt) \<and> \<not> selects (gatewaySelectorLabels a) (scalerSelectorLabels b)
   \<and> \<not> selects (scalerSelectorLabels a) (podLabels b rt) \<and> \<not> selects (scalerSelectorLabels a) (gatewaySelectorLabels b)"
  by (auto simp: selects_def podLabels_def SelectorLabels_def gatewaySelectorLabels_def scalerSelectorLabels_def label_defs
      gatewayLabel_def scalerLabel_def)

text \<open>
  An address leads to the pods of a Deployment through a Service: it is the cluster name of the Service
  with one of its ports, the Service selects the pods in its namespace, and the target of the port is a
  container port of the pods on which the process listens, by the value of the environment variable \<open>listen\<close>.
\<close>

definition leads_to :: "string \<Rightarrow> service \<Rightarrow> string \<Rightarrow> deployment \<Rightarrow> bool" where
  "leads_to addr s listen dep \<longleftrightarrow>
     om_Namespace (ks_Meta s) = om_Namespace (dep_Meta dep) \<and> selects (ks_Selector s) (pt_Labels (dep_Template dep))
     \<and> ps_Containers (pt_Spec (dep_Template dep)) \<noteq> []
     \<and> (\<exists>p \<in> set (ks_Ports s). \<exists>n.
          addr = om_Name (ks_Meta s) @ ''.'' @ om_Namespace (ks_Meta s) @ ''.svc:'' @ itoa (sp_Port p)
          \<and> resolves (sp_TargetPort p) (pt_Spec (dep_Template dep)) = Some n
          \<and> list_all (\<lambda>ports. n \<in> set (map cp_ContainerPort ports)) (map ct_Ports (ps_Containers (pt_Spec (dep_Template dep))))
          \<and> list_all (\<lambda>env. \<forall>uid. container_env uid env listen = '':'' @ itoa n)
              (map ct_Env (ps_Containers (pt_Spec (dep_Template dep)))))"

lemma workload_selected:
  "selects (gatewaySelectorLabels svc) (gatewaySelectorLabels svc)" "selects (scalerSelectorLabels svc) (scalerSelectorLabels svc)"
  by (simp_all add: selects_def gatewaySelectorLabels_def scalerSelectorLabels_def label_defs gatewayLabel_def scalerLabel_def)

lemma pods_nonempty: "ps_Containers (gateway_pod ds svc img r) \<noteq> []" "ps_Containers (scaler_pod svc img r) \<noteq> []"
  using gateway_pod_ports [of ds svc img r] scaler_pod_ports [of svc img r] by auto

text \<open>The address that the rendered trigger names, and the one to which the gateways send their reports.\<close>

lemma gateway_answers_scaler:
  assumes "BuildGatewayDeployment ds svc img replicas = Inr gateway" and "replicas \<le> 1"
  shows "leads_to (GatewayScalerAddress svc) (BuildGatewayScalerService svc replicas) EnvScalerListenAddr gateway"
proof -
  have g: "gateway = noctaya_deployment (svc_Name svc @ ''-gateway'') (svc_Namespace svc) (gatewaySelectorLabels svc) 1 (gateway_pod ds svc img 1)"
    using assms by (auto simp: BuildGatewayDeployment_def ValidateGatewayReplicas_def defaultGatewayReplicas_def Let_def split: if_splits)
  show ?thesis
    using assms(2) workload_selected pods_nonempty
    by (simp add: g leads_to_def noctaya_deployment_def BuildGatewayScalerService_def gateway_pod_ports gateway_pod_env
        gateway_ports_def service_port_def tcp_port_def GatewayScalerAddress_def rendered_env)
qed

lemma aggregator_answers_scaler:
  assumes "1 < replicas"
  shows "\<exists>scaler. BuildGatewayScalerDeployment svc img replicas = Some scaler
    \<and> leads_to (GatewayScalerAddress svc) (BuildGatewayScalerService svc replicas) EnvScalerListenAddr scaler
    \<and> (\<exists>addr. GatewayDemandReportURL svc = ''http://'' @ addr @ DemandReportPath
         \<and> leads_to addr (BuildGatewayScalerService svc replicas) EnvAggregatorListenAddr scaler)"
  using assms workload_selected pods_nonempty
  by (simp add: BuildGatewayScalerDeployment_def leads_to_def noctaya_deployment_def BuildGatewayScalerService_def scaler_pod_ports
      scaler_pod_env service_port_def tcp_port_def GatewayScalerAddress_def GatewayDemandReportURL_def rendered_env)

lemma example_image: "TrimSpace ''gw:1'' = ''gw:1''"
  by (rule TrimSpace_visible) (simp add: visible_def)

lemma example_gateway_deployment:
  "1 \<le> r \<Longrightarrow> r < 2 ^ 31 \<Longrightarrow> \<exists>dep. BuildGatewayDeployment ds svc ''gw:1'' r = Inr dep"
  by (simp add: BuildGatewayDeployment_def ValidateGatewayReplicas_def example_image Let_def)

end
