(* ===== verification/Activation.thy ===== *)
theory Activation
  imports Gateway
begin

section \<open>Readiness probes, activation leases and waiting\<close>

text \<open>
  \<open>internal/gateway/proxy/activation.go\<close>. A loop takes the list of what each of its iterations
  observes: clock readings, the answer of the probe, whether the context is done, and what other
  goroutines do to the gateway while this one waits. When the list ends before the loop does,
  the result is \<open>None\<close>: the goroutine is still waiting.
\<close>

datatype activationWaitResult = activationReady | activationTimedOut | activationClientClosed

subsection \<open>The shared probe\<close>

text \<open>The status of the backend's answer to the health request, or \<open>None\<close> where the request fails.\<close>

definition probeBackend :: "nat option \<Rightarrow> bool" where
  "probeBackend response \<longleftrightarrow> (case response of None \<Rightarrow> False | Some status \<Rightarrow> status = StatusOK)"

record probe_iter =
  pi_now :: time
  pi_done :: bool
  pi_others :: "gateway \<Rightarrow> gateway"
  pi_response :: "nat option"
  pi_end :: time

fun backendReady :: "probe_iter list \<Rightarrow> gateway \<Rightarrow> bool option \<times> gateway" where
  "backendReady [] g = (None, g)"
| "backendReady (p # ps) g =
     (if \<not> IsZero (probeAt g) \<and> Sub (pi_now p) (probeAt g) < RetryInterval (cfg g)
      then (Some (probeReady g), g)
      else if probeDone g
      then if pi_done p then (Some False, pi_others p g) else backendReady ps (pi_others p g)
      else let g1 = pi_others p (g\<lparr>probeDone := True\<rparr>); ready = probeBackend (pi_response p)
        in (Some ready, g1\<lparr>probeAt := pi_end p, probeReady := ready, probeDone := False\<rparr>))"

subsection \<open>The activation lease\<close>

definition renew_lease :: "time \<Rightarrow> gateway \<Rightarrow> bool \<times> gateway" where
  "renew_lease now g =
     (let startWatcher = \<not> leaseWatcher g;
          g = g\<lparr>leaseActive := True, leaseDeadline := Add now (ActivationTimeout (cfg g))\<rparr>
      in (startWatcher, if startWatcher then g\<lparr>leaseWatcher := True\<rparr> else g))"

text \<open>The flag of the result says whether a goroutine \<open>watchActivation\<close> is started.\<close>

definition beginActivation :: "time \<Rightarrow> time \<Rightarrow> gateway \<Rightarrow> bool \<times> gateway" where
  "beginActivation now notifyNow g =
     (let (startWatcher, g) = renew_lease now g in (startWatcher, notifyDemandChange notifyNow g))"

definition end_lease :: "bool \<Rightarrow> time \<Rightarrow> gateway \<Rightarrow> bool \<times> gateway" where
  "end_lease ready now g =
     (if \<not> ready \<and> Before now (leaseDeadline g) then (False, g)
      else let g = g\<lparr>leaseActive := False, leaseWatcher := False\<rparr>
        in (True, if ready then g\<lparr>readyGraceUntil := Add now (ActivationGracePeriod (cfg g))\<rparr> else g))"

text \<open>The second result is the deadline for which \<open>notifyAfterGrace\<close> is started, if it is.\<close>

definition finishActivation :: "bool \<Rightarrow> time \<Rightarrow> time \<Rightarrow> gateway \<Rightarrow> bool \<times> time option \<times> gateway" where
  "finishActivation ready now notifyNow g =
     (let (finished, g) = end_lease ready now g
      in if \<not> finished then (False, None, g)
         else (True, if ready then Some (readyGraceUntil g) else None, notifyDemandChange notifyNow g))"

text \<open>The delay of the timer, and the notification after it unless the gateway is closed first.\<close>

definition grace_delay :: "time \<Rightarrow> time \<Rightarrow> duration" where
  "grace_delay deadline now = max 0 (deadline - now)"

definition notifyAfterGrace :: "time \<Rightarrow> time \<Rightarrow> bool \<Rightarrow> gateway \<Rightarrow> gateway" where
  "notifyAfterGrace deadline now done g =
     (if done then g else notifyDemandChange (now + grace_delay deadline now) g)"

record watch_iter =
  wi_done :: bool
  wi_now :: time
  wi_race :: "gateway \<Rightarrow> gateway"
  wi_finish :: time
  wi_notify :: time
  wi_probe :: "probe_iter list"
  wi_ready :: time
  wi_stop :: bool
  wi_others :: "gateway \<Rightarrow> gateway"

datatype watch_result = Watching | WatchClosed | WatchFinished "time option"

fun watchActivation :: "watch_iter list \<Rightarrow> gateway \<Rightarrow> watch_result \<times> gateway" where
  "watchActivation [] g = (Watching, g)"
| "watchActivation (it # its) g =
     (if wi_done it then (WatchClosed, g)
      else let deadline = leaseDeadline g;
               g = wi_race it g;
               (finished, grace, g) =
                 (if \<not> Before (wi_now it) deadline then finishActivation False (wi_finish it) (wi_notify it) g
                  else (False, None, g))
        in if finished then (WatchFinished grace, g)
           else case backendReady (wi_probe it) g of
               (None, g) \<Rightarrow> (Watching, g)
             | (Some ready, g) \<Rightarrow>
                 if ready
                 then let (finished, grace, g) = finishActivation True (wi_ready it) (wi_notify it) g
                   in (WatchFinished grace, g)
                 else if wi_stop it then (WatchClosed, g)
                 else watchActivation its (wi_others it g))"

subsection \<open>Waiting for the backend\<close>

record wait_iter =
  wt_ctxErr :: bool
  wt_probe :: "probe_iter list"
  wt_now :: time
  wt_beat :: time
  wt_writeOk :: bool
  wt_last :: time
  wt_done :: bool
  wt_others :: "gateway \<Rightarrow> gateway"

fun wait_loop :: "time \<Rightarrow> wait_iter list \<Rightarrow> gateway \<Rightarrow> activationWaitResult option \<times> gateway" where
  "wait_loop deadline [] g = (None, g)"
| "wait_loop deadline (it # its) g =
     (if wt_ctxErr it then (Some activationClientClosed, g)
      else case backendReady (wt_probe it) g of
          (None, g) \<Rightarrow> (None, g)
        | (Some ready, g) \<Rightarrow>
            if ready then (Some activationReady, g)
            else if After (wt_now it) deadline then (Some activationTimedOut, g)
            else if wt_done it then (Some activationClientClosed, g)
            else wait_loop deadline its (wt_others it g))"

definition waitForBackend :: "time \<Rightarrow> wait_iter list \<Rightarrow> gateway \<Rightarrow> activationWaitResult option \<times> gateway" where
  "waitForBackend now its g = wait_loop (Add now (ActivationTimeout (cfg g))) its g"

definition newline2 :: string where "newline2 = [byte 10, byte 10]"
definition heartbeat_text :: string where "heartbeat_text = '': heartbeat'' @ newline2"

fun hold_loop ::
  "time \<Rightarrow> time \<Rightarrow> wait_iter list \<Rightarrow> http_response \<Rightarrow> gateway \<Rightarrow> activationWaitResult option \<times> http_response \<times> gateway" where
  "hold_loop deadline lastBeat [] w g = (None, w, g)"
| "hold_loop deadline lastBeat (it # its) w g =
     (case backendReady (wt_probe it) g of
        (None, g) \<Rightarrow> (None, w, g)
      | (Some ready, g) \<Rightarrow>
          if ready then (Some activationReady, w, g)
          else if After (wt_now it) deadline then (Some activationTimedOut, w, g)
          else let beat = Sub (wt_beat it) lastBeat \<ge> HeartbeatInterval (cfg g)
            in if beat \<and> \<not> wt_writeOk it then (Some activationClientClosed, w, g)
               else let w = (if beat then WriteString heartbeat_text w else w);
                        lastBeat = (if beat then wt_last it else lastBeat)
                 in if wt_done it then (Some activationClientClosed, w, g)
                    else hold_loop deadline lastBeat its w (wt_others it g))"

text \<open>
  \<open>flusher\<close> says whether the writer supports flushing and \<open>ctxErr\<close> whether the context is already
  done. The second result says whether the response was committed.
\<close>

definition holdWithHeartbeat ::
  "bool \<Rightarrow> bool \<Rightarrow> time \<Rightarrow> time \<Rightarrow> wait_iter list \<Rightarrow> http_response \<Rightarrow> gateway \<Rightarrow>
     activationWaitResult option \<times> bool \<times> http_response \<times> gateway" where
  "holdWithHeartbeat ctxErr flusher now beatNow its w g =
     (if ctxErr then (Some activationClientClosed, False, w, g)
      else if \<not> flusher
      then let (res, g) = waitForBackend now its g in (res, False, w, g)
      else let w = WriteHeader StatusOK
                     (Header_Set ''Connection'' ''keep-alive''
                       (Header_Set ''Cache-Control'' ''no-cache''
                         (Header_Set ''Content-Type'' ''text/event-stream'' w)));
               (res, w, g) = hold_loop (Add now (ActivationTimeout (cfg g))) beatNow its w g
        in (res, True, w, g))"

definition writeStreamError :: "http_response \<Rightarrow> http_response" where
  "writeStreamError w =
     WriteString (''event: error'' @ [byte 10] @ ''data: backend activation timeout'' @ newline2) w"


subsection \<open>Waiting ends\<close>

text \<open>Every probe of the iteration returns.\<close>

definition probes_return :: "wait_iter list \<Rightarrow> bool" where
  "probes_return its \<longleftrightarrow> (\<forall>it \<in> set its. \<forall>g. fst (backendReady (wt_probe it) g) \<noteq> None)"

lemma probes_return_Cons:
  assumes "probes_return (it # its)"
  obtains r g' where "backendReady (wt_probe it) g = (Some r, g')"
  using assms by (metis list.set_intros(1) not_None_eq probes_return_def prod.collapse)

lemma hold_loop_returns:
  assumes "probes_return its" and "\<exists>it \<in> set its. deadline < wt_now it"
  shows "\<exists>res w' g'. hold_loop deadline lastBeat its w g = (Some res, w', g')"
  using assms
proof (induction its arbitrary: g w lastBeat)
  case (Cons it its)
  obtain r g' where p: "backendReady (wt_probe it) g = (Some r, g')" by (rule probes_return_Cons [OF Cons.prems(1)])
  have "probes_return its" using Cons.prems by (simp add: probes_return_def)
  note IH = Cons.IH [OF this]
  show ?case
  proof (cases "r \<or> deadline < wt_now it")
    case True
    then show ?thesis using p by (auto simp: After_def)
  next
    case False
    then have "\<exists>it \<in> set its. deadline < wt_now it" using Cons.prems(2) by auto
    with False p IH show ?thesis by (simp add: After_def Let_def)
  qed
qed simp

text \<open>The clock of the iterations: each waits at least one retry interval.\<close>

definition paced :: "duration \<Rightarrow> time \<Rightarrow> wait_iter list \<Rightarrow> bool" where
  "paced r now its \<longleftrightarrow> (\<forall>i < length its. now + int i * r \<le> wt_now (its ! i))"

lemma paced_passes_deadline:
  assumes "0 < r" and "0 \<le> T" and "paced r now its" and "T div r + 1 < int (length its)"
  shows "\<exists>it \<in> set its. now + T < wt_now it"
proof -
  let ?i = "nat (T div r + 1)"
  have d: "0 \<le> T div r" using assms by (simp add: pos_imp_zdiv_nonneg_iff)
  then have i: "?i < length its" and ii: "int ?i = T div r + 1" using assms(4) by auto
  have "T = T div r * r + T mod r" by simp
  moreover have "T mod r < r" using assms(1) by simp
  ultimately have "T < (T div r + 1) * r" by (simp only: distrib_right mult_1)
  then have "now + T < now + int ?i * r" using ii by simp
  also have "\<dots> \<le> wt_now (its ! ?i)" using assms(3) [unfolded paced_def] i by blast
  finally show ?thesis using i by auto
qed

text \<open>
  A wait that goes on through the first \<open>k\<close> iterations and ends in the next, with a result that is due in
  that iteration: ready when its probe succeeded, timed out when its clock is past the deadline, closed
  when it saw that the client went away.
\<close>

definition ends_in :: "time \<Rightarrow> (wait_iter list \<Rightarrow> activationWaitResult option) \<Rightarrow> wait_iter list \<Rightarrow> nat \<Rightarrow> bool" where
  "ends_in deadline run its k \<longleftrightarrow>
     k < length its \<and> run (take k its) = None
     \<and> (\<exists>res. run (take (Suc k) its) = Some res \<and> run its = Some res
          \<and> (res = activationReady \<longrightarrow> (\<exists>g. fst (backendReady (wt_probe (its ! k)) g) = Some True))
          \<and> (res = activationTimedOut \<longrightarrow> deadline < wt_now (its ! k))
          \<and> (res = activationClientClosed \<longrightarrow> wt_ctxErr (its ! k) \<or> wt_done (its ! k) \<or> \<not> wt_writeOk (its ! k)))"

lemma ends_in_first:
  assumes "run [] = None" and "\<And>xs. run (it # xs) = Some res"
    and "res = activationReady \<Longrightarrow> fst (backendReady (wt_probe it) g) = Some True"
    and "res = activationTimedOut \<Longrightarrow> deadline < wt_now it"
    and "res = activationClientClosed \<Longrightarrow> wt_ctxErr it \<or> wt_done it \<or> \<not> wt_writeOk it"
  shows "ends_in deadline run (it # its) 0"
  using assms by (auto simp: ends_in_def)

lemma ends_in_later:
  assumes "ends_in deadline run its k" and "\<And>xs. run' (it # xs) = run xs"
  shows "ends_in deadline run' (it # its) (Suc k)"
  using assms by (auto simp: ends_in_def)

definition ends_by :: "time \<Rightarrow> (wait_iter list \<Rightarrow> activationWaitResult option) \<Rightarrow> wait_iter list \<Rightarrow> bool" where
  "ends_by deadline run its \<longleftrightarrow> (\<exists>k. ends_in deadline run its k \<and> (\<forall>i < k. wt_now (its ! i) \<le> deadline))"

lemma ends_by_first: "ends_in deadline run its 0 \<Longrightarrow> ends_by deadline run its"
  by (auto simp: ends_by_def)

lemma ends_by_later:
  assumes "ends_by deadline run its" and "\<And>xs. run' (it # xs) = run xs" and "wt_now it \<le> deadline"
  shows "ends_by deadline run' (it # its)"
proof -
  obtain k where k: "ends_in deadline run its k" "\<forall>i < k. wt_now (its ! i) \<le> deadline" using assms(1) by (auto simp: ends_by_def)
  have "ends_in deadline run' (it # its) (Suc k)" by (rule ends_in_later [where run = run]) (rule k(1), rule assms(2))
  moreover have "\<forall>i < Suc k. wt_now ((it # its) ! i) \<le> deadline"
    using k(2) assms(3) by (simp add: nth_Cons split: nat.split)
  ultimately show ?thesis unfolding ends_by_def by blast
qed

lemma wait_loop_ends:
  assumes "probes_return its" and "\<exists>it \<in> set its. deadline < wt_now it"
  shows "ends_by deadline (\<lambda>its. fst (wait_loop deadline its g)) its"
  using assms
proof (induction its arbitrary: g)
  case (Cons it its)
  obtain r g' where p: "backendReady (wt_probe it) g = (Some r, g')" by (rule probes_return_Cons [OF Cons.prems(1)])
  have IH: "\<not> deadline < wt_now it \<Longrightarrow> ends_by deadline (\<lambda>its. fst (wait_loop deadline its g1)) its" for g1
    using Cons by (auto simp: probes_return_def)
  consider "wt_ctxErr it" | "\<not> wt_ctxErr it" "r" | "\<not> wt_ctxErr it" "\<not> r" "deadline < wt_now it"
    | "\<not> wt_ctxErr it" "\<not> r" "\<not> deadline < wt_now it" "wt_done it"
    | "\<not> wt_ctxErr it" "\<not> r" "\<not> deadline < wt_now it" "\<not> wt_done it" by blast
  then show ?case
  proof cases
    case 5
    then show ?thesis using p by (intro ends_by_later [OF IH [of "wt_others it g'"]]) (simp_all add: After_def)
  qed (use p in \<open>auto simp: After_def intro!: ends_by_first ends_in_first [where g = g]\<close>)
qed simp

lemma hold_loop_ends:
  assumes "probes_return its" and "\<exists>it \<in> set its. deadline < wt_now it"
  shows "ends_by deadline (\<lambda>its. fst (hold_loop deadline lastBeat its w g)) its"
  using assms
proof (induction its arbitrary: g w lastBeat)
  case (Cons it its)
  obtain r g' where p: "backendReady (wt_probe it) g = (Some r, g')" by (rule probes_return_Cons [OF Cons.prems(1)])
  have IH: "\<not> deadline < wt_now it \<Longrightarrow> ends_by deadline (\<lambda>its. fst (hold_loop deadline lb its w1 g1)) its" for lb w1 g1
    using Cons by (auto simp: probes_return_def)
  let ?beat = "HeartbeatInterval (cfg g') \<le> Sub (wt_beat it) lastBeat"
  let ?lb = "if ?beat then wt_last it else lastBeat" and ?w = "if ?beat then WriteString heartbeat_text w else w"
  consider "r" | "\<not> r" "deadline < wt_now it" | "\<not> r" "\<not> deadline < wt_now it" "?beat \<and> \<not> wt_writeOk it"
    | "\<not> r" "\<not> deadline < wt_now it" "\<not> (?beat \<and> \<not> wt_writeOk it)" "wt_done it"
    | "\<not> r" "\<not> deadline < wt_now it" "\<not> (?beat \<and> \<not> wt_writeOk it)" "\<not> wt_done it" by blast
  then show ?case
  proof cases
    case 5
    then show ?thesis using p
      by (intro ends_by_later [OF IH [of ?lb ?w "wt_others it g'"]]) (auto simp: After_def Let_def)
  qed (use p in \<open>auto simp: After_def Let_def intro!: ends_by_first ends_in_first [where g = g]\<close>)
qed simp

text \<open>With a paced clock such a wait has seen at most \<open>T / r + 2\<close> iterations.\<close>

lemma paced_ends:
  assumes "0 < r" and "0 \<le> T" and "paced r now its" and "ends_by (now + T) run its"
  shows "\<exists>k. int k \<le> T div r + 1 \<and> ends_in (now + T) run its k"
proof -
  obtain k where k: "ends_in (now + T) run its k" "\<forall>i < k. wt_now (its ! i) \<le> now + T" using assms(4) by (auto simp: ends_by_def)
  have "int k \<le> T div r + 1"
  proof (rule ccontr)
    assume late: "\<not> int k \<le> T div r + 1"
    have len: "k \<le> length its" using k(1) by (simp add: ends_in_def)
    then have "paced r now (take k its)" using assms(3) by (simp add: paced_def)
    from paced_passes_deadline [OF assms(1,2) this] late len
    obtain it where "it \<in> set (take k its)" "now + T < wt_now it" by auto
    with k(2) len show False by (auto simp: in_set_conv_nth)
  qed
  with k(1) show ?thesis by blast
qed

lemma WriteHeader_committed: "resp_committed (WriteHeader c w) \<and> resp_committed (WriteString t w)"
  by (simp add: WriteHeader_def WriteString_def Let_def)

text \<open>A committed response keeps its status and headers; the loop only appends to its body.\<close>

lemma hold_loop_response:
  assumes "hold_loop deadline lastBeat its w g = (res, w', g')" and "resp_committed w"
  shows "resp_committed w' \<and> resp_status w' = resp_status w \<and> resp_header w' = resp_header w \<and>
    (\<exists>k. resp_body w' = resp_body w @ concat (replicate k heartbeat_text))"
  using assms
proof (induction its arbitrary: g w lastBeat)
  case Nil
  then show ?case by (auto intro: exI [of _ "0"])
next
  case (Cons it its)
  obtain r g1 where p: "backendReady (wt_probe it) g = (r, g1)" by fastforce
  let ?hb = heartbeat_text and ?w = "w\<lparr>resp_body := resp_body w @ heartbeat_text\<rparr>"
  have ws: "WriteString ?hb w = ?w" using Cons.prems(2) by (simp add: WriteString_def WriteHeader_def)
  have zero: "\<exists>k. resp_body w = resp_body w @ concat (replicate k ?hb)" by (rule exI [of _ 0]) simp
  have one: "\<exists>k. resp_body w @ ?hb = resp_body w @ concat (replicate k ?hb)" by (rule exI [of _ 1]) simp
  have more: "\<exists>k. b = resp_body w @ concat (replicate k ?hb)"
    if "\<exists>k. b = resp_body ?w @ concat (replicate k ?hb)" for b
  proof -
    from that obtain k where "b = resp_body ?w @ concat (replicate k ?hb)" by blast
    then show ?thesis by (intro exI [of _ "Suc k"]) simp
  qed
  show ?case
  proof (cases r)
    case None
    then show ?thesis using Cons.prems p zero by auto
  next
    case (Some ready)
    let ?beat = "HeartbeatInterval (cfg g1) \<le> Sub (wt_beat it) lastBeat"
    show ?thesis
    proof (cases "ready \<or> After (wt_now it) deadline \<or> ?beat \<and> \<not> wt_writeOk it")
      case True
      then have "w' = w" using Cons.prems(1) p Some by (auto simp: Let_def split: if_splits)
      then show ?thesis using Cons.prems(2) zero by simp
    next
      case False
      show ?thesis
      proof (cases ?beat)
        case beat: True
        note IH = Cons.IH [of "wt_last it" ?w "wt_others it g1"]
        show ?thesis
        proof (cases "wt_done it")
          case True
          then have "w' = ?w" using False beat Cons.prems p Some by (simp add: Let_def ws)
          then show ?thesis using Cons.prems(2) one by simp
        next
          case more_iters: False
          have "hold_loop deadline (wt_last it) its ?w (wt_others it g1) = (res, w', g')"
            using False beat more_iters Cons.prems p Some by (simp add: Let_def ws)
          from IH [OF this] Cons.prems(2) more [of "resp_body w'"] show ?thesis by simp
        qed
      next
        case beat: False
        show ?thesis using False beat Cons.prems p Some Cons.IH [of lastBeat w "wt_others it g1"] zero
          by (auto simp: Let_def split: if_splits)
      qed
    qed
  qed
qed


subsection \<open>Properties\<close>


definition example_gateway :: gateway where
  "example_gateway = \<lparr>cfg = \<lparr>BackendURL = ''http://b'', MaxQueue = 2, ActivationTimeout = 10, RetryInterval = 5,
       ColdStartMode = ''keepalive'', HeartbeatInterval = 4, ClientAPIKeyFile = [], ActivationGracePeriod = 15\<rparr>,
     backend = \<lparr>url_Scheme = ''http'', url_Host = ''b'', url_String = ''http://b''\<rparr>,
     sem_used = 0, sem_cap = 2, pending = 0, m = newMetrics, closed = False,
     probeAt = 0, probeReady = False, probeDone = False, leaseActive = False, leaseDeadline = 0,
     readyGraceUntil = 0, leaseWatcher = False, demands = NewSubscriptions\<rparr>"

definition example_probe :: "time \<Rightarrow> nat option \<Rightarrow> probe_iter" where
  "example_probe t status = \<lparr>pi_now = t, pi_done = True, pi_others = (\<lambda>g. g), pi_response = status, pi_end = t\<rparr>"

definition example_iter :: "time \<Rightarrow> wait_iter" where
  "example_iter t = \<lparr>wt_ctxErr = False, wt_probe = [example_probe t None], wt_now = t, wt_beat = t,
     wt_writeOk = True, wt_last = t, wt_done = False, wt_others = (\<lambda>g. g)\<rparr>"


text \<open>
  C34. The activation lease: after \<open>beginActivation\<close> the demand stays at least one until the
  activation timeout, and a watcher that gives up before that is refused; once the backend is
  ready the demand stays at least one for the grace period; and the notification after the
  grace period publishes the number of pending requests, zero when there is none.
\<close>

theorem lease_keeps_demand:
  assumes "0 \<le> pending g" and "beginActivation now n1 g = (start, g1)"
    and "finishActivation True t n2 g1 = (fin, grace, g2)" and "subs_ok (demands g2)"
  shows "(\<forall>u. u < now + ActivationTimeout (cfg g) \<longrightarrow>
            1 \<le> Demand u g1 \<and> finishActivation False u n2 g1 = (False, None, g1))
    \<and> fin \<and> grace = Some (t + ActivationGracePeriod (cfg g))
    \<and> (\<forall>u. u < t + ActivationGracePeriod (cfg g) \<longrightarrow> 1 \<le> Demand u g2)
    \<and> Current (demands (notifyAfterGrace (t + ActivationGracePeriod (cfg g)) u False g2)) = pending g"
proof -
  have g1: "leaseActive g1" "leaseDeadline g1 = now + ActivationTimeout (cfg g)" "cfg g1 = cfg g" "pending g1 = pending g"
    using assms(2) by (auto simp: beginActivation_def renew_lease_def notifyDemandChange_def frame_simps Add_def Let_def
          split: if_splits)
  have g2: "\<not> leaseActive g2" "readyGraceUntil g2 = t + ActivationGracePeriod (cfg g)" "pending g2 = pending g" "fin"
    "grace = Some (t + ActivationGracePeriod (cfg g))"
    using assms(3) g1 by (auto simp: finishActivation_def end_lease_def notifyDemandChange_def frame_simps Add_def Let_def)
  have "1 \<le> Demand u g1 \<and> finishActivation False u n2 g1 = (False, None, g1)"
    if "u < now + ActivationTimeout (cfg g)" for u
    using that g1 by (simp add: Demand_def lease_floor_def Before_def finishActivation_def end_lease_def)
  moreover have "1 \<le> Demand u g2" if "u < t + ActivationGracePeriod (cfg g)" for u
    using that g2 by (simp add: Demand_def lease_floor_def Before_def)
  moreover have "Demand (u + grace_delay (t + ActivationGracePeriod (cfg g)) u) g2 = pending g"
    using g2 assms(1) by (simp add: Demand_def lease_floor_def Before_def grace_delay_def max_def)
  ultimately show ?thesis
    using g2 mailbox.publish_cur [OF assms(4)]
    by (simp add: notifyAfterGrace_def notifyDemandChange_def frame_simps Current_def)
qed

theorem lease_keeps_demand_witness:
  "Current (demands (notifyAfterGrace 65 60
     False (snd (snd (finishActivation True 50 50 (snd (beginActivation 45 45 example_gateway))))))) = 0"
proof -
  obtain start g1 where b: "beginActivation 45 45 example_gateway = (start, g1)" by fastforce
  obtain fin grace g2 where f: "finishActivation True 50 50 g1 = (fin, grace, g2)" by (metis surj_pair)
  have "subs_ok (demands g1)"
    using b subs_ok_new by (auto simp: beginActivation_def renew_lease_def notifyDemandChange_def frame_simps
        example_gateway_def subs_ok_publish)
  then have "subs_ok (demands g2)"
    using f by (auto simp: finishActivation_def end_lease_def notifyDemandChange_def frame_simps subs_ok_publish
        split: if_splits)
  then show ?thesis
    using lease_keeps_demand [OF _ b f, of 60] b f by (simp add: example_gateway_def)
qed

text \<open>Whether the last result of a probe is younger than the retry interval.\<close>

definition probe_fresh :: "time \<Rightarrow> gateway \<Rightarrow> bool" where
  "probe_fresh now g \<longleftrightarrow> \<not> IsZero (probeAt g) \<and> Sub now (probeAt g) < RetryInterval (cfg g)"

lemma backendReady_fresh: "probe_fresh (pi_now p) g \<Longrightarrow> backendReady (p # ps) g = (Some (probeReady g), g)"
  by (simp add: probe_fresh_def)

lemma backendReady_probes:
  assumes "\<not> probe_fresh (pi_now p) g" and "\<not> probeDone g"
  shows "backendReady (p # ps) g = (Some (pi_response p = Some 200),
    (pi_others p (g\<lparr>probeDone := True\<rparr>))\<lparr>probeAt := pi_end p, probeReady := (pi_response p = Some 200),
                                          probeDone := False\<rparr>)"
proof -
  have "probeBackend (pi_response p) = (pi_response p = Some 200)"
    by (simp add: probeBackend_def StatusOK_def split: option.split)
  then show ?thesis using assms by (simp add: Let_def flip: probe_fresh_def)
qed

lemma backendReady_waits:
  assumes "\<not> probe_fresh (pi_now p) g" and "probeDone g"
  shows "backendReady (p # ps) g =
    (if pi_done p then (Some False, pi_others p g) else backendReady ps (pi_others p g))"
  using assms by (simp flip: probe_fresh_def)

text \<open>
  The shared probe: while the last result is younger than the retry interval it is answered
  without a request; otherwise, when no probe is in flight, the caller probes, answers whether the
  status was 200 and leaves the result for the others; a caller that waits for another's probe
  takes the result of it when it looks within the retry interval.
\<close>

theorem backendReady_shares_probe:
  shows "(probe_fresh (pi_now p) g \<longrightarrow> backendReady (p # ps) g = (Some (probeReady g), g))
    \<and> (\<not> probe_fresh (pi_now p) g \<and> \<not> probeDone g \<longrightarrow>
        (\<exists>g'. backendReady (p # ps) g = (Some (pi_response p = Some 200), g')
          \<and> probeAt g' = pi_end p \<and> probeReady g' = (pi_response p = Some 200) \<and> \<not> probeDone g'))
    \<and> (\<not> probe_fresh (pi_now p) g \<and> probeDone g \<and> \<not> pi_done p \<and> probe_fresh (pi_now q) (pi_others p g) \<longrightarrow>
        backendReady (p # q # ps) g = (Some (probeReady (pi_others p g)), pi_others p g))"
  using backendReady_fresh [of p g ps] backendReady_probes [of p g ps] backendReady_waits [of p g "q # ps"]
    backendReady_fresh [of q "pi_others p g" ps] by simp

theorem backendReady_shares_probe_witness:
  "backendReady [example_probe 12 None] (snd (backendReady [example_probe 10 (Some 200)] example_gateway))
     = (Some True, snd (backendReady [example_probe 10 (Some 200)] example_gateway))"
proof -
  let ?p = "example_probe 10 (Some 200)" and ?q = "example_probe 12 None"
  have start: "\<not> probe_fresh (pi_now ?p) example_gateway" "\<not> probeDone example_gateway"
    by (simp_all add: probe_fresh_def example_gateway_def IsZero_def)
  then obtain g' where g': "backendReady [?p] example_gateway = (Some True, g')" "probeAt g' = 10" "probeReady g'"
    using backendReady_shares_probe [of ?p example_gateway "[]" ?p] by (auto simp: example_probe_def)
  have "RetryInterval (cfg g') = 5"
    using g'(1) backendReady_probes [OF start] by (auto simp: example_gateway_def example_probe_def)
  then have "probe_fresh (pi_now ?q) g'"
    using g' by (simp add: probe_fresh_def IsZero_def Sub_def example_probe_def MaxInt64_def)
  then show ?thesis using backendReady_shares_probe [of ?q g' "[]" ?q] g' by simp
qed

text \<open>
  A probe that fails because its own caller went away is shared as well: within the retry
  interval every other caller is told that the backend is not ready, whatever the backend would
  answer.
\<close>

theorem cancelled_probe_is_shared:
  assumes "\<not> probe_fresh (pi_now p) g" and "\<not> probeDone g" and "pi_response p = None"
    and "backendReady [p] g = (r, g')" and "probe_fresh (pi_now q) g'"
  shows "r = Some False \<and> fst (backendReady (q\<lparr>pi_response := Some 200\<rparr> # qs) g') = Some False"
  using assms backendReady_probes [OF assms(1,2), of "[]"]
    backendReady_fresh [of "q\<lparr>pi_response := Some 200\<rparr>" g' qs] by auto

theorem cancelled_probe_is_shared_witness:
  "fst (backendReady [(example_probe 12 None)\<lparr>pi_response := Some 200\<rparr>]
      (snd (backendReady [example_probe 10 None] example_gateway))) = Some False"
proof -
  let ?p = "example_probe 10 None" and ?q = "example_probe 12 None"
  have start: "\<not> probe_fresh (pi_now ?p) example_gateway" "\<not> probeDone example_gateway"
    by (simp_all add: probe_fresh_def example_gateway_def IsZero_def)
  obtain r g' where b: "backendReady [?p] example_gateway = (r, g')" by fastforce
  have "probe_fresh (pi_now ?q) g'"
    using b backendReady_probes [OF start, of "[]"]
    by (auto simp: probe_fresh_def IsZero_def Sub_def example_probe_def example_gateway_def MaxInt64_def)
  with cancelled_probe_is_shared [OF start _ b, of ?q "[]"] b show ?thesis by (simp add: example_probe_def)
qed
end
