(* ===== verification/Reporter.thy ===== *)
theory Reporter
  imports Activation Demand_Auth "HOL-Library.Sublist"
begin

section \<open>The demand reporter\<close>

text \<open>
  \<open>internal/gateway/proxy/reporter.go\<close>: the goroutine of a gateway that sends its demand to the
  aggregator, on every change and as a heartbeat. The HTTP client is a function on the state
  \<open>'n\<close> of what it talks to, and yields the status of the answer or \<open>None\<close> for an error; the JSON
  encoder, URL parsing, the random bytes and the file system are parameters.
\<close>

definition defaultReportHeartbeat :: duration where "defaultReportHeartbeat = 2 * Second"
definition defaultReportTimeout :: duration where "defaultReportTimeout = Second"

record DemandReporterConfig =
  rc_Endpoint :: string
  rc_GatewayID :: string
  rc_HeartbeatInterval :: duration
  rc_RequestTimeout :: duration
  rc_AuthTokenFile :: string

record DemandReporter =
  dr_endpoint :: string
  dr_memberID :: string
  dr_heartbeatInterval :: duration
  dr_requestTimeout :: duration
  dr_authTokenFile :: string
  dr_sequence :: uint64

record demandReport =
  out_MemberID :: string
  out_Sequence :: uint64
  out_Demand :: int

datatype reporter_error = GatewayRequired | EndpointInvalid | GatewayIDRequired | AuthTokenInvalid auth_error | NoRandom

text \<open>\<open>hasSource\<close> says whether the gateway is not nil; \<open>random\<close> is the result of reading twelve random bytes.\<close>

definition NewDemandReporter ::
  "(string \<Rightarrow> url option) \<Rightarrow> file_system \<Rightarrow> string option \<Rightarrow> bool \<Rightarrow> DemandReporterConfig \<Rightarrow> reporter_error + DemandReporter" where
  "NewDemandReporter parseURL readFile random hasSource c =
     (if \<not> hasSource then Inl GatewayRequired
      else let parsed = parseURL (rc_Endpoint c) in
        if \<not> absolute_http parsed then Inl EndpointInvalid
        else if rc_GatewayID c = [] then Inl GatewayIDRequired
        else case ReadAuthToken readFile (rc_AuthTokenFile c) of
          Inl e \<Rightarrow> Inl (AuthTokenInvalid e)
        | Inr _ \<Rightarrow>
            (case random of
               None \<Rightarrow> Inl NoRandom
             | Some sfx \<Rightarrow>
                 Inr \<lparr>dr_endpoint = TrimRightByte (url_String (the parsed)) (CHR ''/''),
                      dr_memberID = rc_GatewayID c @ ''/'' @ hex_encode sfx,
                      dr_heartbeatInterval =
                        (if rc_HeartbeatInterval c \<le> 0 then defaultReportHeartbeat else rc_HeartbeatInterval c),
                      dr_requestTimeout =
                        (if rc_RequestTimeout c \<le> 0 then defaultReportTimeout else rc_RequestTimeout c),
                      dr_authTokenFile = rc_AuthTokenFile c,
                      dr_sequence = 0\<rparr>))"

text \<open>The world of the reporter: the file system, the JSON encoder and the HTTP client.\<close>

record 'n report_net =
  rn_readFile :: file_system
  rn_encode :: "demandReport \<Rightarrow> string option"
  rn_newRequest :: "string \<Rightarrow> bool"
  rn_do :: "http_request \<Rightarrow> 'n \<Rightarrow> nat option \<times> 'n"

definition report_request :: "string \<Rightarrow> string \<Rightarrow> string \<Rightarrow> http_request" where
  "report_request endpoint body token =
     \<lparr>req_Method = ''POST'', req_Path = endpoint,
      req_Header = [(''Content-Type'', ''application/json''), (''Authorization'', AuthorizationValue token)],
      req_Body = Some body\<rparr>"

definition send ::
  "'n report_net \<Rightarrow> int \<Rightarrow> DemandReporter \<times> gateway \<times> 'n \<Rightarrow> DemandReporter \<times> gateway \<times> 'n" where
  "send net demand st =
     (let (r, g, n) = st;
          r = r\<lparr>dr_sequence := dr_sequence r + 1\<rparr>;
          failed = (r, recordDemandReport ''error'' g, n)
      in case rn_encode net \<lparr>out_MemberID = dr_memberID r, out_Sequence = dr_sequence r, out_Demand = demand\<rparr> of
           None \<Rightarrow> failed
         | Some body \<Rightarrow>
             if \<not> rn_newRequest net (dr_endpoint r) then failed
             else case ReadAuthToken (rn_readFile net) (dr_authTokenFile r) of
               Inl _ \<Rightarrow> failed
             | Inr token \<Rightarrow>
                 (case rn_do net (report_request (dr_endpoint r) body token) n of
                    (None, n) \<Rightarrow> (r, recordDemandReport ''error'' g, n)
                  | (Some status, n) \<Rightarrow>
                      if status \<noteq> StatusNoContent then (r, recordDemandReport ''error'' g, n)
                      else (r, recordDemandReport ''success'' g, n)))"

text \<open>
  What the \<open>select\<close> of \<open>Run\<close> takes: an update, a tick with the clock reading, the end of the context;
  in between other goroutines act on the gateway and on the other side of the network.
\<close>

datatype 'n report_event = TakeDemand | Heartbeat time | Stop | Meanwhile "gateway \<Rightarrow> gateway" "'n \<Rightarrow> 'n"

fun run_loop ::
  "'n report_net \<Rightarrow> subscription \<Rightarrow> 'n report_event list \<Rightarrow> DemandReporter \<times> gateway \<times> 'n \<Rightarrow> bool \<times> DemandReporter \<times> gateway \<times> 'n" where
  "run_loop net h [] st = (False, st)"
| "run_loop net h (Meanwhile f k # es) (r, g, n) = run_loop net h es (r, f g, k n)"
| "run_loop net h (TakeDemand # es) (r, g, n) =
     (case receive (sub_chan h) (demands g) of
        None \<Rightarrow> run_loop net h es (r, g, n)
      | Some (demand, s) \<Rightarrow> run_loop net h es (send net demand (r, g\<lparr>demands := s\<rparr>, n)))"
| "run_loop net h (Heartbeat now # es) (r, g, n) = run_loop net h es (send net (Demand now g) (r, g, n))"
| "run_loop net h (Stop # es) (r, g, n) = (True, send net 0 (r, g, n))"

definition Run ::
  "'n report_net \<Rightarrow> time \<Rightarrow> 'n report_event list \<Rightarrow> DemandReporter \<times> gateway \<times> 'n \<Rightarrow> bool \<times> DemandReporter \<times> gateway \<times> 'n" where
  "Run net now es st =
     (let (r, g, n) = st; (h, g) = SubscribeDemand now g; (stopped, r, g, n) = run_loop net h es (r, g, n)
      in if stopped then (stopped, r, g\<lparr>demands := snd (unsubscribe h (demands g))\<rparr>, n) else (stopped, r, g, n))"

subsection \<open>What a run sends\<close>

lemma send_reporter:
  assumes "send net d (r, g, n) = (r', g', n')"
  shows "r' = r\<lparr>dr_sequence := dr_sequence r + 1\<rparr> \<and> demands g' = demands g \<and> pending g' = pending g"
  using assms
  by (auto simp: send_def Let_def recordDemandReport_def split: option.splits sum.splits prod.splits if_splits)

text \<open>
  The requests that a run hands to the HTTP client, recorded by the client itself: a network whose state
  has a log beside it, to which every call of \<open>Do\<close> adds its request. Nothing else writes the log.
\<close>

definition record_net :: "'n report_net \<Rightarrow> ('n \<times> http_request list) report_net" where
  "record_net net =
     \<lparr>rn_readFile = rn_readFile net, rn_encode = rn_encode net, rn_newRequest = rn_newRequest net,
      rn_do = (\<lambda>q (n, log). case rn_do net q n of (res, n') \<Rightarrow> (res, n', log @ [q]))\<rparr>"

lemma record_net_simps [simp]:
  "rn_readFile (record_net net) = rn_readFile net" "rn_encode (record_net net) = rn_encode net"
  "rn_newRequest (record_net net) = rn_newRequest net"
  "rn_do (record_net net) q (n, log) = (case rn_do net q n of (res, n') \<Rightarrow> (res, n', log @ [q]))"
  by (simp_all add: record_net_def)

fun record_event :: "'n report_event \<Rightarrow> ('n \<times> 'l) report_event" where
  "record_event TakeDemand = TakeDemand"
| "record_event (Heartbeat now) = Heartbeat now"
| "record_event Stop = Stop"
| "record_event (Meanwhile f k) = Meanwhile f (\<lambda>(n, log). (k n, log))"

definition posted ::
  "'n report_net \<Rightarrow> subscription \<Rightarrow> 'n report_event list \<Rightarrow> DemandReporter \<times> gateway \<times> 'n \<Rightarrow> http_request list" where
  "posted net h es st =
     (case st of (r, g, n) \<Rightarrow>
        case run_loop (record_net net) h (map record_event es) (r, g, n, []) of (stopped, r, g, n, log) \<Rightarrow> log)"

text \<open>
  The demands that a run has to report, in order: the update it receives, the demand of the gateway at a
  tick, and zero at the end.
\<close>

fun taken ::
  "'n report_net \<Rightarrow> subscription \<Rightarrow> 'n report_event list \<Rightarrow> DemandReporter \<times> gateway \<times> 'n \<Rightarrow> int list" where
  "taken net h [] st = []"
| "taken net h (Meanwhile f k # es) (r, g, n) = taken net h es (r, f g, k n)"
| "taken net h (TakeDemand # es) (r, g, n) =
     (case receive (sub_chan h) (demands g) of
        None \<Rightarrow> taken net h es (r, g, n)
      | Some (demand, s) \<Rightarrow> demand # taken net h es (send net demand (r, g\<lparr>demands := s\<rparr>, n)))"
| "taken net h (Heartbeat now # es) (r, g, n) = Demand now g # taken net h es (send net (Demand now g) (r, g, n))"
| "taken net h (Stop # es) (r, g, n) = [0]"

text \<open>The reports that a member makes of a list of demands when its last sequence number is \<open>q\<close>.\<close>

primrec numbered :: "string \<Rightarrow> uint64 \<Rightarrow> int list \<Rightarrow> demandReport list" where
  "numbered mid q [] = []"
| "numbered mid q (d # ds) = \<lparr>out_MemberID = mid, out_Sequence = q + 1, out_Demand = d\<rparr> # numbered mid (q + 1) ds"

lemma length_numbered [simp]: "length (numbered mid q ds) = length ds"
  by (induction ds arbitrary: q) simp_all

lemma numbered_nth:
  "i < length ds \<Longrightarrow> numbered mid q ds ! i = \<lparr>out_MemberID = mid, out_Sequence = q + of_nat (Suc i), out_Demand = ds ! i\<rparr>"
  by (induction ds arbitrary: q i) (auto simp: nth_Cons add.assoc split: nat.splits)

text \<open>The request posts the report to the endpoint of the reporter, with the token of the shared Secret.\<close>

definition posts_report :: "'n report_net \<Rightarrow> DemandReporter \<Rightarrow> http_request \<Rightarrow> demandReport \<Rightarrow> bool" where
  "posts_report net r q x \<longleftrightarrow>
     req_Method q = ''POST'' \<and> req_Path q = dr_endpoint r \<and> req_Body q = rn_encode net x \<and> req_Body q \<noteq> None
     \<and> (\<exists>token. ReadAuthToken (rn_readFile net) (dr_authTokenFile r) = Inr token
          \<and> map_of (req_Header q) ''Authorization'' = Some (AuthorizationValue token))"

text \<open>Nothing fails on the side of the reporter: the encoder, the endpoint and the token.\<close>

definition can_send :: "'n report_net \<Rightarrow> DemandReporter \<Rightarrow> bool" where
  "can_send net r \<longleftrightarrow> (\<forall>x. rn_encode net x \<noteq> None) \<and> rn_newRequest net (dr_endpoint r)
     \<and> (\<exists>token. ReadAuthToken (rn_readFile net) (dr_authTokenFile r) = Inr token)"

lemma posts_report_sequence [simp]:
  "posts_report net (r\<lparr>dr_sequence := q\<rparr>) = posts_report net r" "can_send net (r\<lparr>dr_sequence := q\<rparr>) = can_send net r"
  by (simp_all add: posts_report_def can_send_def fun_eq_iff)

lemma send_posts:
  "\<exists>qs. send (record_net net) d (r, g, n, log) = (case send net d (r, g, n) of (r', g', n') \<Rightarrow> (r', g', n', log @ qs))
     \<and> (qs = [] \<and> \<not> can_send net r \<or>
        (\<exists>q. qs = [q] \<and> posts_report net r q \<lparr>out_MemberID = dr_memberID r, out_Sequence = dr_sequence r + 1, out_Demand = d\<rparr>))"
  by (auto simp: send_def Let_def can_send_def posts_report_def report_request_def split: option.split sum.split prod.split)

lemma run_posts:
  "\<exists>qs xs. run_loop (record_net net) h (map record_event es) (r, g, n, log)
       = (case run_loop net h es (r, g, n) of (stopped, r', g', n') \<Rightarrow> (stopped, r', g', n', log @ qs))
     \<and> list_all2 (posts_report net r) qs xs
     \<and> subseq xs (numbered (dr_memberID r) (dr_sequence r) (taken net h es (r, g, n)))
     \<and> (can_send net r \<longrightarrow> xs = numbered (dr_memberID r) (dr_sequence r) (taken net h es (r, g, n)))"
    (is "\<exists>qs xs. ?P es r g n log qs xs")
proof (induction es arbitrary: r g n log)
  case (Cons e es)
  have step: "\<exists>qs xs. run_loop (record_net net) h (map record_event es) (send (record_net net) d (r, g1, n, log))
        = (case run_loop net h es (send net d (r, g1, n)) of (stopped, r', g', n') \<Rightarrow> (stopped, r', g', n', log @ qs))
      \<and> list_all2 (posts_report net r) qs xs
      \<and> subseq xs (numbered (dr_memberID r) (dr_sequence r) (d # taken net h es (send net d (r, g1, n))))
      \<and> (can_send net r \<longrightarrow> xs = numbered (dr_memberID r) (dr_sequence r) (d # taken net h es (send net d (r, g1, n))))" for d g1
  proof -
    obtain r' g' n' where s: "send net d (r, g1, n) = (r', g', n')" by (metis prod.exhaust)
    have r': "r' = r\<lparr>dr_sequence := dr_sequence r + 1\<rparr>" using send_reporter [OF s] by simp
    obtain q0 where q0: "send (record_net net) d (r, g1, n, log) = (r', g', n', log @ q0)"
      "q0 = [] \<and> \<not> can_send net r \<or>
       (\<exists>q. q0 = [q] \<and> posts_report net r q \<lparr>out_MemberID = dr_memberID r, out_Sequence = dr_sequence r + 1, out_Demand = d\<rparr>)"
      using send_posts [of net d r g1 n log] s by auto
    obtain qs xs where IH: "?P es r' g' n' (log @ q0) qs xs" using Cons.IH by blast
    from q0(2) show ?thesis
    proof
      assume "q0 = [] \<and> \<not> can_send net r"
      with IH q0(1) s r' show ?thesis
        by (intro exI [of _ qs] exI [of _ xs]) (simp add: list_emb_Cons split: prod.splits)
    next
      assume "\<exists>q. q0 = [q] \<and> posts_report net r q \<lparr>out_MemberID = dr_memberID r, out_Sequence = dr_sequence r + 1, out_Demand = d\<rparr>"
      then obtain q where "q0 = [q]" "posts_report net r q \<lparr>out_MemberID = dr_memberID r, out_Sequence = dr_sequence r + 1, out_Demand = d\<rparr>"
        by blast
      with IH q0(1) s r' show ?thesis
        by (intro exI [of _ "q # qs"] exI [of _ "\<lparr>out_MemberID = dr_memberID r, out_Sequence = dr_sequence r + 1, out_Demand = d\<rparr> # xs"])
           (simp split: prod.splits)
    qed
  qed
  show ?case
  proof (cases e)
    case TakeDemand
    then show ?thesis
    proof (cases "receive (sub_chan h) (demands g)")
      case None
      with TakeDemand Cons.IH [of r g n log] show ?thesis by simp
    next
      case (Some ds)
      with TakeDemand step [of "fst ds" "g\<lparr>demands := snd ds\<rparr>"] show ?thesis by (cases ds) simp
    qed
  next
    case (Heartbeat now)
    with step [of "Demand now g" g] show ?thesis by simp
  next
    case Stop
    obtain r' g' n' where s: "send net 0 (r, g, n) = (r', g', n')" by (metis prod.exhaust)
    obtain q0 where q0: "send (record_net net) 0 (r, g, n, log) = (r', g', n', log @ q0)"
      "q0 = [] \<and> \<not> can_send net r \<or>
       (\<exists>q. q0 = [q] \<and> posts_report net r q \<lparr>out_MemberID = dr_memberID r, out_Sequence = dr_sequence r + 1, out_Demand = 0\<rparr>)"
      using send_posts [of net 0 r g n log] s by auto
    let ?x = "\<lparr>out_MemberID = dr_memberID r, out_Sequence = dr_sequence r + 1, out_Demand = 0\<rparr>"
    have "?P (e # es) r g n log q0 (if q0 = [] then [] else [?x])" using q0 s Stop by auto
    then show ?thesis by blast
  next
    case (Meanwhile f k)
    with Cons.IH [of r "f g" "k n" log] show ?thesis by simp
  qed
qed simp

lemma stopped_reports_zero:
  "fst (run_loop net h es (r, g, n)) \<Longrightarrow> taken net h es (r, g, n) \<noteq> [] \<and> last (taken net h es (r, g, n)) = 0"
proof (induction es arbitrary: r g n)
  case (Cons e es)
  have IH: "fst (run_loop net h es st) \<Longrightarrow> taken net h es st \<noteq> [] \<and> last (taken net h es st) = 0" for st
    using Cons.IH by (metis prod.exhaust)
  from Cons.prems show ?case by (cases e) (auto split: option.splits dest!: IH)
qed simp

lemma posted_reports:
  obtains xs where "list_all2 (posts_report net r) (posted net h es (r, g, n)) xs"
    and "subseq xs (numbered (dr_memberID r) (dr_sequence r) (taken net h es (r, g, n)))"
    and "can_send net r \<longrightarrow> xs = numbered (dr_memberID r) (dr_sequence r) (taken net h es (r, g, n))"
  using run_posts [of net h es r g n "[]"] by (fastforce simp: posted_def split: prod.splits)

lemma NewDemandReporter_Inr:
  assumes "NewDemandReporter parseURL readFile random hs c = Inr r"
  shows "\<exists>sfx token. random = Some sfx \<and> dr_memberID r = rc_GatewayID c @ ''/'' @ hex_encode sfx
    \<and> rc_GatewayID c \<noteq> [] \<and> dr_sequence r = 0 \<and> dr_authTokenFile r = rc_AuthTokenFile c
    \<and> ReadAuthToken readFile (rc_AuthTokenFile c) = Inr token
    \<and> 0 < dr_heartbeatInterval r \<and> 0 < dr_requestTimeout r"
  using assms
  by (auto simp: NewDemandReporter_def Let_def defaultReportHeartbeat_def defaultReportTimeout_def duration_defs
        split: if_splits sum.splits option.splits)

lemma numbered_increasing:
  assumes "length ds < 2 ^ 64"
  shows "sorted_wrt (\<lambda>x y. out_Sequence x < out_Sequence y) (numbered mid 0 ds)"
    and "list_all (\<lambda>x. out_MemberID x = mid \<and> 0 < out_Sequence x) (numbered mid 0 ds)"
proof -
  have num: "unat (out_Sequence (numbered mid 0 ds ! i)) = Suc i" if "i < length ds" for i
    using that assms by (simp add: numbered_nth unat_of_nat del: of_nat_Suc)
  then show "sorted_wrt (\<lambda>x y. out_Sequence x < out_Sequence y) (numbered mid 0 ds)"
    by (simp add: sorted_wrt_iff_nth_less word_less_nat_alt)
  have "0 < out_Sequence (numbered mid 0 ds ! i)" if "i < length ds" for i
    using num [OF that] by (simp add: word_less_nat_alt)
  then show "list_all (\<lambda>x. out_MemberID x = mid \<and> 0 < out_Sequence x) (numbered mid 0 ds)"
    by (simp add: list_all_length) (simp add: numbered_nth)
qed

lemma subseq_subset: "subseq xs ys \<Longrightarrow> set xs \<subseteq> set ys"
  by (auto elim: list_emb_set)

lemma sorted_wrt_subseq: "subseq xs ys \<Longrightarrow> sorted_wrt P ys \<Longrightarrow> sorted_wrt P xs"
proof (induction rule: list_emb.induct)
  case (list_emb_Cons2 x y xs ys)
  with subseq_subset [OF list_emb_Cons2.hyps(2)] show ?case by auto
qed simp_all

subsection \<open>Properties\<close>

text \<open>
  C36. What a new reporter posts, seen by its HTTP client. Every request is a POST to the endpoint with the
  token of the shared Secret, and its body is the encoding of a report. These reports are, in order and
  with gaps only where the encoder, the endpoint or the token failed, the demands that the loop took,
  numbered from one: one member identity, built from the gateway's and twelve random bytes, and
  strictly increasing positive sequence numbers, as long as fewer than \<open>2 ^ 64\<close> demands are taken. When
  nothing fails they are all of the demands. A run that is stopped has taken zero as its last demand.
\<close>

theorem reports_are_ordered:
  assumes "NewDemandReporter parseURL readFile (Some sfx) hs c = Inr r" and "length sfx = 12"
    and "length (taken net h es (r, g, n)) < 2 ^ 64"
  defines "mid \<equiv> rc_GatewayID c @ ''/'' @ hex_encode sfx"
  shows "\<exists>xs. list_all2 (posts_report net r) (posted net h es (r, g, n)) xs
    \<and> subseq xs (numbered mid 0 (taken net h es (r, g, n)))
    \<and> sorted_wrt (\<lambda>x y. out_Sequence x < out_Sequence y) xs
    \<and> list_all (\<lambda>x. out_MemberID x = mid \<and> 0 < out_Sequence x) xs \<and> length mid = length (rc_GatewayID c) + 25
    \<and> (can_send net r \<longrightarrow> xs = numbered mid 0 (taken net h es (r, g, n)))
    \<and> (fst (run_loop net h es (r, g, n)) \<longrightarrow> taken net h es (r, g, n) \<noteq> [] \<and> last (taken net h es (r, g, n)) = 0)"
proof -
  have r: "dr_memberID r = mid" "dr_sequence r = 0" using NewDemandReporter_Inr [OF assms(1)] by (auto simp: mid_def)
  obtain xs where xs: "list_all2 (posts_report net r) (posted net h es (r, g, n)) xs"
    "subseq xs (numbered mid 0 (taken net h es (r, g, n)))"
    "can_send net r \<longrightarrow> xs = numbered mid 0 (taken net h es (r, g, n))"
    by (rule posted_reports [of net r h es g n, unfolded r])
  note inc = numbered_increasing [OF assms(3), of mid]
  have "set xs \<subseteq> set (numbered mid 0 (taken net h es (r, g, n)))" by (rule subseq_subset [OF xs(2)])
  with inc(2) have "list_all (\<lambda>x. out_MemberID x = mid \<and> 0 < out_Sequence x) xs" by (auto simp: list_all_iff)
  moreover have "length mid = length (rc_GatewayID c) + 25" using assms(2) by (simp add: mid_def)
  ultimately show ?thesis using xs sorted_wrt_subseq [OF xs(2) inc(1)] stopped_reports_zero [of net h es r g n] by blast
qed

definition example_reporter_cfg :: DemandReporterConfig where
  "example_reporter_cfg = \<lparr>rc_Endpoint = ''http://agg/v1/demand'', rc_GatewayID = ''gw'', rc_HeartbeatInterval = 0,
     rc_RequestTimeout = 0, rc_AuthTokenFile = ''/token''\<rparr>"

definition example_token_files :: file_system where
  "example_token_files path = (if path = ''/token'' then Some (replicate 32 CHR ''t'') else None)"

definition example_reporter :: DemandReporter where
  "example_reporter = \<lparr>dr_endpoint = ''http://agg/v1/demand'', dr_memberID = ''gw/'' @ hex_encode (replicate 12 CHR ''r''),
     dr_heartbeatInterval = 2 * Second, dr_requestTimeout = Second, dr_authTokenFile = ''/token'', dr_sequence = 0\<rparr>"

lemma example_token_read: "ReadAuthToken example_token_files ''/token'' = Inr (replicate 32 CHR ''t'')"
  by (simp add: ReadAuthToken_def ValidateAuthToken_def example_token_files_def TrimSpace_visible visible_def)

lemma example_reporter_new:
  "NewDemandReporter (\<lambda>s. Some \<lparr>url_Scheme = ''http'', url_Host = ''agg'', url_String = s\<rparr>) example_token_files
     (Some (replicate 12 CHR ''r'')) True example_reporter_cfg = Inr example_reporter"
  using example_token_read
  by (simp add: NewDemandReporter_def example_reporter_cfg_def example_reporter_def absolute_http_def TrimRightByte_def
        defaultReportHeartbeat_def defaultReportTimeout_def)

text \<open>A network that takes every report; the encoder of the example separates the fields by commas.\<close>

definition example_encode :: "demandReport \<Rightarrow> string" where
  "example_encode x = itoa (uint (out_Sequence x)) @ '','' @ itoa (out_Demand x) @ '','' @ out_MemberID x"

definition example_net :: "unit report_net" where
  "example_net = \<lparr>rn_readFile = example_token_files, rn_encode = Some \<circ> example_encode, rn_newRequest = (\<lambda>_. True),
     rn_do = (\<lambda>_ n. (Some StatusNoContent, n))\<rparr>"

definition example_handle :: subscription where
  "example_handle = \<lparr>sub_chan = 0, sub_id = 0, sub_once = False\<rparr>"

lemma example_can_send: "can_send example_net example_reporter"
  using example_token_read by (simp add: can_send_def example_net_def example_reporter_def)

lemma itoa_examples: "itoa 0 = ''0''" "itoa 1 = ''1''" "itoa 2 = ''2''" "itoa 3 = ''3''"
  by code_simp+

theorem reports_are_ordered_witness:
  "let es = [Heartbeat 5, Stop]; st = (example_reporter, example_gateway\<lparr>pending := 3\<rparr>, ()) in
   taken example_net example_handle es st = [3, 0]
   \<and> map req_Body (posted example_net example_handle es st)
       = [Some (''1,3,gw/'' @ hex_encode (replicate 12 CHR ''r'')), Some (''2,0,gw/'' @ hex_encode (replicate 12 CHR ''r''))]"
proof -
  let ?es = "[Heartbeat 5, Stop]" and ?g = "example_gateway\<lparr>pending := 3\<rparr>" and ?mid = "''gw/'' @ hex_encode (replicate 12 CHR ''r'')"
  let ?st = "(example_reporter, ?g, ())"
  have t: "taken example_net example_handle ?es ?st = [3, 0]"
    by (cases "send example_net (Demand 5 ?g) ?st") (simp add: Gateway.Demand_def)
  have len: "length (replicate 12 CHR ''r'') = 12" "length (taken example_net example_handle ?es ?st) < 2 ^ 64"
    unfolding t by simp_all
  have mid: "rc_GatewayID example_reporter_cfg @ ''/'' @ hex_encode (replicate 12 CHR ''r'') = ?mid"
    by (simp add: example_reporter_cfg_def)
  from reports_are_ordered [OF example_reporter_new len, unfolded mid] example_can_send
  have "list_all2 (posts_report example_net example_reporter) (posted example_net example_handle ?es ?st)
      (numbered ?mid 0 (taken example_net example_handle ?es ?st))" by blast
  then have "map req_Body (posted example_net example_handle ?es ?st)
      = map (rn_encode example_net) (numbered ?mid 0 (taken example_net example_handle ?es ?st))"
    by (induction rule: list_all2_induct) (simp_all add: posts_report_def)
  moreover have "map (rn_encode example_net) (numbered ?mid 0 [3, 0]) = [Some (''1,3,'' @ ?mid), Some (''2,0,'' @ ?mid)]"
    by (simp add: example_net_def example_encode_def itoa_examples)
  ultimately show ?thesis unfolding Let_def t by simp
qed

end
