(* ===== verification/Gateway_Process.thy ===== *)
theory Gateway_Process
  imports Gateway_Resources Reporter
begin

section \<open>The gateway process\<close>

text \<open>
  \<open>cmd/gateway/main.go\<close> and \<open>internal/gateway/scaler/tls.go\<close>: the two modes of the gateway binary,
  their configuration from the environment, the servers they start and the graceful shutdown. The host
  is a parameter: the environment, the file system, the sockets and the TLS library. What a process
  does to the host is the list of its events; how it ends is an argument, the first thing that wakes the
  \<open>select\<close> in \<open>serve\<close> and the times that the servers take to drain.
\<close>

subsection \<open>Constants\<close>

definition shutdownTimeout :: duration where "shutdownTimeout = 20 * Second"
definition aggregatorReadTimeout :: duration where "aggregatorReadTimeout = 5 * Second"
definition readHeaderTimeout :: duration where "readHeaderTimeout = 10 * Second"
definition modeGateway :: string where "modeGateway = ''gateway''"
definition modeAggregator :: string where "modeAggregator = ''aggregator''"
definition DefaultListenAddr :: string where "DefaultListenAddr = '':8080''"
definition DefaultScalerListenAddr :: string where "DefaultScalerListenAddr = '':9090''"
definition DefaultAggregatorListenAddr :: string where "DefaultAggregatorListenAddr = '':9091''"

subsection \<open>The host and its events\<close>

text \<open>
  \<open>h_listen open addr\<close> is the error of \<open>net.Listen\<close> on \<open>addr\<close> while the addresses \<open>open\<close> are in use,
  \<open>h_loadKeyPair\<close> and \<open>h_appendCerts\<close> are the two calls of the TLS library.
\<close>

record 'c host =
  h_getenv :: "string \<Rightarrow> string"
  h_parseDuration :: "string \<Rightarrow> duration option"
  h_parseURL :: "string \<Rightarrow> url option"
  h_readFile :: file_system
  h_random :: "string option"
  h_hostname :: "string option"
  h_pid :: int
  h_listen :: "string list \<Rightarrow> string \<Rightarrow> string option"
  h_loadKeyPair :: "string \<Rightarrow> string \<Rightarrow> string + 'c"
  h_appendCerts :: "string \<Rightarrow> bool"

datatype tls_version = VersionTLS12 | VersionTLS13

datatype client_auth = NoClientCert | RequireAndVerifyClientCert

record 'c tls_config =
  tc_MinVersion :: tls_version
  tc_Certificate :: 'c
  tc_ClientAuth :: client_auth
  tc_ClientCAs :: string

datatype tls_error = PathsIncomplete | CertificateUnloadable string | ClientCAUnreadable string | ClientCAInvalid

datatype process_error =
    UnsupportedMode string | EnvRequired string | BuildGateway gateway_error | BuildReporter reporter_error
  | AggregatorToken auth_error | NotPositive string | ListenHTTP string | RegistrationRequired | ListenScaler string
  | ConfigureScaler tls_error | ServeFailed string

datatype server = HTTP | GRPC

datatype 'c proc_event =
    Listen server string | CloseListener server
  | ServeHTTP duration duration | ServeGRPC "'c tls_config list"
  | ShutdownHTTP | HTTPDone | HTTPExpired | CloseHTTP | GracefulStop | GRPCDone | StopGRPC
  | OpenGateway gateway | CloseGateway
  | StartReporter DemandReporter | StopReporter
  | StartAggregator demandAggregator | StopAggregator

text \<open>
  The way a process ends: its context is cancelled by a signal or one of its servers returns. The times
  are those after which the servers have drained, \<open>None\<close> for never, and after which the last demand
  report was answered. \<open>Shutdown\<close> of the HTTP server returns when it has drained and, with the error of
  the context, at the timeout when it has not. Where two channels of a \<open>select\<close> are ready at once, the
  flags choose.
\<close>

datatype serve_result = ServerClosed | Returned "string option"

datatype stop_cause = ContextDone | ServerReturned serve_result

record ending =
  e_cause :: stop_cause
  e_http :: "duration option"
  e_grpc :: "duration option"
  e_pick_http :: bool
  e_pick_grpc :: bool
  e_report :: duration

type_synonym 'c outcome = "process_error option \<times> 'c proc_event list \<times> duration"

subsection \<open>TLS of the external scaler\<close>

definition ExternalScalerServerOptionsFromEnv :: "'c host \<Rightarrow> tls_error + 'c tls_config list" where
  "ExternalScalerServerOptionsFromEnv h =
     (let certFile = h_getenv h EnvTLSCertFile; keyFile = h_getenv h EnvTLSKeyFile; caFile = h_getenv h EnvTLSClientCAFile in
      if certFile = [] \<and> keyFile = [] \<and> caFile = [] then Inr []
      else if certFile = [] \<or> keyFile = [] \<or> caFile = [] then Inl PathsIncomplete
      else case h_loadKeyPair h certFile keyFile of
        Inl err \<Rightarrow> Inl (CertificateUnloadable err)
      | Inr certificate \<Rightarrow>
          (case h_readFile h caFile of
             None \<Rightarrow> Inl (ClientCAUnreadable caFile)
           | Some caPEM \<Rightarrow>
               if \<not> h_appendCerts h caPEM then Inl ClientCAInvalid
               else Inr [\<lparr>tc_MinVersion = VersionTLS12, tc_Certificate = certificate,
                          tc_ClientAuth = RequireAndVerifyClientCert, tc_ClientCAs = caPEM\<rparr>]))"

subsection \<open>Shutdown\<close>

text \<open>
  The HTTP server drains in the background from the start. The first \<open>select\<close> waits for the gRPC server
  and the second for the HTTP server, each until the shared timeout. The channel of the second is closed
  whenever \<open>Shutdown\<close> returns: when it returned with the error of the context, the channel and the
  context are ready together, and a \<open>select\<close> that takes the channel (\<open>HTTPExpired\<close>) does not close the
  server.
\<close>

definition graceful_stop :: "ending \<Rightarrow> 'c proc_event list \<times> duration" where
  "graceful_stop e =
     (case e_grpc e of
        None \<Rightarrow> ([GracefulStop, StopGRPC], shutdownTimeout)
      | Some d \<Rightarrow>
          if d < shutdownTimeout \<or> d = shutdownTimeout \<and> e_pick_grpc e then ([GracefulStop, GRPCDone], d)
          else ([GracefulStop, StopGRPC], shutdownTimeout))"

definition drains_in_time :: "ending \<Rightarrow> bool" where
  "drains_in_time e = (case e_http e of None \<Rightarrow> False | Some d \<Rightarrow> d \<le> shutdownTimeout)"

definition await_http :: "ending \<Rightarrow> duration \<Rightarrow> 'c proc_event list \<times> duration" where
  "await_http e now =
     (if drains_in_time e
      then let d = max now (the (e_http e)) in
        if d < shutdownTimeout \<or> e_pick_http e then ([HTTPDone], d) else ([CloseHTTP], shutdownTimeout)
      else (if e_pick_http e then [HTTPExpired] else [CloseHTTP], shutdownTimeout))"

definition shutdown :: "bool \<Rightarrow> ending \<Rightarrow> 'c proc_event list \<times> duration" where
  "shutdown hasGRPC e =
     (let (grpc, now) = (if hasGRPC then graceful_stop e else ([], 0)); (http, now) = await_http e now
      in (ShutdownHTTP # grpc @ http, now))"

subsection \<open>Serving\<close>

definition serve_result_error :: "stop_cause \<Rightarrow> process_error option" where
  "serve_result_error c =
     (case c of ServerReturned (Returned (Some err)) \<Rightarrow> Some (ServeFailed err) | _ \<Rightarrow> None)"

definition serve_until :: "duration \<Rightarrow> 'c tls_config list option \<Rightarrow> ending \<Rightarrow> 'c outcome" where
  "serve_until readTimeout grpc e =
     (let started = ServeHTTP readHeaderTimeout readTimeout # (case grpc of None \<Rightarrow> [] | Some options \<Rightarrow> [ServeGRPC options]);
          (ended, now) = shutdown (grpc \<noteq> None) e
      in (serve_result_error (e_cause e), started @ ended, now))"

definition after :: "'c proc_event list \<Rightarrow> 'c outcome \<Rightarrow> 'c outcome" where
  "after es out = (case out of (err, tr, now) \<Rightarrow> (err, es @ tr, now))"

definition serve :: "'c host \<Rightarrow> string \<Rightarrow> duration \<Rightarrow> string \<Rightarrow> bool \<Rightarrow> ending \<Rightarrow> 'c outcome" where
  "serve h addr readTimeout scalerAddr registers e =
     (case h_listen h [] addr of
        Some err \<Rightarrow> (Some (ListenHTTP err), [], 0)
      | None \<Rightarrow>
          after [Listen HTTP addr]
            (if scalerAddr = [] then serve_until readTimeout None e
             else if \<not> registers then (Some RegistrationRequired, [CloseListener HTTP], 0)
             else case h_listen h [addr] scalerAddr of
               Some err \<Rightarrow> (Some (ListenScaler err), [CloseListener HTTP], 0)
             | None \<Rightarrow>
                 after [Listen GRPC scalerAddr]
                   (case ExternalScalerServerOptionsFromEnv h of
                      Inl err \<Rightarrow> (Some (ConfigureScaler err), [CloseListener GRPC, CloseListener HTTP], 0)
                    | Inr options \<Rightarrow> serve_until readTimeout (Some options) e)))"

subsection \<open>The two modes\<close>

definition getenv_or :: "'c host \<Rightarrow> string \<Rightarrow> string \<Rightarrow> string" where
  "getenv_or h name dflt = (let v = h_getenv h name in if v = [] then dflt else v)"

text \<open>\<open>strconv.Atoi\<close> on a 64-bit platform is \<open>strconv.ParseInt\<close> to 64 bits.\<close>

definition positiveIntFromEnv :: "'c host \<Rightarrow> string \<Rightarrow> process_error + int" where
  "positiveIntFromEnv h name =
     (let value = h_getenv h name in
      if value = [] then Inr 0
      else case ParseInt value of
        None \<Rightarrow> Inl (NotPositive name)
      | Some parsed \<Rightarrow> if parsed \<le> 0 then Inl (NotPositive name) else Inr parsed)"

definition positiveInt64FromEnv :: "'c host \<Rightarrow> string \<Rightarrow> process_error + int" where
  "positiveInt64FromEnv h name =
     (let value = h_getenv h name in
      if value = [] then Inr 0
      else case ParseInt value of
        None \<Rightarrow> Inl (NotPositive name)
      | Some parsed \<Rightarrow> if parsed \<le> 0 then Inl (NotPositive name) else Inr parsed)"

definition processGatewayID :: "'c host \<Rightarrow> string" where
  "processGatewayID h =
     (if h_getenv h EnvGatewayID \<noteq> [] then h_getenv h EnvGatewayID
      else (case h_hostname h of None \<Rightarrow> ''gateway'' | Some n \<Rightarrow> if n = [] then ''gateway'' else n) @ ''-'' @ itoa (h_pid h))"

definition reporter_config :: "'c host \<Rightarrow> string \<Rightarrow> DemandReporterConfig" where
  "reporter_config h aggregatorURL =
     \<lparr>rc_Endpoint = aggregatorURL, rc_GatewayID = processGatewayID h, rc_HeartbeatInterval = 0, rc_RequestTimeout = 0,
      rc_AuthTokenFile = h_getenv h EnvAuthTokenFile\<rparr>"

text \<open>
  Stopping the reporter takes as long as its last report, which its context bounds by the request
  timeout; a report in flight is cancelled.
\<close>

definition run_reporting :: "'c host \<Rightarrow> string \<Rightarrow> string \<Rightarrow> ending \<Rightarrow> 'c outcome" where
  "run_reporting h addr aggregatorURL e =
     (case NewDemandReporter (h_parseURL h) (h_readFile h) (h_random h) True (reporter_config h aggregatorURL) of
        Inl err \<Rightarrow> (Some (BuildReporter err), [], 0)
      | Inr reporter \<Rightarrow>
          (case serve h addr 0 [] False e of
             (err, tr, now) \<Rightarrow>
               (err, StartReporter reporter # tr @ [StopReporter], now + min (e_report e) (dr_requestTimeout reporter))))"

definition runGateway :: "'c host \<Rightarrow> ending \<Rightarrow> 'c outcome" where
  "runGateway h e =
     (let config = ConfigFromEnv (h_parseDuration h) (h_getenv h) in
      if BackendURL config = [] then (Some (EnvRequired EnvBackendURL), [], 0)
      else case New (h_parseURL h) (h_readFile h) config of
        Inl err \<Rightarrow> (Some (BuildGateway err), [], 0)
      | Inr gw \<Rightarrow>
          let addr = getenv_or h EnvListenAddr DefaultListenAddr;
              aggregatorURL = h_getenv h EnvDemandAggregatorURL;
              (err, tr, now) =
                (if aggregatorURL \<noteq> [] then run_reporting h addr aggregatorURL e
                 else serve h addr 0 (getenv_or h EnvScalerListenAddr DefaultScalerListenAddr) True e)
          in (err, OpenGateway gw # tr @ [CloseGateway], now))"

definition runAggregator :: "'c host \<Rightarrow> ending \<Rightarrow> 'c outcome" where
  "runAggregator h e =
     (let authTokenFile = h_getenv h EnvAuthTokenFile in
      case ReadAuthToken (h_readFile h) authTokenFile of
        Inl err \<Rightarrow> (Some (AggregatorToken err), [], 0)
      | Inr _ \<Rightarrow>
        (case positiveIntFromEnv h EnvMaxGatewayMembers of
           Inl err \<Rightarrow> (Some err, [], 0)
         | Inr maxM \<Rightarrow>
           (case positiveInt64FromEnv h EnvMaxGatewayDemand of
              Inl err \<Rightarrow> (Some err, [], 0)
            | Inr maxD \<Rightarrow>
                let aggregator = NewDemandAggregator
                      \<lparr>cfg_MemberTTL = 0, cfg_SweepInterval = 0, cfg_AuthTokenFile = authTokenFile, cfg_MaxMembers = maxM,
                       cfg_MaxDemand = maxD, cfg_MaxConcurrentReports = 0\<rparr>;
                    (err, tr, now) = serve h (getenv_or h EnvAggregatorListenAddr DefaultAggregatorListenAddr)
                      aggregatorReadTimeout (getenv_or h EnvScalerListenAddr DefaultScalerListenAddr) True e
                in (err, StartAggregator aggregator # tr @ [StopAggregator], now))))"

definition run_process :: "'c host \<Rightarrow> string \<Rightarrow> ending \<Rightarrow> 'c outcome" where
  "run_process h mode e =
     (if mode = modeGateway then runGateway h e
      else if mode = modeAggregator then runAggregator h e
      else (Some (UnsupportedMode mode), [], 0))"

subsection \<open>What a process holds\<close>

text \<open>
  The listeners, connections and background loops held after a list of events. Shutting a server down
  closes its listener at once and its connections when it has drained; closing or stopping it closes both,
  and an expired shutdown leaves the connections that have not drained.
\<close>

datatype resource = Listener server | Connections server | TheGateway | TheReporter | TheAggregator

fun hold :: "'c proc_event \<Rightarrow> resource set \<Rightarrow> resource set" where
  "hold (Listen s addr) = insert (Listener s)"
| "hold (CloseListener s) = (\<lambda>held. held - {Listener s})"
| "hold (ServeHTTP headerTimeout readTimeout) = insert (Connections HTTP)"
| "hold (ServeGRPC options) = insert (Connections GRPC)"
| "hold ShutdownHTTP = (\<lambda>held. held - {Listener HTTP})"
| "hold HTTPDone = (\<lambda>held. held - {Connections HTTP})"
| "hold HTTPExpired = (\<lambda>held. held)"
| "hold CloseHTTP = (\<lambda>held. held - {Listener HTTP, Connections HTTP})"
| "hold GracefulStop = (\<lambda>held. held - {Listener GRPC})"
| "hold GRPCDone = (\<lambda>held. held - {Connections GRPC})"
| "hold StopGRPC = (\<lambda>held. held - {Listener GRPC, Connections GRPC})"
| "hold (OpenGateway g) = insert TheGateway"
| "hold CloseGateway = (\<lambda>held. held - {TheGateway})"
| "hold (StartReporter r) = insert TheReporter"
| "hold StopReporter = (\<lambda>held. held - {TheReporter})"
| "hold (StartAggregator a) = insert TheAggregator"
| "hold StopAggregator = (\<lambda>held. held - {TheAggregator})"

definition held_after :: "'c proc_event list \<Rightarrow> resource set \<Rightarrow> resource set" where
  "held_after tr held = fold hold tr held"

lemma held_after_simps [simp]:
  "held_after [] held = held"
  "held_after (ev # tr) held = held_after tr (hold ev held)"
  "held_after (tr @ tr') held = held_after tr' (held_after tr held)"
  by (simp_all add: held_after_def)

definition sockets :: "resource set" where
  "sockets = {Listener HTTP, Connections HTTP, Listener GRPC, Connections GRPC}"

lemma graceful_stop_held: "held_after (fst (graceful_stop e)) held = held - {Listener GRPC, Connections GRPC}"
  by (auto simp: graceful_stop_def split: option.split)

fun serves_http :: "'c proc_event \<Rightarrow> bool" where
  "serves_http (ServeHTTP headerTimeout readTimeout) = True"
| "serves_http ev = False"

text \<open>The connections left by a shutdown: none, unless the drain expired and the channel was taken.\<close>

definition left_open :: "ending \<Rightarrow> resource set" where
  "left_open e = (if drains_in_time e \<or> \<not> e_pick_http e then {} else {Connections HTTP})"

lemma await_http_held:
  "held_after (fst (await_http e now)) (held - {Listener HTTP}) = held - ({Listener HTTP, Connections HTTP} - left_open e)"
  by (auto simp: await_http_def left_open_def Let_def)

lemma shutdown_held:
  "held_after (fst (shutdown b e)) held
     = held - ((if b then sockets else {Listener HTTP, Connections HTTP}) - left_open e)"
proof (cases b)
  case True
  have "held - {Listener HTTP} - {Listener GRPC, Connections GRPC} = (held - {Listener GRPC, Connections GRPC}) - {Listener HTTP}"
    by blast
  with True show ?thesis
    by (auto simp: shutdown_def sockets_def graceful_stop_held await_http_held left_open_def case_prod_unfold Let_def)
qed (simp add: shutdown_def await_http_held case_prod_unfold Let_def)

lemma shutdown_serves_nothing: "\<not> list_ex serves_http (fst (shutdown b e))"
  by (auto simp: shutdown_def graceful_stop_def await_http_def Let_def case_prod_unfold split: option.split)

lemma serve_held:
  assumes "serve h addr rt sa reg e = (err, tr, now)" and "held \<inter> sockets = {}"
  shows "held_after tr held = held \<union> (if list_ex serves_http tr then left_open e else {})"
  using assms
  by (auto simp: serve_def serve_until_def after_def shutdown_held shutdown_serves_nothing left_open_def case_prod_unfold
      Let_def sockets_def split: option.splits if_splits sum.splits)

lemma run_reporting_held:
  assumes "run_reporting h addr u e = (err, tr, now)"
  shows "held_after tr {TheGateway} = {TheGateway} \<union> (if list_ex serves_http tr then left_open e else {})"
proof (cases "NewDemandReporter (h_parseURL h) (h_readFile h) (h_random h) True (reporter_config h u)")
  case (Inr r)
  obtain err' tr' now' where s: "serve h addr 0 [] False e = (err', tr', now')" by (metis prod.exhaust)
  then have tr: "tr = StartReporter r # tr' @ [StopReporter]" using assms Inr by (simp add: run_reporting_def)
  have "held_after tr' {TheReporter, TheGateway} = {TheReporter, TheGateway} \<union> (if list_ex serves_http tr' then left_open e else {})"
    by (rule serve_held [OF s]) (simp add: sockets_def)
  then show ?thesis by (simp add: tr left_open_def insert_Diff_if)
qed (use assms in \<open>simp add: run_reporting_def\<close>)

subsection \<open>Shutdown times\<close>

lemma graceful_stop_time: "snd (graceful_stop e) \<le> shutdownTimeout"
  by (simp add: graceful_stop_def split: option.split)

lemma await_http_time: "now \<le> shutdownTimeout \<Longrightarrow> snd (await_http e now) \<le> shutdownTimeout"
  by (auto simp: await_http_def drains_in_time_def Let_def split: option.splits)

lemma shutdown_time: "snd (shutdown b e) \<le> shutdownTimeout"
proof -
  have "0 \<le> shutdownTimeout" by (simp add: shutdownTimeout_def duration_defs)
  then show ?thesis
    unfolding shutdown_def case_prod_unfold Let_def by (simp add: await_http_time graceful_stop_time)
qed

lemma serve_time: "serve h addr rt sa reg e = (err, tr, now) \<Longrightarrow> now \<le> shutdownTimeout"
  using shutdown_time
  by (auto simp: serve_def serve_until_def after_def case_prod_unfold Let_def shutdownTimeout_def duration_defs
      split: option.splits if_splits sum.splits)

lemma default_report_timeout:
  "NewDemandReporter pu rf rnd b (reporter_config h u) = Inr r \<Longrightarrow> dr_requestTimeout r = defaultReportTimeout"
  by (auto simp: NewDemandReporter_def reporter_config_def Let_def split: if_splits sum.splits option.splits)

lemma run_reporting_time:
  "run_reporting h addr u e = (err, tr, now) \<Longrightarrow> now \<le> shutdownTimeout + defaultReportTimeout"
  using serve_time [of h addr 0 "[]" False e]
  by (fastforce simp: run_reporting_def default_report_timeout shutdownTimeout_def defaultReportTimeout_def duration_defs
      split: sum.splits prod.splits)

lemma runGateway_time: "snd (snd (runGateway h e)) \<le> shutdownTimeout + defaultReportTimeout"
  using serve_time [of h] run_reporting_time [of h]
  by (fastforce simp: runGateway_def Let_def shutdownTimeout_def defaultReportTimeout_def duration_defs
      split: sum.splits prod.splits)

lemma runAggregator_time: "snd (snd (runAggregator h e)) \<le> shutdownTimeout"
  using serve_time [of h]
  by (fastforce simp: runAggregator_def Let_def shutdownTimeout_def duration_defs split: sum.splits prod.splits)

subsection \<open>Configuration from a rendered pod\<close>

text \<open>A process in the only container of a pod reads the environment of that container.\<close>

definition runs_in :: "'c host \<Rightarrow> string \<Rightarrow> podSpec \<Rightarrow> bool" where
  "runs_in h uid pod \<longleftrightarrow> list_all (\<lambda>ct. \<forall>name. h_getenv h name = container_env uid (ct_Env ct) name) (ps_Containers pod)
     \<and> ps_Containers pod \<noteq> []"

lemma runs_in_env: "runs_in h uid pod \<Longrightarrow> map ct_Env (ps_Containers pod) = [env] \<Longrightarrow> h_getenv h name = container_env uid env name"
  by (auto simp: runs_in_def)

definition example_host :: "(string \<Rightarrow> string) \<Rightarrow> unit host" where
  "example_host env =
     \<lparr>h_getenv = env, h_parseDuration = (\<lambda>_. None),
      h_parseURL = (\<lambda>u. Some \<lparr>url_Scheme = ''http'', url_Host = ''backend'', url_String = u\<rparr>),
      h_readFile = (\<lambda>_. Some (replicate 32 CHR ''t'')), h_random = Some (replicate 12 CHR ''r''),
      h_hostname = Some ''node'', h_pid = 7, h_listen = (\<lambda>_ _. None), h_loadKeyPair = (\<lambda>_ _. Inr ()),
      h_appendCerts = (\<lambda>_. True)\<rparr>"

lemma example_host_simps [simp]:
  "h_getenv (example_host env) = env"
  "h_parseURL (example_host env) u = Some \<lparr>url_Scheme = ''http'', url_Host = ''backend'', url_String = u\<rparr>"
  "h_readFile (example_host env) f = Some (replicate 32 CHR ''t'')"
  "h_random (example_host env) = Some (replicate 12 CHR ''r'')"
  "h_listen (example_host env) l a = None"
  by (simp_all add: example_host_def)

definition example_ending :: ending where
  "example_ending = \<lparr>e_cause = ContextDone, e_http = Some Second, e_grpc = None, e_pick_http = True, e_pick_grpc = False,
     e_report = Second\<rparr>"

subsection \<open>TLS is never dropped\<close>

definition verified :: "'c proc_event \<Rightarrow> bool" where
  "verified ev \<longleftrightarrow> (case ev of
     ServeGRPC options \<Rightarrow> options \<noteq> [] \<and> list_all (\<lambda>c. tc_ClientAuth c = RequireAndVerifyClientCert) options
   | _ \<Rightarrow> True)"

lemma verified_simps [simp]:
  "verified (Listen s addr)" "verified (CloseListener s)" "verified (ServeHTTP d d')" "verified ShutdownHTTP" "verified HTTPDone" "verified HTTPExpired"
  "verified CloseHTTP" "verified GracefulStop" "verified GRPCDone" "verified StopGRPC" "verified (OpenGateway g)"
  "verified CloseGateway" "verified (StartReporter r)" "verified StopReporter" "verified (StartAggregator a)"
  "verified StopAggregator"
  by (simp_all add: verified_def)

lemma shutdown_verified: "list_all verified (fst (shutdown b e))"
  by (auto simp: shutdown_def graceful_stop_def await_http_def Let_def case_prod_unfold split: option.split)

lemma options_verified:
  assumes "h_getenv h EnvTLSCertFile \<noteq> []" and "ExternalScalerServerOptionsFromEnv h = Inr options"
  shows "verified (ServeGRPC options)"
  using assms by (auto simp: ExternalScalerServerOptionsFromEnv_def verified_def Let_def split: if_splits sum.splits option.splits)

lemma serve_verified:
  "h_getenv h EnvTLSCertFile \<noteq> [] \<Longrightarrow> list_all verified (fst (snd (serve h addr rt sa reg e)))"
  using options_verified [of h]
  by (auto simp: serve_def serve_until_def after_def shutdown_verified case_prod_unfold Let_def
      split: option.splits sum.splits)

lemma run_process_verified:
  assumes "h_getenv h EnvTLSCertFile \<noteq> []"
  shows "list_all verified (fst (snd (run_process h mode e)))"
proof -
  have "list_all verified tr" if "serve h addr rt sa reg e = (err, tr, now)" for addr rt sa reg err tr now
    using serve_verified [OF assms, of addr rt sa reg e] that by simp
  then show ?thesis
    by (auto simp: run_process_def runGateway_def runAggregator_def run_reporting_def Let_def split: sum.splits prod.splits if_splits)
qed

lemma reporting_verified:
  assumes "h_getenv h EnvDemandAggregatorURL \<noteq> []"
  shows "list_all verified (fst (snd (runGateway h e)))"
proof -
  have "list_all verified tr" if "serve h addr rt [] reg e = (err, tr, now)" for addr rt reg err tr now
    using that by (auto simp: serve_def serve_until_def after_def shutdown_verified case_prod_unfold Let_def split: option.splits)
  then show ?thesis using assms
    by (auto simp: runGateway_def run_reporting_def Let_def split: sum.splits prod.splits)
qed

lemma report_url_nonempty: "GatewayDemandReportURL svc \<noteq> []"
  by (simp add: GatewayDemandReportURL_def)

lemma gateway_pod_getenv:
  assumes "runs_in h uid (gateway_pod ds svc img r)"
  shows "h_getenv h name = container_env uid (gateway_env ds svc r @ client_auth_env svc
      @ (if r = 1 then scaler_tls_env svc else [EnvVar EnvAuthTokenFile demandAuthTokenPath])) name"
  by (rule runs_in_env [OF assms gateway_pod_env])

lemma scaler_pod_getenv:
  assumes "runs_in h uid (scaler_pod svc img r)"
  shows "h_getenv h name = container_env uid (scaler_env svc r @ [EnvVar EnvAuthTokenFile demandAuthTokenPath] @ scaler_tls_env svc) name"
  by (rule runs_in_env [OF assms scaler_pod_env])

lemma gateway_pod_aggregator_url:
  "r \<noteq> 1 \<Longrightarrow> runs_in h uid (gateway_pod ds svc img r) \<Longrightarrow> h_getenv h EnvDemandAggregatorURL = GatewayDemandReportURL svc"
  by (simp add: gateway_pod_getenv rendered_env)

lemma gateway_pod_tls:
  assumes "runs_in h uid (gateway_pod ds svc img 1)" and "Option.bind (sc_ExternalScaler (sp_Scaling (svc_Spec svc))) es_TLS \<noteq> None"
  shows "h_getenv h EnvTLSCertFile \<noteq> []"
  using assms(2) by (auto simp: gateway_pod_getenv [OF assms(1)] rendered_env scalerTLSMountPath_def)

lemma scaler_pod_tls:
  assumes "runs_in h uid (scaler_pod svc img r)" and "Option.bind (sc_ExternalScaler (sp_Scaling (svc_Spec svc))) es_TLS \<noteq> None"
  shows "h_getenv h EnvTLSCertFile \<noteq> []"
  using assms(2) by (auto simp: scaler_pod_getenv [OF assms(1)] rendered_env scalerTLSMountPath_def)

lemma positive_itoa:
  "h_getenv h name = itoa n \<Longrightarrow> 0 < n \<Longrightarrow> in_int64 n \<Longrightarrow> positiveIntFromEnv h name = Inr n"
  "h_getenv h name = itoa n \<Longrightarrow> 0 < n \<Longrightarrow> in_int64 n \<Longrightarrow> positiveInt64FromEnv h name = Inr n"
  by (simp_all add: positiveIntFromEnv_def positiveInt64FromEnv_def ParseInt_itoa)

lemma gatewayMaxQueue_range:
  "ep_MaxQueue (sp_Endpoint (svc_Spec svc)) < 2 ^ 31 \<Longrightarrow> 0 < gatewayMaxQueue svc \<and> in_int64 (gatewayMaxQueue svc)"
  by (auto simp: gatewayMaxQueue_def DefaultMaxQueue_def in_int64_def MaxInt64_def)

text \<open>The aggregator that a rendered scaler pod starts.\<close>

definition rendered_aggregator :: "LLMService \<Rightarrow> int \<Rightarrow> demandAggregator" where
  "rendered_aggregator svc r = NewDemandAggregator
     \<lparr>cfg_MemberTTL = 0, cfg_SweepInterval = 0, cfg_AuthTokenFile = demandAuthTokenPath, cfg_MaxMembers = max 16 (r * 4),
      cfg_MaxDemand = gatewayMaxQueue svc, cfg_MaxConcurrentReports = 0\<rparr>"

lemma rendered_aggregator_run:
  assumes "runs_in h uid (scaler_pod svc img r)" and "r < 2 ^ 31" and "ep_MaxQueue (sp_Endpoint (svc_Spec svc)) < 2 ^ 31"
  shows "runAggregator h e =
     (case ReadAuthToken (h_readFile h) demandAuthTokenPath of
        Inl err \<Rightarrow> (Some (AggregatorToken err), [], 0)
      | Inr _ \<Rightarrow>
          (case serve h ('':'' @ itoa gatewayAggregatorPort) aggregatorReadTimeout ('':'' @ itoa gatewayScalerPort) True e of
             (err, tr, now) \<Rightarrow> (err, StartAggregator (rendered_aggregator svc r) # tr @ [StopAggregator], now)))"
proof -
  note env = scaler_pod_getenv [OF assms(1)]
  have "positiveIntFromEnv h EnvMaxGatewayMembers = Inr (max 16 (r * 4))"
    by (rule positive_itoa) (use assms(2) in \<open>auto simp: env rendered_env in_int64_def MaxInt64_def\<close>)
  moreover have "positiveInt64FromEnv h EnvMaxGatewayDemand = Inr (gatewayMaxQueue svc)"
    by (rule positive_itoa) (use gatewayMaxQueue_range [OF assms(3)] in \<open>simp_all add: env rendered_env\<close>)
  moreover have "h_getenv h EnvAuthTokenFile = demandAuthTokenPath"
    "getenv_or h EnvAggregatorListenAddr DefaultAggregatorListenAddr = '':'' @ itoa gatewayAggregatorPort"
    "getenv_or h EnvScalerListenAddr DefaultScalerListenAddr = '':'' @ itoa gatewayScalerPort"
    by (simp_all add: env rendered_env getenv_or_def)
  ultimately show ?thesis by (simp add: runAggregator_def rendered_aggregator_def split: sum.split)
qed

subsection \<open>What a process starts\<close>

fun server_event :: "'c proc_event \<Rightarrow> bool" where
  "server_event (OpenGateway g) = False"
| "server_event (StartReporter r) = False"
| "server_event (StartAggregator a) = False"
| "server_event ev = True"

lemma shutdown_server_events: "list_all server_event (fst (shutdown b e))"
  by (auto simp: shutdown_def graceful_stop_def await_http_def Let_def case_prod_unfold split: option.split)

lemma serve_server_events: "list_all server_event (fst (snd (serve h addr rt sa reg e)))"
  by (auto simp: serve_def serve_until_def after_def shutdown_server_events case_prod_unfold Let_def
      split: option.splits sum.splits)

lemma serve_starts_nothing:
  "serve h addr rt sa reg e = (err, tr, now) \<Longrightarrow>
     OpenGateway g \<notin> set tr \<and> StartReporter r \<notin> set tr \<and> StartAggregator a \<notin> set tr"
  using serve_server_events [of h addr rt sa reg e] by (auto simp: list_all_iff)

lemma started_gateway:
  assumes "OpenGateway g \<in> set (fst (snd (runGateway h e)))"
  shows "New (h_parseURL h) (h_readFile h) (ConfigFromEnv (h_parseDuration h) (h_getenv h)) = Inr g"
  using assms serve_starts_nothing [of h]
  by (auto simp: runGateway_def run_reporting_def Let_def split: if_splits sum.splits prod.splits)

lemma started_reporter:
  assumes "StartReporter r \<in> set (fst (snd (runGateway h e)))"
  shows "NewDemandReporter (h_parseURL h) (h_readFile h) (h_random h) True (reporter_config h (h_getenv h EnvDemandAggregatorURL)) = Inr r"
  using assms serve_starts_nothing [of h]
  by (auto simp: runGateway_def run_reporting_def Let_def split: if_splits sum.splits prod.splits)

lemma started_aggregator:
  assumes "runs_in h uid (scaler_pod svc img r)" and "r < 2 ^ 31" and "ep_MaxQueue (sp_Endpoint (svc_Spec svc)) < 2 ^ 31"
    and "StartAggregator a \<in> set (fst (snd (runAggregator h e)))"
  shows "a = rendered_aggregator svc r"
  using assms(4) serve_starts_nothing [of h]
  by (auto simp: rendered_aggregator_run [OF assms(1-3)] split: sum.splits prod.splits)

lemma grace_kept [simp]:
  "ps_TerminationGracePeriodSeconds (on_first f pod) = ps_TerminationGracePeriodSeconds pod"
  "ps_TerminationGracePeriodSeconds (add_volume v pod) = ps_TerminationGracePeriodSeconds pod"
  by (simp_all add: on_first_def add_volume_def)

subsection \<open>Properties\<close>

text \<open>
  C25. What a process has given back when it ends, with every mode, configuration and way to end: every
  listener and every gRPC connection is closed, the gateway is closed, and the reporter or the aggregator
  loop it started has stopped. The HTTP connections are closed too, with one exception, which is exact:
  the server was serving, has not drained by the shutdown timeout, and the last \<open>select\<close> takes the
  channel of the expired \<open>Shutdown\<close> instead of the context, which skips \<open>Close\<close>.
\<close>

theorem process_releases_everything:
  "held_after (fst (snd (run_process h mode e))) {} =
     (if list_ex serves_http (fst (snd (run_process h mode e))) \<and> \<not> drains_in_time e \<and> e_pick_http e
      then {Connections HTTP} else {})"
proof -
  have "held_after (fst (snd (runGateway h e))) {} = (if list_ex serves_http (fst (snd (runGateway h e))) then left_open e else {})"
    using serve_held [of h _ _ _ _ e _ _ _ "{TheGateway}"] run_reporting_held [of h _ _ e]
    by (auto simp: runGateway_def sockets_def left_open_def Let_def split: sum.splits prod.splits)
  moreover have "held_after (fst (snd (runAggregator h e))) {} =
      (if list_ex serves_http (fst (snd (runAggregator h e))) then left_open e else {})"
    using serve_held [of h _ _ _ _ e _ _ _ "{TheAggregator}"]
    by (auto simp: runAggregator_def sockets_def left_open_def Let_def split: sum.splits prod.splits)
  ultimately show ?thesis by (auto simp: run_process_def left_open_def)
qed

text \<open>
  C33. A process ends before it is killed: from the signal to the end, the drain of its servers and the last
  demand report take less than the termination grace period that the operator gives its pod, whatever
  the servers still have to do.
\<close>

theorem shutdown_within_grace:
  "(case ps_TerminationGracePeriodSeconds (gateway_pod ds svc img r) of
      None \<Rightarrow> False | Some grace \<Rightarrow> snd (snd (run_process h modeGateway e)) < grace * Second)
   \<and> (case ps_TerminationGracePeriodSeconds (scaler_pod svc img r) of
      None \<Rightarrow> False | Some grace \<Rightarrow> snd (snd (run_process h modeAggregator e)) < grace * Second)"
proof -
  have "ps_TerminationGracePeriodSeconds (gateway_pod ds svc img r) = Some 30"
       "ps_TerminationGracePeriodSeconds (scaler_pod svc img r) = Some 30"
    by (simp_all add: workload_defs Let_def split: option.split)
  moreover have "shutdownTimeout + defaultReportTimeout < 30 * Second" "shutdownTimeout < 30 * Second"
    by (simp_all add: shutdownTimeout_def defaultReportTimeout_def duration_defs)
  moreover have "run_process h modeGateway e = runGateway h e" "run_process h modeAggregator e = runAggregator h e"
    by (simp_all add: run_process_def modeGateway_def modeAggregator_def)
  ultimately show ?thesis using runGateway_time [of h e] runAggregator_time [of h e] by simp
qed

text \<open>
  C32. Mutual TLS is never dropped: once a service asks for TLS, the gateway and the aggregator in the pods
  rendered for it serve the external scaler only with verified client certificates. They fail to
  start rather than listen in plain text, whatever is wrong with the certificates.
\<close>

theorem tls_never_dropped:
  assumes "Option.bind (sc_ExternalScaler (sp_Scaling (svc_Spec svc))) es_TLS \<noteq> None"
    and "runs_in h uid (if mode = modeAggregator then scaler_pod svc img r else gateway_pod ds svc img r)"
    and "ServeGRPC options \<in> set (fst (snd (run_process h mode e)))"
  shows "options \<noteq> [] \<and> list_all (\<lambda>c. tc_ClientAuth c = RequireAndVerifyClientCert) options"
proof -
  have "list_all verified (fst (snd (run_process h mode e)))"
  proof (cases "mode \<noteq> modeAggregator \<and> r \<noteq> 1")
    case True
    then have "list_all verified (fst (snd (runGateway h e)))"
      using gateway_pod_aggregator_url [of r h uid ds svc img] report_url_nonempty assms(2)
      by (intro reporting_verified) simp
    with True show ?thesis by (simp add: run_process_def)
  next
    case False
    then have "h_getenv h EnvTLSCertFile \<noteq> []"
      using gateway_pod_tls [OF _ assms(1), of h uid ds img] scaler_pod_tls [OF _ assms(1), of h uid img r] assms(2)
      by (auto split: if_splits)
    then show ?thesis by (rule run_process_verified)
  qed
  with assms(3) have "verified (ServeGRPC options)" by (simp add: list_all_iff)
  then show ?thesis by (simp add: verified_def)
qed


definition example_tls_svc :: LLMService where
  "example_tls_svc = example_svc\<lparr>svc_Spec := (svc_Spec example_svc)\<lparr>sp_Scaling := (sp_Scaling (svc_Spec example_svc))
     \<lparr>sc_ExternalScaler := Some \<lparr>es_TLS = Some \<lparr>tls_ServerSecretName = ''tls'',
        tls_AuthenticationRef = \<lparr>ka_Name = ''keda'', ka_Kind = []\<rparr>\<rparr>\<rparr>\<rparr>\<rparr>\<rparr>"

definition example_scaler_host :: "LLMService \<Rightarrow> unit host" where
  "example_scaler_host svc = example_host (container_env ''u1''
     (scaler_env svc 2 @ [EnvVar EnvAuthTokenFile demandAuthTokenPath] @ scaler_tls_env svc))"

lemma example_scaler_runs_in: "runs_in (example_scaler_host svc) ''u1'' (scaler_pod svc ''gw:1'' 2)"
  using scaler_pod_env [of svc "''gw:1''" 2] by (auto simp: runs_in_def example_scaler_host_def)

lemma example_shared_token: "ReadAuthToken (\<lambda>_. Some (replicate 32 CHR ''t'')) demandAuthTokenPath = Inr (replicate 32 CHR ''t'')"
  by (simp add: ReadAuthToken_def ValidateAuthToken_def TrimSpace_visible visible_def demandAuthTokenPath_def demandAuthTokenKey_def)

lemma example_tls_served:
  "ServeGRPC [\<lparr>tc_MinVersion = VersionTLS12, tc_Certificate = (), tc_ClientAuth = RequireAndVerifyClientCert,
      tc_ClientCAs = replicate 32 CHR ''t''\<rparr>]
     \<in> set (fst (snd (run_process (example_scaler_host example_tls_svc) modeAggregator e)))"
proof -
  let ?h = "example_scaler_host example_tls_svc"
  have "h_readFile ?h = (\<lambda>_. Some (replicate 32 CHR ''t''))" by (simp add: example_scaler_host_def example_host_def)
  then have tok: "ReadAuthToken (h_readFile ?h) demandAuthTokenPath = Inr (replicate 32 CHR ''t'')"
    using example_shared_token by simp
  have "h_getenv ?h EnvTLSCertFile = scalerTLSMountPath @ ''/tls.crt''" "h_getenv ?h EnvTLSKeyFile = scalerTLSMountPath @ ''/tls.key''"
    "h_getenv ?h EnvTLSClientCAFile = scalerTLSMountPath @ ''/ca.crt''"
    by (simp_all add: example_scaler_host_def rendered_env example_tls_svc_def)
  then have opts: "ExternalScalerServerOptionsFromEnv ?h = Inr [\<lparr>tc_MinVersion = VersionTLS12, tc_Certificate = (),
      tc_ClientAuth = RequireAndVerifyClientCert, tc_ClientCAs = replicate 32 CHR ''t''\<rparr>]"
    by (simp add: ExternalScalerServerOptionsFromEnv_def example_scaler_host_def example_host_def)
  have "runAggregator ?h e = (case serve ?h ('':'' @ itoa gatewayAggregatorPort) aggregatorReadTimeout ('':'' @ itoa gatewayScalerPort) True e of
      (err, tr, now) \<Rightarrow> (err, StartAggregator (rendered_aggregator example_tls_svc 2) # tr @ [StopAggregator], now))"
    using rendered_aggregator_run [OF example_scaler_runs_in, of example_tls_svc e] tok
    by (simp add: example_tls_svc_def example_svc_def)
  moreover have "h_listen ?h l a = None" for l a by (simp add: example_scaler_host_def)
  ultimately show ?thesis
    by (simp add: run_process_def modeAggregator_def modeGateway_def serve_def serve_until_def after_def opts case_prod_unfold Let_def)
qed

theorem tls_never_dropped_witness:
  "\<exists>options. ServeGRPC options \<in> set (fst (snd (run_process (example_scaler_host example_tls_svc) modeAggregator example_ending)))
     \<and> options \<noteq> [] \<and> list_all (\<lambda>c. tc_ClientAuth c = RequireAndVerifyClientCert) options"
proof -
  have tls: "Option.bind (sc_ExternalScaler (sp_Scaling (svc_Spec example_tls_svc))) es_TLS \<noteq> None"
    by (simp add: example_tls_svc_def)
  have pod: "runs_in (example_scaler_host example_tls_svc) ''u1'' (if modeAggregator = modeAggregator
      then scaler_pod example_tls_svc ''gw:1'' 2 else gateway_pod (\<lambda>_. []) example_tls_svc ''gw:1'' 2)"
    by (simp add: example_scaler_runs_in)
  from tls_never_dropped [OF tls pod example_tls_served [of example_ending]] show ?thesis using example_tls_served by blast
qed

end
