(* ===== verification/Fleet.thy ===== *)
theory Fleet
  imports Gateway_Process
begin

section \<open>A fleet of gateways and its aggregator\<close>

text \<open>
  The composition of \<open>proxy/reporter.go\<close> and \<open>scaler/aggregator.go\<close>: several gateways report to one
  aggregator over a network that may delay, reorder, repeat and lose their reports. A delivery is a
  report with the time at which the aggregator handles it. What is shown holds for every list of
  deliveries in the order of their times, from the start of the aggregator on, so also after a restart
  that lost all members.
\<close>

type_synonym delivery = "time \<times> Aggregator.demandReport"

definition deliver :: "delivery list \<Rightarrow> demandAggregator \<Rightarrow> demandAggregator" where
  "deliver ds a = fold (\<lambda>(t, r) a. snd (update r t a)) ds a"

lemma deliver_simps [simp]: "deliver [] a = a" "deliver (ds @ [(t, r)]) a = snd (update r t (deliver ds a))"
  by (simp_all add: deliver_def)

text \<open>The first delivery of the report with the highest sequence number of a member.\<close>

definition newer :: "string \<Rightarrow> delivery \<Rightarrow> delivery option \<Rightarrow> delivery option" where
  "newer i d best =
     (if rep_MemberID (snd d) \<noteq> i then best
      else case best of
          None \<Rightarrow> Some d
        | Some b \<Rightarrow> if rep_Sequence (snd d) \<le> rep_Sequence (snd b) then best else Some d)"

definition newest_of :: "string \<Rightarrow> delivery list \<Rightarrow> delivery option" where
  "newest_of i ds = fold (newer i) ds None"

lemma newest_of_simps [simp]: "newest_of i [] = None" "newest_of i (ds @ [d]) = newer i d (newest_of i ds)"
  by (simp_all add: newest_of_def)

definition reporting :: "delivery list \<Rightarrow> string set" where
  "reporting ds = (rep_MemberID \<circ> snd) ` set ds"

lemma reporting_simps [simp]:
  "reporting [] = {}" "reporting (ds @ [d]) = insert (rep_MemberID (snd d)) (reporting ds)" "finite (reporting ds)"
  by (auto simp: reporting_def)

lemma newest_of_None: "newest_of i ds = None \<longleftrightarrow> i \<notin> reporting ds"
  by (induction ds rule: rev_induct) (auto simp: newer_def split: option.splits)

lemma newest_of_Some:
  "newest_of i ds = Some (t, r) \<Longrightarrow>
     (t, r) \<in> set ds \<and> rep_MemberID r = i
     \<and> (\<forall>(t', r') \<in> set ds. rep_MemberID r' = i \<longrightarrow> rep_Sequence r' \<le> rep_Sequence r)"
proof (induction ds arbitrary: t r rule: rev_induct)
  case (snoc d ds)
  show ?case
  proof (cases "newest_of i ds")
    case None
    then have "\<forall>(t', r') \<in> set ds. rep_MemberID r' \<noteq> i" by (force simp: newest_of_None reporting_def)
    with None snoc.prems show ?thesis by (auto simp: newer_def split: if_splits)
  next
    case (Some b)
    with snoc.IH [of "fst b" "snd b"] snoc.prems show ?thesis by (fastforce simp: newer_def split: if_splits)
  qed
qed simp

subsection \<open>What the aggregator remembers\<close>

definition entry :: "duration \<Rightarrow> delivery \<Rightarrow> demandMember" where
  "entry ttl d = \<lparr>mem_sequence = rep_Sequence (snd d), mem_demand = rep_Demand (snd d), mem_expiresAt = fst d + ttl\<rparr>"

lemma entry_simps [simp]:
  "mem_sequence (entry ttl d) = rep_Sequence (snd d)" "mem_demand (entry ttl d) = rep_Demand (snd d)"
  "mem_expiresAt (entry ttl d) = fst d + ttl"
  by (simp_all add: entry_def)

definition last_time :: "delivery list \<Rightarrow> time \<Rightarrow> bool" where
  "last_time ds now \<longleftrightarrow> sorted (map fst ds) \<and> (\<forall>d \<in> set ds. fst d \<le> now)"

lemma last_time_snoc: "last_time (ds @ [d]) now \<longleftrightarrow> last_time ds (fst d) \<and> fst d \<le> now"
  by (auto simp: last_time_def sorted_append intro: order_trans)

text \<open>
  Every member comes from a delivered report, and the newest report of a member is remembered until
  its lease ends.
\<close>

definition remembers :: "duration \<Rightarrow> delivery list \<Rightarrow> time \<Rightarrow> agg_spec \<Rightarrow> bool" where
  "remembers ttl ds now M \<longleftrightarrow>
     (\<forall>i mem. M i = Some mem \<longrightarrow> (\<exists>d \<in> set ds. rep_MemberID (snd d) = i \<and> mem = entry ttl d))
     \<and> (\<forall>i d. newest_of i ds = Some d \<longrightarrow> now < fst d + ttl \<longrightarrow> M i = Some (entry ttl d))"

lemma remembers_expire: "remembers ttl ds now M \<Longrightarrow> now \<le> now' \<Longrightarrow> remembers ttl ds now' (spec_expire now' M)"
  unfolding remembers_def spec_expire_def by (auto split: option.splits if_splits)

lemma remembers_newest: "remembers ttl ds now M \<Longrightarrow> newest_of i ds = Some d \<Longrightarrow> now < fst d + ttl \<Longrightarrow> M i = Some (entry ttl d)"
  unfolding remembers_def by blast

lemma remembers_origin: "remembers ttl ds now M \<Longrightarrow> M i = Some mem \<Longrightarrow> \<exists>d \<in> set ds. rep_MemberID (snd d) = i \<and> mem = entry ttl d"
  unfolding remembers_def by blast

lemma remembers_dom: "remembers ttl ds now M \<Longrightarrow> dom M \<subseteq> reporting ds"
  by (force simp: remembers_def reporting_def)

lemma remembers_update:
  assumes rem: "remembers ttl ds t M" and room: "int (card (reporting (ds @ [(t, r)]))) \<le> maxM"
    and own: "spec_expire t M = M"
  shows "remembers ttl (ds @ [(t, r)]) t (snd (spec_update maxM ttl r t M))"
proof -
  let ?i = "rep_MemberID r"
  have new: "\<lparr>mem_sequence = rep_Sequence r, mem_demand = rep_Demand r, mem_expiresAt = t + ttl\<rparr> = entry ttl (t, r)"
    by (simp add: entry_def)
  have cap: "int (card (dom M)) < maxM" if "M ?i = None"
  proof -
    have "dom M \<subset> reporting (ds @ [(t, r)])" using remembers_dom [OF rem] that by auto
    then have "card (dom M) < card (reporting (ds @ [(t, r)]))" by (rule psubset_card_mono [rotated]) simp
    with room show ?thesis by simp
  qed
  let ?fresh = "\<forall>mem. M ?i = Some mem \<longrightarrow> mem_sequence mem < rep_Sequence r"
  have M': "snd (spec_update maxM ttl r t M) = (if ?fresh then M(?i \<mapsto> entry ttl (t, r)) else M)"
    using cap by (auto simp: spec_update_def own new Let_def split: option.splits)
  have "(if ?fresh then M(?i \<mapsto> entry ttl (t, r)) else M) i = Some (entry ttl d)"
    if d: "newest_of i (ds @ [(t, r)]) = Some d" and live: "t < fst d + ttl" for i d
  proof (cases "i = ?i")
    case True
    have none: "M ?i = None" if "newest_of i ds = None"
      using that remembers_dom [OF rem] True by (auto simp: newest_of_None)
    have seq: "mem_sequence mem \<le> rep_Sequence (snd b)" if nb: "newest_of i ds = Some b" and mi: "M ?i = Some mem" for b mem
    proof -
      obtain d' where d': "d' \<in> set ds" "rep_MemberID (snd d') = ?i" "mem = entry ttl d'"
        using remembers_origin [OF rem mi] by blast
      with newest_of_Some [of i ds "fst b" "snd b"] nb True have "rep_Sequence (snd d') \<le> rep_Sequence (snd b)" by auto
      with d' show ?thesis by simp
    qed
    show ?thesis
    proof (cases "newest_of i ds")
      case None
      with d True none show ?thesis by (simp add: newer_def)
    next
      case (Some b)
      show ?thesis
      proof (cases "rep_Sequence r \<le> rep_Sequence (snd b)")
        case stale: True
        with d Some True have "d = b" by (simp add: newer_def)
        with Some live True have "M ?i = Some (entry ttl b)" using remembers_newest [OF rem] by simp
        with stale True \<open>d = b\<close> show ?thesis by auto
      next
        case False
        with d Some True have "d = (t, r)" by (simp add: newer_def)
        moreover have ?fresh using seq [OF Some] False by (meson leI order_less_le_trans not_le)
        ultimately show ?thesis using True by simp
      qed
    qed
  next
    case False
    then have "M i = Some (entry ttl d)" using d live remembers_newest [OF rem] by (simp add: newer_def)
    with False show ?thesis by simp
  qed
  with rem M' show ?thesis by (auto simp: remembers_def)
qed

lemma spec_expire_idem [simp]: "spec_expire t (spec_expire t M) = spec_expire t M"
  by (auto simp: spec_expire_def fun_eq_iff split: option.split)

lemma spec_update_expire: "spec_update maxM ttl r t (spec_expire t M) = spec_update maxM ttl r t M"
  by (simp add: spec_update_def)

lemma deliver_remembers:
  assumes "in_int64 (cfg_MaxDemand c)" and "last_time ds now"
    and "list_all (valid_report (maxDemand (NewDemandAggregator c)) \<circ> snd) ds"
    and "int (card (reporting ds)) \<le> maxMembers (NewDemandAggregator c)"
  defines "a \<equiv> deliver ds (NewDemandAggregator c)"
  shows "agg_ok a \<and> maxMembers a = maxMembers (NewDemandAggregator c) \<and> maxDemand a = maxDemand (NewDemandAggregator c)
    \<and> memberTTL a = memberTTL (NewDemandAggregator c)
    \<and> remembers (memberTTL (NewDemandAggregator c)) ds now (spec_expire now (abs_members a))"
  using assms(2-4) unfolding a_def
proof (induction ds arbitrary: now rule: rev_induct)
  case Nil
  have "abs_members (NewDemandAggregator c) = Map.empty" by (simp add: abs_members_def NewDemandAggregator_def)
  then show ?case using agg_ok_new [OF assms(1)] by (simp add: remembers_def spec_expire_def)
next
  case (snoc d ds)
  obtain t r where d: "d = (t, r)" by fastforce
  let ?a = "deliver ds (NewDemandAggregator c)"
  have "card (reporting ds) \<le> card (reporting (ds @ [d]))" by (rule card_mono) auto
  with snoc.prems d have IH: "agg_ok ?a" "maxMembers ?a = maxMembers (NewDemandAggregator c)"
    "maxDemand ?a = maxDemand (NewDemandAggregator c)" "memberTTL ?a = memberTTL (NewDemandAggregator c)"
    "remembers (memberTTL (NewDemandAggregator c)) ds t (spec_expire t (abs_members ?a))"
    using snoc.IH [of t] by (simp_all add: last_time_snoc)
  have "snd (spec_update (maxMembers ?a) (memberTTL ?a) r t (spec_expire t (abs_members ?a))) = abs_members (snd (update r t ?a))"
    using update_refines_spec [OF IH(1), of r t] by (simp only: spec_update_expire) (metis snd_conv)
  with remembers_update [OF IH(5), of r "maxMembers ?a"] snoc.prems(3) IH(2,4) d
  have "remembers (memberTTL (NewDemandAggregator c)) (ds @ [d]) t (abs_members (snd (update r t ?a)))" by simp
  then have "remembers (memberTTL (NewDemandAggregator c)) (ds @ [d]) now (spec_expire now (abs_members (snd (update r t ?a))))"
    by (rule remembers_expire) (use snoc.prems(1) d in \<open>simp add: last_time_snoc\<close>)
  moreover have "agg_ok (snd (update r t ?a))"
    using snoc.prems(2) IH d valid_report_bounds by (intro update_ok) (auto simp del: Aggregator.update_frame)
  ultimately show ?case using IH d by (simp add: frame_simps)
qed

subsection \<open>The demand of a fleet\<close>

text \<open>
  A member is \<open>live\<close> at \<open>now\<close> when the lease of its newest report runs, and \<open>silent\<close> when the lease of
  every report of it has ended.
\<close>

definition live_member :: "duration \<Rightarrow> delivery list \<Rightarrow> time \<Rightarrow> string \<Rightarrow> bool" where
  "live_member ttl ds now i \<longleftrightarrow> (case newest_of i ds of None \<Rightarrow> False | Some d \<Rightarrow> now < fst d + ttl)"

definition silent_member :: "duration \<Rightarrow> delivery list \<Rightarrow> time \<Rightarrow> string \<Rightarrow> bool" where
  "silent_member ttl ds now i \<longleftrightarrow> list_all (\<lambda>d. rep_MemberID (snd d) = i \<longrightarrow> fst d + ttl \<le> now) ds"

definition newest_demand :: "delivery list \<Rightarrow> string \<Rightarrow> int" where
  "newest_demand ds i = (case newest_of i ds of None \<Rightarrow> 0 | Some d \<Rightarrow> rep_Demand (snd d))"

lemma remembered_members:
  assumes "remembers ttl ds now (spec_expire now M)"
    and "\<forall>i \<in> reporting ds. live_member ttl ds now i \<or> silent_member ttl ds now i"
  shows "spec_expire now M i = (if live_member ttl ds now i then map_option (entry ttl) (newest_of i ds) else None)"
proof (cases "live_member ttl ds now i")
  case True
  then obtain d where "newest_of i ds = Some d" "now < fst d + ttl" by (auto simp: live_member_def split: option.splits)
  with True show ?thesis using remembers_newest [OF assms(1)] by simp
next
  case False
  have "spec_expire now M i = None"
  proof (rule ccontr)
    assume "spec_expire now M i \<noteq> None"
    then obtain mem where mem: "spec_expire now M i = Some mem" by blast
    then obtain d where d: "d \<in> set ds" "rep_MemberID (snd d) = i" "mem = entry ttl d"
      using remembers_origin [OF assms(1)] by blast
    have "now < fst d + ttl" using mem d by (auto simp: spec_expire_def split: option.splits if_splits)
    moreover have "silent_member ttl ds now i" using assms(2) d False by (force simp: reporting_def)
    ultimately show False using d by (force simp: silent_member_def list_all_iff)
  qed
  with False show ?thesis by simp
qed

lemma live_reporting: "live_member ttl ds now i \<Longrightarrow> i \<in> reporting ds"
  using newest_of_None [of i ds] by (auto simp: live_member_def split: option.splits)

lemma spec_demand_live:
  assumes "\<And>i. M i = (if live_member ttl ds now i then map_option (entry ttl) (newest_of i ds) else None)"
  shows "spec_demand M = min MaxInt64 (\<Sum>i \<in> {i \<in> reporting ds. live_member ttl ds now i}. newest_demand ds i)"
proof -
  have "dom M = {i \<in> reporting ds. live_member ttl ds now i}"
    using live_reporting [of ttl ds now] by (auto simp: assms dom_def live_member_def split: option.splits)
  moreover have "mem_demand (the (M i)) = newest_demand ds i" if "live_member ttl ds now i" for i
    using that by (auto simp: assms newest_demand_def live_member_def split: option.splits)
  ultimately show ?thesis by (simp add: spec_demand_def)
qed

lemma fleet_total:
  assumes "in_int64 (cfg_MaxDemand c)" and "last_time ds now"
    and "list_all (valid_report (maxDemand (NewDemandAggregator c)) \<circ> snd) ds"
    and "int (card (reporting ds)) \<le> maxMembers (NewDemandAggregator c)"
    and "\<forall>i \<in> reporting ds. live_member (memberTTL (NewDemandAggregator c)) ds now i \<or> silent_member (memberTTL (NewDemandAggregator c)) ds now i"
  shows "fst (Aggregator.Demand now (deliver ds (NewDemandAggregator c))) =
    min MaxInt64 (\<Sum>i \<in> {i \<in> reporting ds. live_member (memberTTL (NewDemandAggregator c)) ds now i}. newest_demand ds i)"
proof -
  let ?a = "deliver ds (NewDemandAggregator c)"
  note d = deliver_remembers [OF assms(1-4)]
  have "fst (Aggregator.Demand now ?a) = spec_demand (spec_expire now (abs_members ?a))"
    using Demand_refines_spec [of ?a now] d by (metis fst_conv)
  then show ?thesis using spec_demand_live [OF remembered_members, OF _ assms(5)] d by simp
qed

subsection \<open>Runs of reporters\<close>

record 'n gateway_run =
  run_net :: "'n report_net"
  run_handle :: subscription
  run_events :: "'n report_event list"
  run_reporter :: DemandReporter
  run_gateway :: gateway
  run_world :: 'n

text \<open>The demands that a gateway took to report, and the requests that its HTTP client was given for them.\<close>

definition run_demands :: "'n gateway_run \<Rightarrow> int list" where
  "run_demands gr = taken (run_net gr) (run_handle gr) (run_events gr) (run_reporter gr, run_gateway gr, run_world gr)"

definition run_posted :: "'n gateway_run \<Rightarrow> http_request list" where
  "run_posted gr = posted (run_net gr) (run_handle gr) (run_events gr) (run_reporter gr, run_gateway gr, run_world gr)"

definition run_id :: "'n gateway_run \<Rightarrow> string" where
  "run_id gr = dr_memberID (run_reporter gr)"

text \<open>A run of a new reporter, with fewer reports than there are sequence numbers.\<close>

definition started_run :: "'n gateway_run \<Rightarrow> bool" where
  "started_run gr \<longleftrightarrow> dr_sequence (run_reporter gr) = 0 \<and> length (run_demands gr) < 2 ^ 64"

definition report_of :: "string \<Rightarrow> uint64 \<Rightarrow> int \<Rightarrow> Aggregator.demandReport" where
  "report_of mid q d = \<lparr>rep_MemberID = mid, rep_Sequence = q, rep_Demand = d\<rparr>"

text \<open>
  The law of \<open>encoding/json\<close> that the composition relies on: the decoder reads back what the encoder wrote for reports
  with the identity of the gateway.
\<close>

definition decodes :: "(string \<Rightarrow> Aggregator.demandReport option) \<Rightarrow> 'n gateway_run \<Rightarrow> bool" where
  "decodes decode gr \<longleftrightarrow> (\<forall>x body. out_MemberID x = run_id gr \<longrightarrow> rn_encode (run_net gr) x = Some body \<longrightarrow>
     decode body = Some (report_of (out_MemberID x) (out_Sequence x) (out_Demand x)))"

text \<open>A delivery that is the body of a request that some gateway of the fleet posted.\<close>

definition delivered_from :: "(string \<Rightarrow> Aggregator.demandReport option) \<Rightarrow> 'n gateway_run list \<Rightarrow> delivery \<Rightarrow> bool" where
  "delivered_from decode fleet d \<longleftrightarrow>
     list_ex (\<lambda>gr. list_ex (\<lambda>q. Option.bind (req_Body q) decode = Some (snd d)) (run_posted gr)) fleet"

lemma posted_content:
  assumes "started_run gr" and "decodes decode gr" and "q \<in> set (run_posted gr)" and "Option.bind (req_Body q) decode = Some r"
  shows "rep_MemberID r = run_id gr \<and>
    (\<exists>k < length (run_demands gr). unat (rep_Sequence r) = Suc k \<and> rep_Demand r = run_demands gr ! k)"
proof -
  obtain xs where xs: "list_all2 (posts_report (run_net gr) (run_reporter gr)) (run_posted gr) xs"
    "subseq xs (numbered (run_id gr) 0 (run_demands gr))"
    using posted_reports [of "run_net gr" "run_reporter gr" "run_handle gr" "run_events gr" "run_gateway gr" "run_world gr"] assms(1)
    by (metis run_posted_def run_id_def run_demands_def started_run_def)
  obtain x where x: "x \<in> set xs" "posts_report (run_net gr) (run_reporter gr) q x"
    using xs(1) assms(3) by (metis in_set_conv_nth list_all2_conv_all_nth)
  obtain k where k: "k < length (run_demands gr)" "numbered (run_id gr) 0 (run_demands gr) ! k = x"
    using subseq_subset [OF xs(2)] x(1) by (metis in_set_conv_nth length_numbered subsetD)
  then have rep: "x = \<lparr>out_MemberID = run_id gr, out_Sequence = of_nat (Suc k), out_Demand = run_demands gr ! k\<rparr>"
    by (simp add: numbered_nth)
  have r: "r = report_of (out_MemberID x) (out_Sequence x) (out_Demand x)"
  proof -
    obtain body where body: "rn_encode (run_net gr) x = Some body" "req_Body q = Some body" using x(2) unfolding posts_report_def by fastforce
    moreover have "out_MemberID x = run_id gr" using rep by simp
    ultimately have "decode body = Some (report_of (out_MemberID x) (out_Sequence x) (out_Demand x))"
      using assms(2) unfolding decodes_def by blast
    with assms(4) body(2) show ?thesis by simp
  qed
  have "unat (of_nat (Suc k) :: uint64) = Suc k"
    using k(1) assms(1) by (simp add: started_run_def unat_of_nat del: of_nat_Suc)
  then show ?thesis using r k(1) rep by (auto simp: report_of_def)
qed

text \<open>The newest report of a gateway that was delivered is that of its demand number \<open>k\<close>, from zero.\<close>

definition newest_delivered :: "delivery list \<Rightarrow> 'n gateway_run \<Rightarrow> nat \<Rightarrow> bool" where
  "newest_delivered ds gr k \<longleftrightarrow>
     k < length (run_demands gr)
     \<and> list_ex (\<lambda>d. rep_MemberID (snd d) = run_id gr \<and> unat (rep_Sequence (snd d)) = Suc k) ds
     \<and> list_all (\<lambda>d. rep_MemberID (snd d) = run_id gr \<longrightarrow> unat (rep_Sequence (snd d)) \<le> Suc k) ds"

lemma delivered_content:
  assumes "list_all started_run fleet" and "list_all (decodes decode) fleet"
    and "list_all (delivered_from decode fleet) ds" and "d \<in> set ds"
  obtains gr k where "gr \<in> set fleet" and "rep_MemberID (snd d) = run_id gr" and "k < length (run_demands gr)"
    and "unat (rep_Sequence (snd d)) = Suc k" and "rep_Demand (snd d) = run_demands gr ! k"
proof -
  obtain gr q where gr: "gr \<in> set fleet" "q \<in> set (run_posted gr)" "Option.bind (req_Body q) decode = Some (snd d)"
    using assms(3,4) by (auto simp: list_all_iff list_ex_iff delivered_from_def)
  moreover have "started_run gr" "decodes decode gr" using assms(1,2) gr(1) by (simp_all add: list_all_iff)
  ultimately show ?thesis using posted_content [of gr decode q "snd d"] that by blast
qed

lemma newest_is_delivered:
  assumes runs: "list_all started_run fleet" "list_all (decodes decode) fleet" "distinct (map run_id fleet)"
    and net: "list_all (delivered_from decode fleet) ds" and gr: "gr \<in> set fleet" and some: "run_id gr \<in> reporting ds"
  shows "\<exists>k. newest_delivered ds gr k \<and> newest_demand ds (run_id gr) = run_demands gr ! k"
proof -
  obtain t r where n: "newest_of (run_id gr) ds = Some (t, r)" using some newest_of_None [of "run_id gr" ds] by force
  note top = newest_of_Some [OF n]
  obtain gr' k where gr': "gr' \<in> set fleet" "rep_MemberID r = run_id gr'" "k < length (run_demands gr')"
    "unat (rep_Sequence r) = Suc k" "rep_Demand r = run_demands gr' ! k"
    by (rule delivered_content [OF runs(1,2) net, of "(t, r)"]) (use top in auto)
  have "gr' = gr" using top runs(3) gr gr'(1,2) by (auto simp: distinct_map dest: inj_onD)
  moreover have "list_all (\<lambda>d. rep_MemberID (snd d) = run_id gr \<longrightarrow> unat (rep_Sequence (snd d)) \<le> Suc k) ds"
    using top unfolding gr'(4) [symmetric] list_all_iff by (auto simp: word_le_nat_alt split: prod.splits)
  moreover have "list_ex (\<lambda>d. rep_MemberID (snd d) = run_id gr \<and> unat (rep_Sequence (snd d)) = Suc k) ds"
    unfolding list_ex_iff using top gr'(4) by (intro bexI [of _ "(t, r)"]) simp_all
  ultimately show ?thesis using gr' n by (auto simp: newest_delivered_def newest_demand_def)
qed

lemma distinct_filter_ids: "distinct (map f xs) \<Longrightarrow> distinct (map f (filter P xs))"
  by (induction xs) auto

lemma sum_ids: "distinct (map f xs) \<Longrightarrow> (\<Sum>i \<in> f ` set xs. w i) = (\<Sum>x \<leftarrow> xs. w (f x))" for w :: "'i \<Rightarrow> int"
  by (induction xs) auto

lemma newest_delivered_last:
  assumes "newest_delivered ds gr k" and "newest_delivered ds gr (length (run_demands gr) - 1)"
  shows "run_demands gr ! k = last (run_demands gr)"
proof -
  have "Suc (length (run_demands gr) - 1) \<le> Suc k"
    using assms unfolding newest_delivered_def list_ex_iff list_all_iff by metis
  then have "k = length (run_demands gr) - 1" using assms(1) unfolding newest_delivered_def by linarith
  then show ?thesis using assms(1) by (cases "run_demands gr") (simp_all add: newest_delivered_def last_conv_nth)
qed

subsection \<open>Properties\<close>

text \<open>
  C3. The demand KEDA reads is that of the live part of the fleet. The reports that the aggregator handles are
  the bodies of requests that the gateways of the fleet posted, in any order and any number of times,
  some or all of a gateway's lost; they are valid, the gateways have identities of their own, and the fleet
  fits the aggregator's limit. Each gateway is live, when the lease of its newest delivered report
  runs, or silent, when the leases of all its delivered reports, if any, have ended. Then the aggregator answers with
  the sum over the live gateways of the demand in the newest delivered report of each, at most the largest
  64-bit integer: silent gateways, reports overtaken by newer ones and those of an earlier life of the
  aggregator leave no trace. That demand is the one the gateway took at that report, and the last one it
  took when its last report was delivered.
\<close>

theorem fleet_demand_exact:
  assumes "in_int64 (cfg_MaxDemand c)" and "list_all started_run fleet" and "distinct (map run_id fleet)"
    and "int (length fleet) \<le> maxMembers (NewDemandAggregator c)" and "last_time ds now"
    and "list_all (valid_report (maxDemand (NewDemandAggregator c)) \<circ> snd) ds"
    and "list_all (decodes decode) fleet" and "list_all (delivered_from decode fleet) ds"
    and "list_all (\<lambda>gr. live_member (memberTTL (NewDemandAggregator c)) ds now (run_id gr)
      \<or> silent_member (memberTTL (NewDemandAggregator c)) ds now (run_id gr)) fleet"
  defines "alive \<equiv> filter (\<lambda>gr. live_member (memberTTL (NewDemandAggregator c)) ds now (run_id gr)) fleet"
  shows "fst (Aggregator.Demand now (deliver ds (NewDemandAggregator c))) = min MaxInt64 (\<Sum>gr \<leftarrow> alive. newest_demand ds (run_id gr))
    \<and> list_all (\<lambda>gr. \<exists>k. newest_delivered ds gr k \<and> newest_demand ds (run_id gr) = run_demands gr ! k
        \<and> (newest_delivered ds gr (length (run_demands gr) - 1) \<longrightarrow> newest_demand ds (run_id gr) = last (run_demands gr))) alive"
proof -
  let ?ttl = "memberTTL (NewDemandAggregator c)"
  have ids: "reporting ds \<subseteq> run_id ` set fleet"
  proof
    fix i assume "i \<in> reporting ds"
    then obtain d where d: "d \<in> set ds" "rep_MemberID (snd d) = i" by (auto simp: reporting_def)
    show "i \<in> run_id ` set fleet" by (rule delivered_content [OF assms(2,7,8) d(1)]) (use d(2) in auto)
  qed
  then have "card (reporting ds) \<le> card (run_id ` set fleet)" by (simp add: card_mono)
  also have "\<dots> \<le> length fleet" by (metis card_length list.set_map length_map)
  finally have room: "int (card (reporting ds)) \<le> maxMembers (NewDemandAggregator c)" using assms(4) by simp
  have "\<forall>i \<in> reporting ds. live_member ?ttl ds now i \<or> silent_member ?ttl ds now i"
    using ids assms(9) by (auto simp: list_all_iff)
  then have "fst (Aggregator.Demand now (deliver ds (NewDemandAggregator c))) =
      min MaxInt64 (\<Sum>i \<in> {i \<in> reporting ds. live_member ?ttl ds now i}. newest_demand ds i)"
    by (rule fleet_total [OF assms(1,5,6) room])
  also have "{i \<in> reporting ds. live_member ?ttl ds now i} = run_id ` set alive"
    using ids live_reporting [of ?ttl ds now] by (auto simp: alive_def)
  also have "(\<Sum>i \<in> run_id ` set alive. newest_demand ds i) = (\<Sum>gr \<leftarrow> alive. newest_demand ds (run_id gr))"
    unfolding alive_def by (rule sum_ids [OF distinct_filter_ids [OF assms(3)]])
  finally have total: "fst (Aggregator.Demand now (deliver ds (NewDemandAggregator c))) =
      min MaxInt64 (\<Sum>gr \<leftarrow> alive. newest_demand ds (run_id gr))" .
  have "\<exists>k. newest_delivered ds gr k \<and> newest_demand ds (run_id gr) = run_demands gr ! k
      \<and> (newest_delivered ds gr (length (run_demands gr) - 1) \<longrightarrow> newest_demand ds (run_id gr) = last (run_demands gr))"
    if "gr \<in> set alive" for gr
    using newest_is_delivered [OF assms(2,7,3,8), of gr] live_reporting [of ?ttl ds now] newest_delivered_last that
    unfolding alive_def by fastforce
  with total show ?thesis by (simp add: list_all_iff)
qed

text \<open>
  Three gateways. The first report of \<open>a\<close> arrives after its second, the second report of \<open>b\<close> is lost, and the lease
  of \<open>c\<close> has ended. The codec of the example separates the fields by commas.
\<close>

definition example_json_encode :: "Reporter.demandReport \<Rightarrow> string option" where
  "example_json_encode x = (if in_int64 (uint (out_Sequence x)) \<and> in_int64 (out_Demand x) then Some (example_encode x) else None)"

definition upto_comma :: "string \<Rightarrow> string" where "upto_comma s = takeWhile (\<lambda>c. c \<noteq> CHR '','') s"
definition after_comma :: "string \<Rightarrow> string" where "after_comma s = tl (dropWhile (\<lambda>c. c \<noteq> CHR '','') s)"

definition example_json_decode :: "string \<Rightarrow> Aggregator.demandReport option" where
  "example_json_decode body =
     (case ParseInt (upto_comma body) of
        None \<Rightarrow> None
      | Some q \<Rightarrow> map_option (report_of (after_comma (after_comma body)) (word_of_int q)) (ParseInt (upto_comma (after_comma body))))"

lemma itoa_no_comma: "c \<in> set (itoa n) \<Longrightarrow> c \<noteq> CHR '',''"
  using utoa_digits [of "nat n"] utoa_digits [of "nat (- n)"] by (auto simp: itoa_def list_all_iff is_digit_def split: if_splits)

lemma comma_itoa: "upto_comma (itoa n @ CHR '','' # s) = itoa n" "after_comma (itoa n @ CHR '','' # s) = s"
  by (simp_all add: upto_comma_def after_comma_def itoa_no_comma takeWhile_append dropWhile_append)

definition example_fleet_net :: "unit report_net" where
  "example_fleet_net = example_net\<lparr>rn_encode := example_json_encode\<rparr>"

lemma example_decodes: "run_net gr = example_fleet_net \<Longrightarrow> decodes example_json_decode gr"
  by (auto simp: decodes_def example_fleet_net_def example_json_encode_def example_encode_def example_json_decode_def
      comma_itoa ParseInt_itoa split: if_splits)

definition example_run :: "string \<Rightarrow> int \<Rightarrow> int \<Rightarrow> unit gateway_run" where
  "example_run mid p q = \<lparr>run_net = example_fleet_net, run_handle = example_handle,
     run_events = [Heartbeat 5, Meanwhile (\<lambda>g. g\<lparr>pending := q\<rparr>) (\<lambda>n. n), Heartbeat 6],
     run_reporter = example_reporter\<lparr>dr_memberID := mid\<rparr>, run_gateway = example_gateway\<lparr>pending := p\<rparr>, run_world = ()\<rparr>"

definition example_deliveries :: "delivery list" where
  "example_deliveries = [(0, report_of ''c'' 2 9), (100 * Second, report_of ''b'' 1 4),
     (100 * Second + 1, report_of ''a'' 2 3), (100 * Second + 2, report_of ''a'' 1 8)]"

lemma example_run_demands: "0 < p \<Longrightarrow> 0 < q \<Longrightarrow> run_demands (example_run mid p q) = [p, q]"
  by (cases "send example_fleet_net p (example_reporter\<lparr>dr_memberID := mid\<rparr>, example_gateway\<lparr>pending := p\<rparr>, ())")
     (simp add: run_demands_def example_run_def Gateway.Demand_def)

lemma example_run_posted:
  assumes "0 < p" and "0 < q" and "in_int64 p" and "in_int64 q"
  shows "map (\<lambda>x. Option.bind (req_Body x) example_json_decode) (run_posted (example_run mid p q))
    = [Some (report_of mid 1 p), Some (report_of mid 2 q)]"
  using assms example_token_read
  by (simp add: run_posted_def posted_def example_run_def send_def report_request_def example_fleet_net_def example_net_def
      example_reporter_def Gateway.Demand_def recordDemandReport_def Let_def example_json_encode_def example_encode_def
      example_json_decode_def comma_itoa ParseInt_itoa in_int64_def MaxInt64_def)

lemma example_fleet_limits:
  "maxDemand (NewDemandAggregator example_config) = 100" "1 < maxMembers (NewDemandAggregator example_config)"
  "2 < memberTTL (NewDemandAggregator example_config)"
  by (simp_all add: NewDemandAggregator_def example_config_def defaultMemberTTL_def defaultMaxMembers_def duration_defs)

definition example_fleet_config :: DemandAggregatorConfig where
  "example_fleet_config = example_config\<lparr>cfg_MaxMembers := 3\<rparr>"

lemma example_fleet_ttl:
  "in_int64 (cfg_MaxDemand example_fleet_config)" "maxDemand (NewDemandAggregator example_fleet_config) = 100"
  "maxMembers (NewDemandAggregator example_fleet_config) = 3" "2 < memberTTL (NewDemandAggregator example_fleet_config)"
  "memberTTL (NewDemandAggregator example_fleet_config) \<le> 100 * Second"
  using example_config_ok
  by (simp_all add: example_fleet_config_def NewDemandAggregator_def example_config_def defaultMemberTTL_def duration_defs)

lemma delivered_fromI:
  "gr \<in> set fleet \<Longrightarrow> Some r \<in> set (map (\<lambda>x. Option.bind (req_Body x) decode) (run_posted gr)) \<Longrightarrow> delivered_from decode fleet (t, r)"
  by (force simp: delivered_from_def list_ex_iff)

definition example_fleet :: "unit gateway_run list" where
  "example_fleet = [example_run ''a'' 8 3, example_run ''b'' 4 6, example_run ''c'' 9 9]"

lemma example_fleet_delivered: "list_all (delivered_from example_json_decode example_fleet) example_deliveries"
proof -
  have p: "map (\<lambda>x. Option.bind (req_Body x) example_json_decode) (run_posted (example_run mid p q))
      = [Some (report_of mid 1 p), Some (report_of mid 2 q)]" if "0 < p" "0 < q" "p < 10" "q < 10" for mid p q
    using that by (intro example_run_posted) (simp_all add: in_int64_def MaxInt64_def)
  have "delivered_from example_json_decode example_fleet (t, report_of mid n d)"
    if "(mid, p, q) \<in> {(''a'', 8, 3), (''b'', 4, 6), (''c'', 9, 9)}" "(n, d) = (1, p) \<or> (n, d) = (2, q)" for t mid p q n d
    by (rule delivered_fromI [of "example_run mid p q"])
       (use that p [of p q mid] in \<open>auto simp: example_fleet_def simp del: list.set_map\<close>)
  then show ?thesis by (simp add: example_deliveries_def)
qed

lemma example_newest:
  "newest_of ''a'' example_deliveries = Some (100 * Second + 1, report_of ''a'' 2 3)"
  "newest_of ''b'' example_deliveries = Some (100 * Second, report_of ''b'' 1 4)"
  "newest_of ''c'' example_deliveries = Some (0, report_of ''c'' 2 9)"
  by (simp_all add: newest_of_def newer_def example_deliveries_def report_of_def)

theorem fleet_demand_exact_witness:
  "fst (Aggregator.Demand (100 * Second + 2) (deliver example_deliveries (NewDemandAggregator example_fleet_config))) = 7"
proof -
  let ?ds = example_deliveries and ?ttl = "memberTTL (NewDemandAggregator example_fleet_config)" and ?now = "100 * Second + 2"
  have runs: "list_all started_run example_fleet"
    by (simp add: started_run_def example_fleet_def example_run_demands) (simp add: example_run_def example_reporter_def)
  have ids: "distinct (map run_id example_fleet)" by (simp add: run_id_def example_fleet_def example_run_def)
  have size: "int (length example_fleet) \<le> maxMembers (NewDemandAggregator example_fleet_config)"
    by (simp add: example_fleet_def example_fleet_ttl(3))
  have times: "last_time ?ds ?now" by (simp add: last_time_def example_deliveries_def duration_defs)
  have valid: "list_all (valid_report (maxDemand (NewDemandAggregator example_fleet_config)) \<circ> snd) ?ds"
    by (simp add: example_fleet_ttl(2) example_deliveries_def report_of_def valid_report_def maxMemberIDLength_def)
  have codec: "list_all (decodes example_json_decode) example_fleet"
    using example_decodes by (simp add: example_fleet_def example_run_def)
  have live: "live_member ?ttl ?ds ?now ''a''" "live_member ?ttl ?ds ?now ''b''" "\<not> live_member ?ttl ?ds ?now ''c''"
    using example_fleet_ttl(4,5) by (simp_all add: live_member_def example_newest)
  have silent: "silent_member ?ttl ?ds ?now ''c''"
    using example_fleet_ttl(5) by (simp add: silent_member_def example_deliveries_def report_of_def)
  have id: "run_id (example_run mid p q) = mid" for mid p q by (simp add: run_id_def example_run_def)
  have members: "list_all (\<lambda>gr. live_member ?ttl ?ds ?now (run_id gr) \<or> silent_member ?ttl ?ds ?now (run_id gr)) example_fleet"
    using live silent by (simp add: example_fleet_def id)
  have "(\<Sum>gr \<leftarrow> filter (\<lambda>gr. live_member ?ttl ?ds ?now (run_id gr)) example_fleet. newest_demand ?ds (run_id gr)) = 7"
    using live by (simp add: example_fleet_def id newest_demand_def example_newest report_of_def)
  then show ?thesis
    using fleet_demand_exact [OF example_fleet_ttl(1) runs ids size times valid codec example_fleet_delivered members]
    by (simp add: MaxInt64_def)
qed

end
