(* ===== verification/External_Scaler.thy ===== *)
theory External_Scaler
  imports Complex_Main Aggregator
begin

section \<open>The KEDA external scaler\<close>

text \<open>
  \<open>internal/gateway/scaler/external_scaler.go\<close>: the gRPC service KEDA calls. The Go interface
  \<open>demandSource\<close> is a record of functions on the source's state; the stream is driven by the
  events its \<open>select\<close> sees, with the other goroutines' steps on the source in between. The
  locale \<open>demand_source\<close> states what the stream relies on, and is interpreted on the aggregator.
\<close>

subsection \<open>Floating-point text\<close>

text \<open>
  \<open>strconv.ParseFloat(s, 64)\<close> on decimal text and on the special values; \<open>otherFloat\<close> stands for
  its results on text with a base prefix or underscores. A finite value is the rational number
  the \<open>float64\<close> denotes, after rounding to nearest even with the exponent range of the format.
\<close>

datatype go_float = NaN | Inf bool | Finite rat

definition pow2 :: "int \<Rightarrow> rat" where
  "pow2 e = (if 0 \<le> e then 2 ^ nat e else 1 / 2 ^ nat (- e))"

definition round_half_even :: "rat \<Rightarrow> int" where
  "round_half_even q =
     (let f = \<lfloor>q\<rfloor>; r = q - of_int f
      in if r < 1 / 2 then f else if 1 / 2 < r then f + 1 else if even f then f else f + 1)"

definition binade :: "rat \<Rightarrow> int" where
  "binade q =
     (let (n, d) = quotient_of q; e = int (bit_length (nat n)) - int (bit_length (nat d))
      in if pow2 e \<le> q then e else e - 1)"

definition round_float64 :: "rat \<Rightarrow> rat" where
  "round_float64 q =
     (if q = 0 then 0
      else let u = pow2 (max (binade \<bar>q\<bar>) (- 1022) - 52) in of_int (round_half_even (q / u)) * u)"

definition exponent_value :: "string \<Rightarrow> int" where
  "exponent_value ds = int (foldl (\<lambda>e c. if e < 10000 then 10 * e + digit_value c else e) 0 ds)"

text \<open>The optional exponent: its value and whether the text is well formed to its end.\<close>

definition parse_exponent :: "string \<Rightarrow> int option" where
  "parse_exponent s =
     (case s of
        [] \<Rightarrow> Some 0
      | c # cs \<Rightarrow>
          if c \<noteq> CHR ''e'' \<and> c \<noteq> CHR ''E'' then None
          else let (neg, ds) = (case cs of
                   x # xs \<Rightarrow> if x = CHR ''-'' then (True, xs) else if x = CHR ''+'' then (False, xs) else (False, cs)
                 | [] \<Rightarrow> (False, []))
            in if ds = [] \<or> \<not> list_all is_digit ds then None
               else Some (if neg then - exponent_value ds else exponent_value ds))"

definition parse_decimal :: "string \<Rightarrow> rat option" where
  "parse_decimal s =
     (let whole = takeWhile is_digit s; rest = dropWhile is_digit s;
          (frac, rest) = (case rest of
              c # cs \<Rightarrow> if c = CHR ''.'' then (takeWhile is_digit cs, dropWhile is_digit cs) else ([], rest)
            | [] \<Rightarrow> ([], []))
      in if whole @ frac = [] then None
         else map_option (\<lambda>e. of_nat (atou (whole @ frac)) *
                (if int (length frac) \<le> e then 10 ^ nat (e - int (length frac))
                 else 1 / 10 ^ nat (int (length frac) - e))) (parse_exponent rest))"

definition ParseFloat :: "(string \<Rightarrow> go_float option) \<Rightarrow> string \<Rightarrow> go_float option" where
  "ParseFloat otherFloat s =
     (let (neg, ds) = (case s of
            c # cs \<Rightarrow> if c = CHR ''-'' then (True, cs) else if c = CHR ''+'' then (False, cs) else (False, s)
          | [] \<Rightarrow> (False, []))
      in if ToLower ds \<in> {''inf'', ''infinity''} then Some (Inf neg)
         else if ToLower s = ''nan'' then Some NaN
         else if CHR ''_'' \<in> set s \<or> HasPrefix (ToLower ds) ''0x'' then otherFloat s
         else case parse_decimal ds of
                None \<Rightarrow> None
              | Some q \<Rightarrow> let v = round_float64 q in
                  if 2 ^ 1024 \<le> v then None else Some (Finite (if neg then - v else v)))"

subsection \<open>The service\<close>

datatype grpc_error = InvalidArgument string

definition scalerMetricName :: string where "scalerMetricName = ''pending''"

record scaledObjectRef =
  ref_scalerMetadata :: "(string, string) gomap"

record getMetricsRequest =
  gm_scaledObjectRef :: "scaledObjectRef option"
  gm_metricName :: string

definition parseScalerMetadata ::
  "(string \<Rightarrow> go_float option) \<Rightarrow> scaledObjectRef option \<Rightarrow> grpc_error + string \<times> go_float" where
  "parseScalerMetadata otherFloat ref =
     (case ref of
        None \<Rightarrow> Inl (InvalidArgument ''scaledObjectRef is required'')
      | Some ref \<Rightarrow>
          let metadata = ref_scalerMetadata ref;
              metricName = lookup0 [] metadata ''metricName'';
              metricName = (if metricName = [] then scalerMetricName else metricName);
              targetText = lookup0 [] metadata ''targetValue''
          in if metricName \<noteq> scalerMetricName
             then Inl (InvalidArgument (''unsupported metricName '' @ Quote metricName))
             else if targetText = []
             then Inl (InvalidArgument ''targetValue metadata is required'')
             else case ParseFloat otherFloat targetText of
                    Some (Finite q) \<Rightarrow>
                      if q \<le> 0
                      then Inl (InvalidArgument (''targetValue '' @ Quote targetText @ '' must be a positive number''))
                      else Inr (metricName, Finite q)
                  | _ \<Rightarrow> Inl (InvalidArgument (''targetValue '' @ Quote targetText @ '' must be a positive number'')))"

text \<open>
  The interface \<open>demandSource\<close>. The second result of \<open>SubscribeDemand\<close> is the handle \<open>'h\<close> that
  the unsubscribe function closes over; a receive on the channel is an operation of the source
  because the channel's buffer is part of its state.
\<close>

record ('s, 'h) demandSource =
  src_Demand :: "'s \<Rightarrow> int \<times> 's"
  src_SubscribeDemand :: "'s \<Rightarrow> 'h \<times> 's"
  src_receive :: "'h \<Rightarrow> 's \<Rightarrow> (int \<times> 's) option"
  src_unsubscribe :: "'h \<Rightarrow> 's \<Rightarrow> 's"
  src_ScalerStreamConnected :: "'s \<Rightarrow> 's"
  src_ScalerStreamDisconnected :: "'s \<Rightarrow> 's"

definition IsActive ::
  "(string \<Rightarrow> go_float option) \<Rightarrow> ('s, 'h) demandSource \<Rightarrow> scaledObjectRef option \<Rightarrow> 's \<Rightarrow> (grpc_error + bool) \<times> 's" where
  "IsActive otherFloat src ref s =
     (case parseScalerMetadata otherFloat ref of
        Inl e \<Rightarrow> (Inl e, s)
      | Inr _ \<Rightarrow> let (d, s) = src_Demand src s in (Inr (d > 0), s))"

definition GetMetricSpec ::
  "(string \<Rightarrow> go_float option) \<Rightarrow> scaledObjectRef option \<Rightarrow> grpc_error + (string \<times> go_float) list" where
  "GetMetricSpec otherFloat ref =
     (case parseScalerMetadata otherFloat ref of
        Inl e \<Rightarrow> Inl e
      | Inr (metricName, target) \<Rightarrow> Inr [(metricName, target)])"

definition GetMetrics ::
  "(string \<Rightarrow> go_float option) \<Rightarrow> ('s, 'h) demandSource \<Rightarrow> getMetricsRequest option \<Rightarrow> 's \<Rightarrow>
     (grpc_error + (string \<times> int) list) \<times> 's" where
  "GetMetrics otherFloat src req s =
     (case req of
        None \<Rightarrow> (Inl (InvalidArgument ''metrics request is required''), s)
      | Some req \<Rightarrow>
          (case parseScalerMetadata otherFloat (gm_scaledObjectRef req) of
             Inl e \<Rightarrow> (Inl e, s)
           | Inr (metricName, _) \<Rightarrow>
               if gm_metricName req \<noteq> metricName
               then (Inl (InvalidArgument (''metricName '' @ Quote (gm_metricName req) @
                       '' does not match configured metric '' @ Quote metricName)), s)
               else let (d, s) = src_Demand src s in (Inr [(metricName, float64_of_int d)], s)))"

subsection \<open>The activation stream\<close>

text \<open>
  What happens while \<open>StreamIsActive\<close> waits in its \<open>select\<close>: another goroutine acts on the
  source, the context ends, or the update branch is taken; its flag says whether \<open>Send\<close>
  succeeds. The update branch cannot be taken while the channel is empty.
\<close>

datatype 's stream_event = Other "'s \<Rightarrow> 's" | StreamDone | TakeUpdate bool

datatype stream_result = Waiting | ContextErr | SendErr | Rejected grpc_error

fun stream_loop ::
  "('s, 'h) demandSource \<Rightarrow> 'h \<Rightarrow> 's stream_event list \<Rightarrow> bool \<Rightarrow> bool \<Rightarrow> 's \<Rightarrow> bool list \<Rightarrow>
     bool list \<times> stream_result \<times> 's" where
  "stream_loop src h [] sent lastActive s out = (out, Waiting, s)"
| "stream_loop src h (Other f # es) sent lastActive s out = stream_loop src h es sent lastActive (f s) out"
| "stream_loop src h (StreamDone # es) sent lastActive s out = (out, ContextErr, s)"
| "stream_loop src h (TakeUpdate ok # es) sent lastActive s out =
     (case src_receive src h s of
        None \<Rightarrow> stream_loop src h es sent lastActive s out
      | Some (demand, s) \<Rightarrow>
          let active = demand > 0 in
          if sent \<and> active = lastActive then stream_loop src h es sent lastActive s out
          else if \<not> ok then (out, SendErr, s)
          else stream_loop src h es True active s (out @ [active]))"

definition StreamIsActive ::
  "(string \<Rightarrow> go_float option) \<Rightarrow> ('s, 'h) demandSource \<Rightarrow> scaledObjectRef option \<Rightarrow> 's stream_event list \<Rightarrow> 's \<Rightarrow>
     bool list \<times> stream_result \<times> 's" where
  "StreamIsActive otherFloat src ref es s =
     (case parseScalerMetadata otherFloat ref of
        Inl e \<Rightarrow> ([], Rejected e, s)
      | Inr _ \<Rightarrow>
          let (h, s) = src_SubscribeDemand src s;
              s = src_ScalerStreamConnected src s;
              (out, res, s) = stream_loop src h es False False s []
          in if res = Waiting then (out, res, s)
             else (out, res, src_unsubscribe src h (src_ScalerStreamDisconnected src s)))"


subsection \<open>What the stream relies on\<close>

text \<open>
  \<open>cur s\<close> is the demand the source published last, \<open>unread s h\<close> what the holder of \<open>h\<close> has not
  read yet. The other goroutines' actions \<open>env\<close> either leave the holder's channel and the
  published demand alone or replace the unread value by the demand they publish.
\<close>

locale demand_source =
  fixes src :: "('s, 'h) demandSource"
    and cur :: "'s \<Rightarrow> int"
    and unread :: "'s \<Rightarrow> 'h \<Rightarrow> int list"
    and holds :: "'s \<Rightarrow> 'h \<Rightarrow> bool"
    and invar :: "'s \<Rightarrow> bool"
    and env :: "'h \<Rightarrow> ('s \<Rightarrow> 's) set"
  assumes subscribe_starts: "invar s \<Longrightarrow> src_SubscribeDemand src s = (h, s') \<Longrightarrow>
        invar s' \<and> holds s' h \<and> unread s' h = [cur s']"
    and connected_frame: "invar s \<Longrightarrow> holds s h \<Longrightarrow> invar (src_ScalerStreamConnected src s) \<and>
        holds (src_ScalerStreamConnected src s) h \<and> cur (src_ScalerStreamConnected src s) = cur s \<and>
        unread (src_ScalerStreamConnected src s) h = unread s h"
    and receive_takes: "invar s \<Longrightarrow> holds s h \<Longrightarrow> src_receive src h s = Some (d, s') \<Longrightarrow>
        invar s' \<and> holds s' h \<and> cur s' = cur s \<and> unread s h = d # unread s' h"
    and receive_waits: "invar s \<Longrightarrow> holds s h \<Longrightarrow> src_receive src h s = None \<Longrightarrow> unread s h = []"
    and env_frame: "f \<in> env h \<Longrightarrow> invar s \<Longrightarrow> holds s h \<Longrightarrow> invar (f s) \<and> holds (f s) h \<and>
        (unread (f s) h = unread s h \<and> cur (f s) = cur s \<or> unread (f s) h = [cur (f s)])"
begin

text \<open>
  The loop's invariant: reading on from what was last received leads to the published demand,
  the flags describe the last response sent, and equal responses are never sent in a row.
\<close>

definition stream_inv :: "'h \<Rightarrow> int option \<Rightarrow> bool \<Rightarrow> bool \<Rightarrow> 's \<Rightarrow> bool list \<Rightarrow> bool" where
  "stream_inv h seen sent lastActive s out \<longleftrightarrow>
     invar s \<and> holds s h \<and> newest (unread s h) seen = Some (cur s) \<and>
     (sent \<longleftrightarrow> seen \<noteq> None) \<and> (sent \<longleftrightarrow> out \<noteq> []) \<and>
     (sent \<longrightarrow> lastActive = last out \<and> last out = (the seen > 0)) \<and> distinct_adj out"

lemma stream_inv_start:
  assumes "invar s" and "src_SubscribeDemand src s = (h, s1)"
  shows "stream_inv h None False False (src_ScalerStreamConnected src s1) []"
  using subscribe_starts [OF assms] connected_frame [of s1 h] by (simp add: stream_inv_def newest_def)

lemma stream_inv_env: "stream_inv h seen sent l s out \<Longrightarrow> f \<in> env h \<Longrightarrow> stream_inv h seen sent l (f s) out"
  using env_frame [of f h s] by (auto simp: stream_inv_def newest_def)

lemma stream_inv_receive:
  assumes "stream_inv h seen sent l s out" and "src_receive src h s = Some (d, s')"
  shows "invar s' \<and> holds s' h \<and> cur s' = cur s \<and> newest (unread s' h) (Some d) = Some (cur s')"
proof -
  have *: "invar s" "holds s h" "newest (unread s h) seen = Some (cur s)"
    using assms(1) by (simp_all add: stream_inv_def)
  note r = receive_takes [OF *(1,2) assms(2)]
  then have "newest (unread s h) seen = newest (unread s' h) (Some d)" by (simp add: newest_def)
  with r * show ?thesis by simp
qed

lemma stream_inv_skip:
  assumes "stream_inv h seen sent l s out" and "src_receive src h s = Some (d, s')" and "sent" and "(d > 0) = l"
  shows "stream_inv h (Some d) sent l s' out"
  using assms stream_inv_receive [OF assms(1,2)] by (auto simp: stream_inv_def)

lemma stream_inv_send:
  assumes "stream_inv h seen sent l s out" and "src_receive src h s = Some (d, s')" and "\<not> (sent \<and> (d > 0) = l)"
  shows "stream_inv h (Some d) True (d > 0) s' (out @ [d > 0])"
  using assms stream_inv_receive [OF assms(1,2)]
  by (auto simp: stream_inv_def distinct_adj_append_iff)

lemma stream_loop_inv:
  assumes "stream_inv h seen sent l s out" and "\<forall>f. Other f \<in> set es \<longrightarrow> f \<in> env h"
    and "stream_loop src h es sent l s out = (out', res, s')"
  shows "distinct_adj out' \<and> (res = Waiting \<longrightarrow> (\<exists>seen' sent' l'. stream_inv h seen' sent' l' s' out'))"
  using assms
proof (induction es arbitrary: seen sent l s out)
  case Nil
  then show ?case by (auto simp: stream_inv_def)
next
  case (Cons e es)
  show ?case
  proof (cases e)
    case (Other f)
    then show ?thesis using Cons.IH [OF stream_inv_env [OF Cons.prems(1)]] Cons.prems(2,3) by auto
  next
    case StreamDone
    then show ?thesis using Cons.prems by (auto simp: stream_inv_def)
  next
    case (TakeUpdate ok)
    show ?thesis
    proof (cases "src_receive src h s")
      case None
      then show ?thesis using TakeUpdate Cons.IH [OF Cons.prems(1)] Cons.prems(2,3) by auto
    next
      case (Some p)
      then obtain d s1 where r: "src_receive src h s = Some (d, s1)" by (metis surj_pair)
      note next_iter = Cons.IH [OF stream_inv_skip [OF Cons.prems(1) r]] Cons.IH [OF stream_inv_send [OF Cons.prems(1) r]]
      show ?thesis
      proof (cases "sent \<and> (d > 0) = l")
        case True
        then show ?thesis using TakeUpdate r next_iter(1) Cons.prems(2,3) by (auto simp: Let_def)
      next
        case False
        then show ?thesis using TakeUpdate r next_iter(2) Cons.prems
          by (cases ok) (auto simp: stream_inv_def [of h seen] Let_def)
      qed
    qed
  qed
qed

text \<open>A stream that has read its channel dry has told KEDA whether the published demand is positive.\<close>

lemma stream_tells_activity:
  assumes "invar s" and sub: "src_SubscribeDemand src s = (h, s1)"
    and "\<forall>f. Other f \<in> set es \<longrightarrow> f \<in> env h"
    and "StreamIsActive otherFloat src ref es s = (out, Waiting, s')"
  shows "distinct_adj out \<and> (unread s' h = [] \<longrightarrow> out \<noteq> [] \<and> last out = (cur s' > 0)) \<and>
    (unread s' h \<noteq> [] \<longrightarrow> last (unread s' h) = cur s')"
proof -
  from assms(4) sub have loop: "stream_loop src h es False False (src_ScalerStreamConnected src s1) [] = (out, Waiting, s')"
    by (auto simp: StreamIsActive_def split: sum.splits prod.splits if_splits)
  from stream_loop_inv [OF stream_inv_start [OF assms(1) sub] assms(3) loop]
  show ?thesis by (auto simp: stream_inv_def newest_def)
qed

end

subsection \<open>The aggregator as a demand source\<close>

text \<open>The state is the aggregator with the reading of its clock.\<close>

type_synonym timed_agg = "time \<times> demandAggregator"

definition agg_receive :: "subscription \<Rightarrow> timed_agg \<Rightarrow> (int \<times> timed_agg) option" where
  "agg_receive h s =
     map_option (\<lambda>(v, d). (v, (fst s, (snd s)\<lparr>agg_demands := d\<rparr>))) (receive (sub_chan h) (agg_demands (snd s)))"

definition agg_unsubscribe :: "subscription \<Rightarrow> timed_agg \<Rightarrow> timed_agg" where
  "agg_unsubscribe h s = (fst s, (snd s)\<lparr>agg_demands := snd (unsubscribe h (agg_demands (snd s)))\<rparr>)"

definition aggregator_source :: "(timed_agg, subscription) demandSource" where
  "aggregator_source =
     \<lparr>src_Demand = (\<lambda>(t, a). let (d, a) = Demand t a in (d, (t, a))),
      src_SubscribeDemand = (\<lambda>(t, a). let (h, a) = SubscribeDemand t a in (h, (t, a))),
      src_receive = agg_receive, src_unsubscribe = agg_unsubscribe,
      src_ScalerStreamConnected = (\<lambda>(t, a). (t, ScalerStreamConnected a)),
      src_ScalerStreamDisconnected = (\<lambda>(t, a). (t, ScalerStreamDisconnected a))\<rparr>"

text \<open>
  The steps of the other goroutines while the holder of \<open>h\<close> waits: the clock, reports, sweeps and
  queries, and the subscriptions of other streams. The identifiers of subscriptions count up to
  \<open>2 ^ 64\<close>: a step that would reuse the holder's identifier is left out.
\<close>

inductive_set agg_env :: "subscription \<Rightarrow> (timed_agg \<Rightarrow> timed_agg) set" for h :: subscription where
  clock: "0 \<le> dt \<Longrightarrow> (\<lambda>(t, a). (t + dt, a)) \<in> agg_env h"
| slot: "(\<lambda>(t, a). (t, a\<lparr>reportSlotsUsed := n\<rparr>)) \<in> agg_env h"
| report: "(\<lambda>(t, a). (t, snd (reportBody readFile decode t r a))) \<in> agg_env h"
| sweeping: "(\<lambda>(t, a). (t, expire t a)) \<in> agg_env h"
| opened: "(\<lambda>(t, a). if nextSubscriber (agg_demands a) = sub_id h then (t, a)
                  else (t, ScalerStreamConnected (snd (SubscribeDemand t a)))) \<in> agg_env h"
| taken: "c \<noteq> sub_chan h \<Longrightarrow>
     (\<lambda>(t, a). (t, case receive c (agg_demands a) of Some (v, d) \<Rightarrow> a\<lparr>agg_demands := d\<rparr> | None \<Rightarrow> a)) \<in> agg_env h"
| closed: "sub_id h' \<noteq> sub_id h \<Longrightarrow>
     (\<lambda>(t, a). (t, ScalerStreamDisconnected (a\<lparr>agg_demands := snd (unsubscribe h' (agg_demands a))\<rparr>))) \<in> agg_env h"

definition agg_cur :: "timed_agg \<Rightarrow> int" where
  "agg_cur s = Current (agg_demands (snd s))"

definition agg_unread :: "timed_agg \<Rightarrow> subscription \<Rightarrow> int list" where
  "agg_unread s h = buffered (agg_demands (snd s)) (sub_chan h)"

definition agg_holds :: "timed_agg \<Rightarrow> subscription \<Rightarrow> bool" where
  "agg_holds s h \<longleftrightarrow> (sub_id h, sub_chan h) \<in> set (subscribers (agg_demands (snd s)))"

definition agg_invar :: "timed_agg \<Rightarrow> bool" where
  "agg_invar s \<longleftrightarrow> agg_ok (snd s)"

lemmas agg_view_defs = agg_cur_def agg_unread_def agg_holds_def agg_invar_def

text \<open>The operations change the subscriptions by at most one publish.\<close>

definition publishes :: "subscriptions \<Rightarrow> subscriptions \<Rightarrow> bool" where
  "publishes s s' \<longleftrightarrow> s' = s \<or> (\<exists>d. s' = snd (Publish d s))"

lemma publishes_refl [simp]: "publishes s s"
  by (simp add: publishes_def)

lemma publishes_expire: "publishes (agg_demands a) (agg_demands (expire now a))"
  using expireLocked_frame(4) [of now a]
  by (cases "expireLocked now a") (auto simp: publishes_def expire_def publishLocked_def)

lemma publishes_update: "publishes (agg_demands a) (agg_demands (snd (update r now a)))"
  by (auto simp: publishes_def update_def publishLocked_def Let_def frame_simps split: option.splits)

lemma publishes_report: "publishes (agg_demands a) (agg_demands (snd (reportBody readFile decode now r a)))"
proof -
  obtain resp a' where b: "reportBody readFile decode now r a = (resp, a')" by fastforce
  show ?thesis using reportBody_cases [OF b] b by (auto simp: publishes_update)
qed

lemma publishes_frame:
  assumes "publishes s s'" and "subs_ok s" and "(i, ch) \<in> set (subscribers s)"
  shows "(i, ch) \<in> set (subscribers s') \<and>
    (buffered s' ch = buffered s ch \<and> Current s' = Current s \<or> buffered s' ch = [Current s'])"
proof -
  have "ch \<in> live s" using assms(3) by (force simp: live_iff)
  then show ?thesis
    using assms buffered_publish [OF assms(2), of ch]
    by (auto simp: publishes_def Current_def mailbox.publish_cur) (auto simp: Publish_eq split: if_splits)
qed


lemma agg_env_publishes:
  assumes "publishes (agg_demands a) (agg_demands a')" and "agg_ok a" and "agg_ok a'" and "agg_holds (t, a) h"
  shows "agg_invar (t', a') \<and> agg_holds (t', a') h \<and>
    (agg_unread (t', a') h = agg_unread (t, a) h \<and> agg_cur (t', a') = agg_cur (t, a) \<or>
     agg_unread (t', a') h = [agg_cur (t', a')])"
  using publishes_frame [OF assms(1)] assms(2-4) by (simp add: agg_view_defs agg_ok_def members_ok_def)

text \<open>A step that leaves the holder's entry, its channel and the published demand alone.\<close>

lemma agg_env_quiet:
  assumes "agg_ok a'" and "(sub_id h, sub_chan h) \<in> set (subscribers (agg_demands a'))"
    and "buffered (agg_demands a') (sub_chan h) = buffered (agg_demands a) (sub_chan h)"
    and "Current (agg_demands a') = Current (agg_demands a)"
  shows "agg_invar (t', a') \<and> agg_holds (t', a') h \<and>
    (agg_unread (t', a') h = agg_unread (t, a) h \<and> agg_cur (t', a') = agg_cur (t, a) \<or>
     agg_unread (t', a') h = [agg_cur (t', a')])"
  using assms by (simp add: agg_view_defs)

lemma SubscribeDemand_subscribers:
  assumes "agg_ok a" and "SubscribeDemand t a = (h', a')"
  shows "agg_demands a' = snd (Subscribe (total (expire t a)) (agg_demands (expire t a)))"
    and "sub_chan h' = length (chans (agg_demands (expire t a)))"
    and "sub_id h' = nextSubscriber (agg_demands (expire t a))"
  using assms(2) by (auto simp: SubscribeDemand_def Subscribe_def Let_def)

lemma agg_subs_ok: "agg_ok a \<Longrightarrow> subs_ok (agg_demands a)"
  by (simp add: agg_ok_def members_ok_def)

lemma nextSubscriber_publishes: "publishes s s' \<Longrightarrow> subs_ok s \<Longrightarrow> nextSubscriber s' = nextSubscriber s"
  by (auto simp: publishes_def Publish_eq)

lemma agg_env_opened:
  assumes ok: "agg_ok a" and h: "agg_holds (t, a) h" and fresh: "nextSubscriber (agg_demands a) \<noteq> sub_id h"
    and sub: "SubscribeDemand t a = (h', a')"
  shows "agg_invar (t, a') \<and> agg_holds (t, a') h \<and>
    (agg_unread (t, a') h = agg_unread (t, a) h \<and> agg_cur (t, a') = agg_cur (t, a) \<or>
     agg_unread (t, a') h = [agg_cur (t, a')])"
proof -
  let ?e = "agg_demands (expire t a)"
  have e: "agg_ok (expire t a)" by (rule expire_ok [OF ok])
  note env = agg_env_publishes [OF publishes_expire ok e h, of t]
  have next_id: "nextSubscriber ?e \<noteq> sub_id h"
    using nextSubscriber_publishes [OF publishes_expire agg_subs_ok [OF ok]] fresh by simp
  have mem: "(sub_id h, sub_chan h) \<in> set (subscribers ?e)" using env by (simp add: agg_holds_def)
  then have lt: "sub_chan h < length (chans ?e)"
    using agg_subs_ok [OF e] by (auto simp: subs_ok_def list_all_iff)
  note a' = SubscribeDemand_subscribers(1) [OF ok sub]
  have "(sub_id h, sub_chan h) \<in> set (subscribers (agg_demands a'))"
    using mem next_id a' by (simp add: Subscribe_def Let_def alist_update_keeps)
  moreover have "buffered (agg_demands a') (sub_chan h) = buffered ?e (sub_chan h)"
    using lt a' by (simp add: Subscribe_def Let_def buffered_def nth_append)
  moreover have "Current (agg_demands a') = Current ?e"
    using a' by (simp add: Subscribe_def Let_def Current_def)
  ultimately show ?thesis
    using env SubscribeDemand_ok [OF ok sub] by (simp add: agg_view_defs)
qed

lemma agg_env_frame:
  assumes "f \<in> agg_env h" and "agg_ok a" and "agg_holds (t, a) h"
  shows "agg_invar (f (t, a)) \<and> agg_holds (f (t, a)) h \<and>
    (agg_unread (f (t, a)) h = agg_unread (t, a) h \<and> agg_cur (f (t, a)) = agg_cur (t, a) \<or>
     agg_unread (f (t, a)) h = [agg_cur (f (t, a))])"
  using assms(1)
proof cases
  case (clock dt)
  then show ?thesis using assms by (simp add: agg_view_defs)
next
  case (slot n)
  then show ?thesis using assms by (simp add: agg_view_defs agg_ok_metrics)
next
  case (report readFile decode r)
  obtain resp a' where b: "reportBody readFile decode t r a = (resp, a')" by fastforce
  then show ?thesis
    using report agg_env_publishes [OF _ assms(2) _ assms(3), of a'] publishes_report [of a readFile decode t r]
      reportBody_ok [OF assms(2) b] by simp
next
  case sweeping
  then show ?thesis
    using agg_env_publishes [OF publishes_expire assms(2) expire_ok(1) [OF assms(2)] assms(3)] by simp
next
  case opened
  obtain h' a' where "SubscribeDemand t a = (h', a')" by fastforce
  then show ?thesis using opened agg_env_opened [OF assms(2,3)] assms
    by (simp add: agg_view_defs frame_simps)
next
  case (taken c)
  show ?thesis
  proof (cases "receive c (agg_demands a)")
    case (Some p)
    then obtain v d where r: "receive c (agg_demands a) = Some (v, d)" by (metis surj_pair)
    note ok = agg_subs_ok [OF assms(2)]
    have "agg_ok (a\<lparr>agg_demands := d\<rparr>)"
      using subs_ok_receive [OF ok r] mailbox.recv_frame [OF ok r] assms(2)
      by (intro agg_ok_demands) (simp_all add: Current_def)
    then show ?thesis using taken r assms(3) mailbox.recv_unread [OF ok r] mailbox.recv_frame [OF ok r] receive_Some [OF r]
      by (auto simp: agg_view_defs Current_def)
  qed (use taken assms in \<open>simp add: agg_view_defs\<close>)
next
  case (closed h')
  note ok = agg_subs_ok [OF assms(2)]
  have "agg_ok (a\<lparr>agg_demands := snd (unsubscribe h' (agg_demands a))\<rparr>)"
    using subs_ok_unsubscribe [OF ok] mailbox.unsub_cur assms(2)
    by (intro agg_ok_demands) (simp_all add: Current_def)
  then show ?thesis using closed assms(3) mailbox.unsub_unread [of h' "agg_demands a"]
    by (auto simp: agg_view_defs frame_simps Current_def unsubscribe_def AList.delete_eq)
qed

interpretation agg_source: demand_source aggregator_source agg_cur agg_unread agg_holds agg_invar agg_env
proof (unfold_locales, goal_cases)
  case (1 s h s')
  obtain t a where s: "s = (t, a)" by fastforce
  with 1 obtain a' where sub: "SubscribeDemand t a = (h, a')" and s': "s' = (t, a')" and ok: "agg_ok a"
    by (auto simp: aggregator_source_def agg_invar_def split: prod.splits)
  let ?e = "expire t a"
  note a' = SubscribeDemand_subscribers [OF ok sub] and e = expire_ok(1) [OF ok, of t]
  have "total ?e = Current (agg_demands ?e)" using e by (simp add: agg_ok_def published_ok_def)
  then show ?case using s' a' SubscribeDemand_ok [OF ok sub]
    alist_update_in [of "nextSubscriber (agg_demands ?e)" "length (chans (agg_demands ?e))"]
    by (simp add: agg_view_defs Subscribe_def Let_def buffered_def nth_append Current_def)
next
  case (2 s h)
  then show ?case by (cases s) (simp add: agg_view_defs aggregator_source_def frame_simps)
next
  case (3 s h d s')
  then obtain t a where s: "s = (t, a)" and ok: "agg_ok a" by (cases s) (auto simp: agg_invar_def)
  with 3 obtain u where r: "receive (sub_chan h) (agg_demands a) = Some (d, u)" and s': "s' = (t, a\<lparr>agg_demands := u\<rparr>)"
    by (auto simp: aggregator_source_def agg_receive_def)
  note ok' = agg_subs_ok [OF ok]
  have "agg_ok (a\<lparr>agg_demands := u\<rparr>)"
    using subs_ok_receive [OF ok' r] mailbox.recv_frame [OF ok' r] ok by (intro agg_ok_demands) (simp_all add: Current_def)
  then show ?case using 3 s s' mailbox.recv_unread [OF ok' r] mailbox.recv_frame [OF ok' r] receive_Some [OF r]
    by (auto simp: agg_view_defs Current_def)
next
  case (4 s h)
  then show ?case
    using subs_ok_live [OF agg_subs_ok, of "snd s" "sub_chan h"]
    by (auto simp: aggregator_source_def agg_receive_def agg_view_defs receive_def try_recv_def buffered_def
          split: list.splits if_splits)
next
  case (5 f h s)
  then show ?case using agg_env_frame [of f h "snd s" "fst s"] by (simp add: agg_invar_def)
qed


subsection \<open>Decimal targets\<close>

lemma binade_of_nat: "0 < n \<Longrightarrow> binade (of_nat n) = int (bit_length n) - 1"
proof -
  assume n: "0 < n"
  have q: "quotient_of (of_nat n) = (int n, 1)" by simp
  have one: "bit_length (Suc 0) = 1" by (simp add: bit_length.simps [of "Suc 0"] bit_length.simps [of 0])
  have pos: "1 \<le> bit_length n" using n by (simp add: bit_length.simps [of n])
  have "(2 :: rat) ^ (bit_length n - 1) \<le> of_nat n"
    using bit_length_lower [OF n] by (metis of_nat_le_iff of_nat_numeral of_nat_power)
  moreover have "nat (int (bit_length n) - 1) = bit_length n - 1" by simp
  ultimately show ?thesis using pos by (simp add: binade_def q one pow2_def Let_def)
qed

lemma round_half_even_int [simp]: "round_half_even (of_int z) = z"
  by (simp add: round_half_even_def)

lemma round_float64_of_nat:
  assumes "n < 2 ^ 53"
  shows "round_float64 (of_nat n) = of_nat n"
proof (cases "n = 0")
  case False
  let ?b = "bit_length n"
  have "(2 :: nat) ^ (?b - 1) < 2 ^ 53" using False by (intro le_less_trans [OF bit_length_lower assms]) simp
  then have "?b - 1 < 53" by (simp only: power_strict_increasing_iff one_less_numeral_iff semiring_norm)
  then have b: "?b \<le> 53" by simp
  have pos: "1 \<le> ?b" using False by (simp add: bit_length.simps [of n])
  have u: "pow2 (max (binade \<bar>of_nat n\<bar>) (- 1022) - 52) = 1 / 2 ^ (53 - ?b)"
  proof -
    have "max (int ?b - 1) (- 1022) - 52 = - int (53 - ?b)" using b pos by simp
    then show ?thesis using False b by (auto simp: binade_of_nat pow2_def)
  qed
  have "of_nat n / (1 / 2 ^ (53 - ?b)) = (of_int (int n * 2 ^ (53 - ?b)) :: rat)" by simp
  then have "round_half_even (of_nat n / (1 / 2 ^ (53 - ?b))) = int n * 2 ^ (53 - ?b)"
    by (metis round_half_even_int)
  then show ?thesis using False u by (simp add: round_float64_def Let_def)
qed (simp add: round_float64_def)

lemma ToLower_digits: "list_all is_digit s \<Longrightarrow> ToLower s = s"
proof (induction s)
  case (Cons c cs)
  then have c: "is_digit c" by simp
  have "c \<noteq> byte 0xC4" "c \<noteq> byte 0xE2" using c by (auto simp: is_digit_def of_char_byte)
  moreover have "lower_byte c = c" using c by (simp add: lower_byte_def is_digit_def)
  ultimately show ?case using Cons by (simp add: HasPrefix_def)
qed simp

lemma ParseFloat_digits:
  assumes "list_all is_digit s" and "s \<noteq> []" and "atou s < 2 ^ 53"
  shows "ParseFloat otherFloat s = Some (Finite (of_nat (atou s)))"
proof -
  obtain c cs where s: "s = c # cs" using assms(2) by (cases s) auto
  have dig: "\<forall>x \<in> set s. is_digit x" using assms(1) by (simp add: list_all_iff)
  have sign: "c \<noteq> CHR ''-''" "c \<noteq> CHR ''+''" "c \<noteq> CHR ''i''" "c \<noteq> CHR ''n''" using dig s by (auto simp: is_digit_def)
  have und: "CHR ''_'' \<notin> set s" using dig by (auto simp: is_digit_def)
  have hex: "\<not> HasPrefix s ''0x''" using dig s by (cases cs) (auto simp: HasPrefix_def is_digit_def)
  have all: "takeWhile is_digit s = s" "dropWhile is_digit s = []" using dig by (simp_all add: takeWhile_eq_all_conv dropWhile_eq_Nil_conv)
  have dec: "parse_decimal s = Some (of_nat (atou s))"
    using assms(2) by (simp add: parse_decimal_def all parse_exponent_def)
  have big: "\<not> (2 ^ 1024 \<le> (of_nat (atou s) :: rat))"
  proof -
    have "(of_nat (atou s) :: rat) < of_nat (2 ^ 53)" using assms(3) by (simp only: of_nat_less_iff)
    also have "(of_nat (2 ^ 53) :: rat) \<le> 2 ^ 1024" by (simp)
    finally show ?thesis by simp
  qed
  show ?thesis
    using s sign und hex dec big ToLower_digits [OF assms(1)] round_float64_of_nat [OF assms(3)]
    by (simp add: ParseFloat_def Let_def)
qed


subsection \<open>Properties\<close>

text \<open>
  C24. An open activation stream of the aggregator, the source of the streams with several gateway
  replicas, interleaved with any clock advances,
  reports, sweeps and other streams: no response is sent twice in a row, and whenever the stream
  has read its channel dry, the last response it sent says whether the published demand is
  positive; otherwise the demand it will read last is the published one. The gateway, the source with one
  replica, is not covered: its \<open>SubscribeDemand\<close> may start a stream from another value than the published one.
\<close>

theorem scaler_stream_tracks_demand:
  assumes "agg_reach decode cfg t (a, rs)" and "in_int64 (cfg_MaxDemand cfg)"
    and "SubscribeDemand t a = (h, a1)" and "\<forall>f. Other f \<in> set es \<longrightarrow> f \<in> agg_env h"
    and "StreamIsActive otherFloat aggregator_source ref es (t, a) = (out, Waiting, (t', a'))"
  shows "distinct_adj out
    \<and> (buffered (agg_demands a') (sub_chan h) = [] \<longrightarrow> out \<noteq> [] \<and> last out = (Current (agg_demands a') > 0))
    \<and> (buffered (agg_demands a') (sub_chan h) \<noteq> [] \<longrightarrow>
         last (buffered (agg_demands a') (sub_chan h)) = Current (agg_demands a'))"
proof -
  have "agg_ok a" using agg_reach_inv [OF assms(1,2)] by (simp add: agg_inv_def)
  then have "agg_invar (t, a)" by (simp add: agg_invar_def)
  moreover have "src_SubscribeDemand aggregator_source (t, a) = (h, (t, a1))"
    using assms(3) by (simp add: aggregator_source_def)
  ultimately show ?thesis
    using agg_source.stream_tells_activity [OF _ _ assms(4,5)] by (simp add: agg_unread_def agg_cur_def)
qed

definition example_ref :: scaledObjectRef where
  "example_ref = \<lparr>ref_scalerMetadata = [(''targetValue'', ''1'')]\<rparr>"

lemma example_ref_ok: "parseScalerMetadata otherFloat (Some example_ref) = Inr (''pending'', Finite 1)"
proof -
  have "atou ''1'' = 1" by (simp add: atou_def digit_value_def)
  then have "ParseFloat otherFloat ''1'' = Some (Finite 1)"
    using ParseFloat_digits [of "''1''" otherFloat] by (simp add: is_digit_def)
  then show ?thesis by (simp add: parseScalerMetadata_def example_ref_def scalerMetricName_def lookup0_def)
qed

lemma example_subscribe:
  "SubscribeDemand 5 example_agg = (\<lparr>sub_chan = 0, sub_id = 0, sub_once = False\<rparr>,
     example_agg\<lparr>agg_demands := \<lparr>subscribers = [(0, 0)], nextSubscriber = 1, lastDemand = 7, chans = [[7]]\<rparr>\<rparr>)"
proof -
  have "expire 5 example_agg = example_agg"
    by (simp add: expire_def expireLocked_def example_agg_eq Before_def)
  then show ?thesis by (simp add: SubscribeDemand_def Subscribe_def example_agg_published)
qed

theorem scaler_stream_tracks_demand_witness:
  "fst (StreamIsActive (\<lambda>_. None) aggregator_source (Some example_ref) [TakeUpdate True] (5, example_agg)) = [True]
     \<and> last (fst (StreamIsActive (\<lambda>_. None) aggregator_source (Some example_ref) [TakeUpdate True] (5, example_agg)))"
proof -
  let ?d = "\<lparr>subscribers = [(0, 0)], nextSubscriber = 1, lastDemand = 7, chans = [[]]\<rparr>"
  let ?a = "(ScalerStreamConnected example_agg)\<lparr>agg_demands := ?d\<rparr>"
  have run: "StreamIsActive (\<lambda>_. None) aggregator_source (Some example_ref) [TakeUpdate True] (5, example_agg)
      = ([True], Waiting, (5, ?a))"
    by (simp add: StreamIsActive_def example_ref_ok aggregator_source_def example_subscribe agg_receive_def
          receive_def try_recv_def ScalerStreamConnected_def)
  show ?thesis
    using scaler_stream_tracks_demand [OF example_agg_reach example_config_ok example_subscribe _ run] run
    by (simp add: buffered_def Current_def)
qed

text \<open>
  A stream that ends, because its context is done or a send fails, has removed its
  subscription, so later publishes do not reach its channel.
\<close>

theorem scaler_stream_unsubscribes:
  assumes "SubscribeDemand t a = (h, a1)"
    and "StreamIsActive otherFloat aggregator_source ref es (t, a) = (out, res, (t', a'))"
    and "res = ContextErr \<or> res = SendErr"
  shows "sub_id h \<notin> fst ` set (subscribers (agg_demands a'))"
proof -
  have h: "\<not> sub_once h" using assms(1) by (auto simp: SubscribeDemand_def Subscribe_def Let_def)
  have "\<exists>s. agg_unsubscribe h s = (t', a')"
    using assms by (auto simp: StreamIsActive_def aggregator_source_def split: sum.splits prod.splits if_splits)
  then show ?thesis using h by (auto simp: agg_unsubscribe_def unsubscribe_def AList.delete_eq)
qed

theorem scaler_stream_unsubscribes_witness:
  "0 \<notin> fst ` set (subscribers (agg_demands (snd (snd (snd
      (StreamIsActive (\<lambda>_. None) aggregator_source (Some example_ref) [StreamDone] (5, example_agg)))))))"
proof -
  obtain out res t' a' where run:
    "StreamIsActive (\<lambda>_. None) aggregator_source (Some example_ref) [StreamDone] (5, example_agg) = (out, res, (t', a'))"
    by (metis surj_pair)
  then have "res = ContextErr"
    by (auto simp: StreamIsActive_def example_ref_ok aggregator_source_def split: prod.splits)
  with scaler_stream_unsubscribes [OF example_subscribe run] run show ?thesis by simp
qed

text \<open>
  What KEDA reads: with the metadata the operator writes, a decimal target below \<open>2 ^ 53\<close> is
  returned exactly, and \<open>IsActive\<close> and \<open>GetMetrics\<close> answer with the abstract aggregator's demand
  over the gateways whose lease has not ended.
\<close>

theorem scaler_answers_demand:
  assumes "agg_reach decode cfg t (a, rs)" and "in_int64 (cfg_MaxDemand cfg)"
    and "0 < n" and "n < 2 ^ 53"
    and "lookup0 [] (ref_scalerMetadata ref) ''metricName'' \<in> {[], ''pending''}"
    and "lookup0 [] (ref_scalerMetadata ref) ''targetValue'' = utoa n"
  shows "GetMetricSpec otherFloat (Some ref) = Inr [(''pending'', Finite (of_nat n))]
    \<and> fst (IsActive otherFloat aggregator_source (Some ref) (now, a))
        = Inr (0 < spec_demand (spec_expire now (abs_members a)))
    \<and> fst (GetMetrics otherFloat aggregator_source
          (Some \<lparr>gm_scaledObjectRef = Some ref, gm_metricName = ''pending''\<rparr>) (now, a))
        = Inr [(''pending'', float64_of_int (spec_demand (spec_expire now (abs_members a))))]"
proof -
  have ok: "agg_ok a" using agg_reach_inv [OF assms(1,2)] by (simp add: agg_inv_def)
  have "ParseFloat otherFloat (utoa n) = Some (Finite (of_nat n))"
    using ParseFloat_digits [of "utoa n" otherFloat] utoa_digits [of n] assms(4) by simp
  then have meta: "parseScalerMetadata otherFloat (Some ref) = Inr (''pending'', Finite (of_nat n))"
    using assms(3,5,6) utoa_digits [of n] by (auto simp: parseScalerMetadata_def scalerMetricName_def Let_def)
  have d: "fst (Demand now a) = spec_demand (spec_expire now (abs_members a))"
    using Demand_refines_spec [OF ok, of now] by simp
  show ?thesis
    using meta d
    by (simp add: GetMetricSpec_def IsActive_def GetMetrics_def aggregator_source_def case_prod_unfold)
qed

theorem scaler_answers_demand_witness:
  "fst (IsActive (\<lambda>_. None) aggregator_source (Some example_ref) (6, example_agg)) = Inr True"
proof -
  have "utoa 1 = ''1''" by code_simp
  then have t: "lookup0 [] (ref_scalerMetadata example_ref) ''targetValue'' = utoa 1"
    and m: "lookup0 [] (ref_scalerMetadata example_ref) ''metricName'' \<in> {[], ''pending''}"
    by (simp_all add: example_ref_def lookup0_def)
  have "spec_demand (spec_expire 6 (abs_members example_agg)) = 7"
    by (simp add: abs_members_def example_agg_eq spec_expire_def spec_demand_def MaxInt64_def dom_def
          if_distrib [of "\<lambda>x. x = _"] cong: if_cong)
  then show ?thesis
    using scaler_answers_demand [OF example_agg_reach example_config_ok _ _ m t, of "\<lambda>_. None" 6] by simp
qed

text \<open>
  Metadata is accepted only for the metric \<^verbatim>\<open>pending\<close> and a finite positive target; every call
  with metadata that is not accepted answers the same \<open>InvalidArgument\<close> error, opens no stream
  and leaves the source as it is.
\<close>

theorem scaler_rejects_bad_metadata:
  shows "(case parseScalerMetadata otherFloat ref of
        Inr (m, v) \<Rightarrow> m = ''pending'' \<and> (\<exists>q > 0. v = Finite q)
      | Inl e \<Rightarrow> IsActive otherFloat src ref s = (Inl e, s)
          \<and> StreamIsActive otherFloat src ref es s = ([], Rejected e, s)
          \<and> GetMetricSpec otherFloat ref = Inl e
          \<and> GetMetrics otherFloat src (Some \<lparr>gm_scaledObjectRef = ref, gm_metricName = m\<rparr>) s = (Inl e, s))"
proof (cases "parseScalerMetadata otherFloat ref")
  case (Inl e)
  then show ?thesis by (simp add: IsActive_def StreamIsActive_def GetMetricSpec_def GetMetrics_def)
next
  case (Inr p)
  then show ?thesis
    by (auto simp: parseScalerMetadata_def Let_def scalerMetricName_def
          split: option.splits if_splits go_float.splits)
qed

end
