(* ===== verification/Gateway_System.thy ===== *)
theory Gateway_System
  imports Activation
begin

section \<open>The gateway under concurrent requests\<close>

text \<open>
  The goroutines of a gateway as a step relation on its state: requests that take and return a
  token of \<open>sem\<close> and change \<open>pending\<close>, the sections of \<open>notifyDemandChange\<close> under its mutex,
  activation leases with their watcher, probes of the backend, and the subscribers. The steps are
  those of \<open>serve\<close> (\<open>proxy.go\<close>), \<open>demand.go\<close> and \<open>activation.go\<close> between two blocking points; the
  counters say how many requests are at each point.
\<close>

text \<open>
  The holder of \<open>notifyMu\<close>: it has loaded the pending counter, or has computed the demand from it
  and the lease, and goes on to publish.
\<close>

datatype notifier = Idle | Loaded int | Computed int

text \<open>
  \<open>entering\<close>: requests that hold a token and have not yet added to the counter; \<open>counted\<close>: those
  that have; \<open>leaving\<close>: those that have subtracted and not yet returned the token. \<open>gauges\<close>: the
  sums that goroutines are about to write to the pending gauge. \<open>owed\<close>: the calls of
  \<open>notifyDemandChange\<close> that goroutines are about to make after a change. \<open>watchers\<close>: the goroutines
  \<open>watchActivation\<close> that have not ended their lease. \<open>probers\<close>: the requests to the backend's
  health endpoint in flight.
\<close>

record gw_sys =
  gw :: gateway
  entering :: nat
  counted :: nat
  leaving :: nat
  gauges :: "int list"
  owed :: nat
  notifying :: notifier
  watchers :: nat
  probers :: nat

inductive gw_step :: "time \<Rightarrow> gw_sys \<Rightarrow> gw_sys \<Rightarrow> bool" for now :: time where
  acquire: "sem_used (gw s) < sem_cap (gw s) \<Longrightarrow>
     gw_step now s (s\<lparr>gw := (gw s)\<lparr>sem_used := sem_used (gw s) + 1\<rparr>, entering := entering s + 1\<rparr>)"
| enter: "entering s > 0 \<Longrightarrow> add_pending 1 (gw s) = (p, g) \<Longrightarrow>
     gw_step now s (s\<lparr>gw := g, entering := entering s - 1, counted := counted s + 1,
                      gauges := gauges s @ [p]\<rparr>)"
| leave: "counted s > 0 \<Longrightarrow> add_pending (- 1) (gw s) = (p, g) \<Longrightarrow>
     gw_step now s (s\<lparr>gw := g, counted := counted s - 1, leaving := leaving s + 1,
                      gauges := gauges s @ [p]\<rparr>)"
| gauge: "gauges s = ps @ p # qs \<Longrightarrow>
     gw_step now s (s\<lparr>gw := set_pending_gauge p (gw s), gauges := ps @ qs, owed := owed s + 1\<rparr>)"
| release: "leaving s > 0 \<Longrightarrow>
     gw_step now s (s\<lparr>gw := (gw s)\<lparr>sem_used := sem_used (gw s) - 1\<rparr>, leaving := leaving s - 1\<rparr>)"
| load: "notifying s = Idle \<Longrightarrow> owed s > 0 \<Longrightarrow>
     gw_step now s (s\<lparr>owed := owed s - 1, notifying := Loaded (pending (gw s))\<rparr>)"
| compute: "notifying s = Loaded p \<Longrightarrow>
     gw_step now s (s\<lparr>notifying := Computed (Demand now ((gw s)\<lparr>pending := p\<rparr>))\<rparr>)"
| publish: "notifying s = Computed d \<Longrightarrow>
     gw_step now s (s\<lparr>gw := publish_demand d (gw s), notifying := Idle\<rparr>)"
| begin_lease: "renew_lease now (gw s) = (start, g) \<Longrightarrow>
     gw_step now s (s\<lparr>gw := g, watchers := watchers s + (if start then 1 else 0), owed := owed s + 1\<rparr>)"
| finish_lease: "watchers s > 0 \<Longrightarrow> end_lease ready now (gw s) = (True, g) \<Longrightarrow>
     gw_step now s (s\<lparr>gw := g, watchers := watchers s - 1, owed := owed s + 1\<rparr>)"
| grace_over: "gw_step now s (s\<lparr>owed := owed s + 1\<rparr>)"
| probe_start: "\<not> probeDone (gw s) \<Longrightarrow>
     gw_step now s (s\<lparr>gw := (gw s)\<lparr>probeDone := True\<rparr>, probers := probers s + 1\<rparr>)"
| probe_finish: "probers s > 0 \<Longrightarrow>
     gw_step now s (s\<lparr>gw := (gw s)\<lparr>probeAt := now, probeReady := ready, probeDone := False\<rparr>,
                      probers := probers s - 1\<rparr>)"
| subscribe: "notifying s = Idle \<Longrightarrow> SubscribeDemand now (gw s) = (h, g) \<Longrightarrow> gw_step now s (s\<lparr>gw := g\<rparr>)"
| take: "receive ch (demands (gw s)) = Some (v, d) \<Longrightarrow> gw_step now s (s\<lparr>gw := (gw s)\<lparr>demands := d\<rparr>\<rparr>)"
| cancel: "gw_step now s (s\<lparr>gw := (gw s)\<lparr>demands := snd (unsubscribe h (demands (gw s)))\<rparr>\<rparr>)"

definition gw_start :: "gateway \<Rightarrow> gw_sys" where
  "gw_start g = \<lparr>gw = g, entering = 0, counted = 0, leaving = 0, gauges = [], owed = 0, notifying = Idle,
     watchers = 0, probers = 0\<rparr>"

inductive gw_reach :: "gateway \<Rightarrow> gw_sys \<Rightarrow> bool" for g0 :: gateway where
  start: "gw_reach g0 (gw_start g0)"
| step: "gw_reach g0 s \<Longrightarrow> gw_step now s s' \<Longrightarrow> gw_reach g0 s'"

subsection \<open>The invariant\<close>

definition in_range :: "gateway \<Rightarrow> int \<Rightarrow> bool" where
  "in_range g d \<longleftrightarrow> 0 \<le> d \<and> d \<le> sem_cap g"

text \<open>The tokens held are those of the requests, and the counter counts the requests counted.\<close>

definition admission_inv :: "gw_sys \<Rightarrow> bool" where
  "admission_inv s \<longleftrightarrow>
     sem_used (gw s) = int (entering s + counted s + leaving s) \<and> sem_used (gw s) \<le> sem_cap (gw s) \<and>
     pending (gw s) = int (counted s) \<and> 0 < sem_cap (gw s) \<and> sem_cap (gw s) \<le> MaxInt64"

text \<open>A demand that agrees with the pending counter, up to the floor of one.\<close>

definition agrees :: "gateway \<Rightarrow> int \<Rightarrow> bool" where
  "agrees g d \<longleftrightarrow> (if pending g > 0 then d = pending g else d = 0 \<or> d = 1)"

definition notify_inv :: "gw_sys \<Rightarrow> bool" where
  "notify_inv s \<longleftrightarrow>
     subs_ok (demands (gw s)) \<and> in_range (gw s) (Current (demands (gw s))) \<and>
     list_all (list_all (in_range (gw s))) (chans (demands (gw s))) \<and>
     (case notifying s of Idle \<Rightarrow> True | Loaded p \<Rightarrow> in_range (gw s) p | Computed d \<Rightarrow> in_range (gw s) d) \<and>
     (owed s = 0 \<and> gauges s = [] \<longrightarrow>
       (case notifying s of
          Idle \<Rightarrow> agrees (gw s) (Current (demands (gw s)))
        | Loaded p \<Rightarrow> p = pending (gw s)
        | Computed d \<Rightarrow> agrees (gw s) d))"

definition lease_inv :: "gw_sys \<Rightarrow> bool" where
  "lease_inv s \<longleftrightarrow>
     watchers s = (if leaseWatcher (gw s) then 1 else 0) \<and> (leaseActive (gw s) \<longrightarrow> leaseWatcher (gw s)) \<and>
     probers s = (if probeDone (gw s) then 1 else 0)"

lemma Demand_agrees: "pending g \<ge> 0 \<Longrightarrow> agrees g (Demand now g)"
  by (simp add: agrees_def Demand_def)

lemma Demand_in_range: "0 \<le> pending g \<Longrightarrow> pending g \<le> sem_cap g \<Longrightarrow> 0 < sem_cap g \<Longrightarrow> in_range g (Demand now g)"
  by (simp add: in_range_def Demand_def)

lemma admission_pending:
  "admission_inv s \<Longrightarrow> 0 \<le> pending (gw s) \<and> pending (gw s) \<le> sem_cap (gw s) \<and> 0 < sem_cap (gw s)"
  by (simp add: admission_inv_def)

inductive_cases gw_stepE: "gw_step now s s'"

lemma renew_lease_frame:
  assumes "renew_lease now g = (start, g')"
  shows "sem_used g' = sem_used g \<and> sem_cap g' = sem_cap g \<and> pending g' = pending g \<and> demands g' = demands g \<and>
    probeDone g' = probeDone g \<and> leaseWatcher g' \<and> start = (\<not> leaseWatcher g) \<and> m g' = m g \<and> cfg g' = cfg g"
  using assms by (auto simp: renew_lease_def Let_def split: if_splits)

lemma end_lease_frame:
  assumes "end_lease ready now g = (fin, g')"
  shows "sem_used g' = sem_used g \<and> sem_cap g' = sem_cap g \<and> pending g' = pending g \<and> demands g' = demands g \<and>
    probeDone g' = probeDone g \<and> m g' = m g \<and> cfg g' = cfg g \<and>
    (fin \<longrightarrow> \<not> leaseActive g' \<and> \<not> leaseWatcher g') \<and> (\<not> fin \<longrightarrow> g' = g)"
  using assms by (auto simp: end_lease_def Let_def split: if_splits)

lemma pending_add_exact:
  assumes "0 \<le> pending g" and "pending g < MaxInt64" and "add_pending 1 g = (p, g')"
  shows "p = pending g + 1 \<and> pending g' = pending g + 1"
  using assms add_pending_frame(12,13) [of 1 g] by (simp add: wrap64_id in_int64_def MaxInt64_def)

lemma pending_sub_exact:
  assumes "0 < pending g" and "pending g \<le> MaxInt64" and "add_pending (- 1) g = (p, g')"
  shows "p = pending g - 1 \<and> pending g' = pending g - 1"
  using assms add_pending_frame(12,13) [of "- 1" g] by (simp add: wrap64_id in_int64_def MaxInt64_def)

lemma admission_inv_step: "gw_step now s s' \<Longrightarrow> admission_inv s \<Longrightarrow> admission_inv s'"
proof (induction rule: gw_step.induct)
  case (enter s p g)
  then show ?case
    using pending_add_exact [of "gw s" p g] add_pending_frame(2,3) [of 1 "gw s"] by (auto simp: admission_inv_def)
next
  case (leave s p g)
  then show ?case
    using pending_sub_exact [of "gw s" p g] add_pending_frame(2,3) [of "- 1" "gw s"] by (auto simp: admission_inv_def)
next
  case (begin_lease s start g)
  then show ?case using renew_lease_frame [OF begin_lease(1)] by (simp add: admission_inv_def)
next
  case (finish_lease s ready g)
  then show ?case using end_lease_frame [OF finish_lease(2)] by (simp add: admission_inv_def)
next
  case (subscribe s h g)
  then show ?case by (auto simp: admission_inv_def SubscribeDemand_def split: prod.splits)
qed (auto simp: admission_inv_def frame_simps)

lemma lease_inv_step: "gw_step now s s' \<Longrightarrow> lease_inv s \<Longrightarrow> lease_inv s'"
proof (induction rule: gw_step.induct)
  case (enter s p g)
  then show ?case using add_pending_frame [of 1 "gw s"] by (simp add: lease_inv_def)
next
  case (leave s p g)
  then show ?case using add_pending_frame [of "- 1" "gw s"] by (simp add: lease_inv_def)
next
  case (begin_lease s start g)
  then show ?case using renew_lease_frame [OF begin_lease(1)] by (simp add: lease_inv_def)
next
  case (finish_lease s ready g)
  then show ?case using end_lease_frame [OF finish_lease(2)] by (simp add: lease_inv_def split: if_splits)
next
  case (subscribe s h g)
  then show ?case by (auto simp: lease_inv_def SubscribeDemand_def split: prod.splits)
qed (auto simp: lease_inv_def frame_simps split: if_splits)


subsection \<open>Published values\<close>

definition chans_all :: "(int \<Rightarrow> bool) \<Rightarrow> subscriptions \<Rightarrow> bool" where
  "chans_all P s \<longleftrightarrow> list_all (list_all P) (chans s)"

lemma chans_all_publish: "subs_ok s \<Longrightarrow> chans_all P s \<Longrightarrow> P d \<Longrightarrow> chans_all P (snd (Publish d s))"
  by (auto simp: Publish_eq chans_all_def list_all_length nth_overwrite)

lemma chans_all_subscribe: "chans_all P s \<Longrightarrow> P c \<Longrightarrow> chans_all P (snd (Subscribe c s))"
  by (simp add: chans_all_def Subscribe_def Let_def)

lemma chans_all_unsubscribe: "chans_all P s \<Longrightarrow> chans_all P (snd (unsubscribe h s))"
  by (simp add: chans_all_def unsubscribe_def)

lemma chans_all_receive: "chans_all P s \<Longrightarrow> receive ch s = Some (v, s') \<Longrightarrow> chans_all P s' \<and> P v"
proof -
  assume all: "chans_all P s" and "receive ch s = Some (v, s')"
  then obtain b where ch: "ch < length (chans s)" and b: "chans s ! ch = v # b"
    and s': "s' = s\<lparr>chans := (chans s)[ch := b]\<rparr>" using receive_Some by blast
  have "list_all P (v # b)" using all ch b nth_mem [OF ch] by (simp add: chans_all_def list_all_iff)
  then show ?thesis using all s' by (simp add: chans_all_def list_all_list_update)
qed

lemma notify_inv_frame:
  assumes "notify_inv s" and "sem_cap (gw s') = sem_cap (gw s)" and "demands (gw s') = demands (gw s)"
    and "notifying s' = notifying s"
    and "owed s' = 0 \<and> gauges s' = [] \<Longrightarrow> owed s = 0 \<and> gauges s = [] \<and> pending (gw s') = pending (gw s)"
  shows "notify_inv s'"
proof -
  have "in_range (gw s') = in_range (gw s)" using assms(2) by (simp add: in_range_def fun_eq_iff)
  then show ?thesis
    using assms by (auto simp: notify_inv_def agrees_def split: notifier.splits)
qed

lemma notify_inv_demands:
  assumes "notify_inv s" and "subs_ok d" and "Current d = Current (demands (gw s))" and "chans_all (in_range (gw s)) d"
  shows "notify_inv (s\<lparr>gw := (gw s)\<lparr>demands := d\<rparr>\<rparr>)"
proof -
  have "in_range ((gw s)\<lparr>demands := d\<rparr>) = in_range (gw s)" by (simp add: in_range_def fun_eq_iff)
  then show ?thesis
    using assms by (auto simp: notify_inv_def agrees_def chans_all_def split: notifier.splits)
qed

lemma notify_inv_subs: "notify_inv s \<Longrightarrow> subs_ok (demands (gw s)) \<and> chans_all (in_range (gw s)) (demands (gw s))"
  by (simp add: notify_inv_def chans_all_def)

lemma notify_inv_publish:
  assumes "notify_inv s" and "notifying s = Computed d"
  shows "notify_inv (s\<lparr>gw := publish_demand d (gw s), notifying := Idle\<rparr>)"
proof -
  have s: "subs_ok (demands (gw s))" "in_range (gw s) d" using assms by (simp_all add: notify_inv_def)
  have "in_range (publish_demand d (gw s)) = in_range (gw s)" by (simp add: in_range_def fun_eq_iff frame_simps)
  then show ?thesis
    using assms s chans_all_publish [OF s(1), of "in_range (gw s)" d] subs_ok_publish [OF s(1)] mailbox.publish_cur [OF s(1)]
    by (simp add: notify_inv_def agrees_def chans_all_def frame_simps Current_def)
qed

lemma notify_inv_compute:
  assumes "notify_inv s" and "admission_inv s" and "notifying s = Loaded p"
  shows "notify_inv (s\<lparr>notifying := Computed (Demand now ((gw s)\<lparr>pending := p\<rparr>))\<rparr>)"
proof -
  have "in_range (gw s) p" using assms by (simp add: notify_inv_def)
  then have "in_range (gw s) (Demand now ((gw s)\<lparr>pending := p\<rparr>))"
    using admission_pending [OF assms(2)] by (auto simp: in_range_def Demand_def)
  moreover have "agrees (gw s) (Demand now ((gw s)\<lparr>pending := p\<rparr>))" if "p = pending (gw s)"
    using that Demand_agrees [of "gw s" now] admission_pending [OF assms(2)] by simp
  ultimately show ?thesis using assms by (auto simp: notify_inv_def)
qed

lemma notify_inv_step: "gw_step now s s' \<Longrightarrow> notify_inv s \<Longrightarrow> admission_inv s \<Longrightarrow> notify_inv s'"
proof (induction rule: gw_step.induct)
  case (enter s p g)
  then show ?case
    using add_pending_frame [of 1 "gw s"] by (intro notify_inv_frame [OF enter(3)]) (auto)
next
  case (leave s p g)
  then show ?case
    using add_pending_frame [of "- 1" "gw s"] by (intro notify_inv_frame [OF leave(3)]) (auto)
next
  case (load s)
  then show ?case
    using admission_pending [OF load(4)] by (auto simp: notify_inv_def in_range_def)
next
  case (compute s p)
  then show ?case by (intro notify_inv_compute)
next
  case (publish s d)
  then show ?case by (intro notify_inv_publish)
next
  case (begin_lease s start g)
  show ?case
    using renew_lease_frame [OF begin_lease(1)] by (intro notify_inv_frame [OF begin_lease(2)]) simp_all
next
  case (finish_lease s ready g)
  show ?case
    using end_lease_frame [OF finish_lease(2)] by (intro notify_inv_frame [OF finish_lease(3)]) simp_all
next
  case (subscribe s h g)
  let ?d = "snd (Subscribe (Demand now (gw s)) (demands (gw s)))"
  have g: "g = (gw s)\<lparr>demands := ?d\<rparr>" using subscribe(2) by (auto simp: SubscribeDemand_def split: prod.splits)
  note s = notify_inv_subs [OF subscribe(3)]
  have "in_range (gw s) (Demand now (gw s))"
    using admission_pending [OF subscribe(4)] by (simp add: Demand_in_range)
  then show ?case
    unfolding g using s subs_ok_subscribe chans_all_subscribe mailbox.subscribe_cur
    by (intro notify_inv_demands [OF subscribe(3)]) (simp_all add: Current_def)
next
  case (take ch s v d)
  note s = notify_inv_subs [OF take(2)]
  then show ?case
    using subs_ok_receive [OF _ take(1)] mailbox.recv_frame [OF _ take(1)] chans_all_receive [OF _ take(1)]
    by (intro notify_inv_demands [OF take(2)]) (simp_all add: Current_def)
next
  case (cancel s h)
  note s = notify_inv_subs [OF cancel(1)]
  then show ?case
    using subs_ok_unsubscribe chans_all_unsubscribe mailbox.unsub_cur
    by (intro notify_inv_demands [OF cancel(1)]) (simp_all add: Current_def)
qed (erule notify_inv_frame; simp add: frame_simps)+

definition gw_inv :: "gw_sys \<Rightarrow> bool" where
  "gw_inv s \<longleftrightarrow> admission_inv s \<and> notify_inv s \<and> lease_inv s"

lemma with_defaults_positive:
  "0 < MaxQueue (with_defaults c)" "0 < ActivationTimeout (with_defaults c)" "0 < RetryInterval (with_defaults c)"
  "0 < HeartbeatInterval (with_defaults c)" "0 < ActivationGracePeriod (with_defaults c)"
  "in_int64 (MaxQueue c) \<Longrightarrow> MaxQueue (with_defaults c) \<le> MaxInt64"
  by (simp_all add: with_defaults_def DefaultMaxQueue_def duration_defs in_int64_def MaxInt64_def)

lemma New_Inr:
  assumes "New parseURL readFile c = Inr g"
  shows "sem_used g = 0 \<and> sem_cap g = MaxQueue (cfg g) \<and> pending g = 0 \<and>
    demands g = NewSubscriptions \<and> \<not> leaseActive g \<and> \<not> leaseWatcher g \<and> \<not> probeDone g \<and> probeAt g = 0 \<and>
    leaseDeadline g = 0 \<and> readyGraceUntil g = 0 \<and> m g = newMetrics \<and> cfg g = with_defaults c"
  using assms by (auto simp: New_def Let_def split: if_splits sum.splits)

lemma gw_inv_start:
  assumes "New parseURL readFile c = Inr g" and "in_int64 (MaxQueue c)"
  shows "gw_inv (gw_start g)"
  using New_Inr [OF assms(1)] with_defaults_positive [of c] assms(2) subs_ok_new
  by (auto simp: gw_inv_def gw_start_def admission_inv_def notify_inv_def lease_inv_def in_range_def agrees_def
        NewSubscriptions_def Current_def)

lemma gw_reach_inv:
  assumes "gw_reach g s" and "New parseURL readFile c = Inr g" and "in_int64 (MaxQueue c)"
  shows "gw_inv s"
  using assms(1)
proof (induction rule: gw_reach.induct)
  case start
  show ?case by (rule gw_inv_start [OF assms(2,3)])
next
  case (step s now s')
  then show ?case
    by (simp add: gw_inv_def admission_inv_step lease_inv_step notify_inv_step)
qed

lemma sem_cap_step: "gw_step now s s' \<Longrightarrow> sem_cap (gw s') = sem_cap (gw s)"
proof (induction rule: gw_step.induct)
  case (enter s p g)
  then show ?case using add_pending_frame(3) [of 1 "gw s"] by simp
next
  case (leave s p g)
  then show ?case using add_pending_frame(3) [of "- 1" "gw s"] by simp
next
  case (begin_lease s start g)
  then show ?case using renew_lease_frame [OF begin_lease(1)] by simp
next
  case (finish_lease s ready g)
  then show ?case using end_lease_frame [OF finish_lease(2)] by simp
next
  case (subscribe s h g)
  then show ?case by (auto simp: SubscribeDemand_def split: prod.splits)
qed (simp_all add: frame_simps)

lemma gw_reach_cap: "gw_reach g s \<Longrightarrow> sem_cap (gw s) = sem_cap g"
  by (induction rule: gw_reach.induct) (simp_all add: gw_start_def sem_cap_step)


subsection \<open>Executable runs\<close>

text \<open>The steps as actions that can be evaluated; \<open>None\<close> where the action is not possible.\<close>

datatype gw_action =
  Acquire | Enter | Leave | SetGauge nat | Release | Load | Compute time | PublishA | BeginLease time | FinishLease bool time

fun gw_exec :: "gw_action \<Rightarrow> gw_sys \<Rightarrow> gw_sys option" where
  "gw_exec Acquire s =
     (if sem_used (gw s) < sem_cap (gw s)
      then Some (s\<lparr>gw := (gw s)\<lparr>sem_used := sem_used (gw s) + 1\<rparr>, entering := entering s + 1\<rparr>) else None)"
| "gw_exec Enter s =
     (if entering s > 0
      then let (p, g) = add_pending 1 (gw s)
        in Some (s\<lparr>gw := g, entering := entering s - 1, counted := counted s + 1, gauges := gauges s @ [p]\<rparr>) else None)"
| "gw_exec Leave s =
     (if counted s > 0
      then let (p, g) = add_pending (- 1) (gw s)
        in Some (s\<lparr>gw := g, counted := counted s - 1, leaving := leaving s + 1, gauges := gauges s @ [p]\<rparr>) else None)"
| "gw_exec (SetGauge i) s =
     (if i < length (gauges s)
      then Some (s\<lparr>gw := set_pending_gauge (gauges s ! i) (gw s), gauges := take i (gauges s) @ drop (Suc i) (gauges s),
                   owed := owed s + 1\<rparr>) else None)"
| "gw_exec Release s =
     (if leaving s > 0
      then Some (s\<lparr>gw := (gw s)\<lparr>sem_used := sem_used (gw s) - 1\<rparr>, leaving := leaving s - 1\<rparr>) else None)"
| "gw_exec Load s =
     (if notifying s = Idle \<and> owed s > 0
      then Some (s\<lparr>owed := owed s - 1, notifying := Loaded (pending (gw s))\<rparr>) else None)"
| "gw_exec (Compute now) s =
     (case notifying s of
        Loaded p \<Rightarrow> Some (s\<lparr>notifying := Computed (Demand now ((gw s)\<lparr>pending := p\<rparr>))\<rparr>) | _ \<Rightarrow> None)"
| "gw_exec PublishA s =
     (case notifying s of
        Computed d \<Rightarrow> Some (s\<lparr>gw := publish_demand d (gw s), notifying := Idle\<rparr>) | _ \<Rightarrow> None)"
| "gw_exec (BeginLease now) s =
     (let (start, g) = renew_lease now (gw s)
      in Some (s\<lparr>gw := g, watchers := watchers s + (if start then 1 else 0), owed := owed s + 1\<rparr>))"
| "gw_exec (FinishLease ready now) s =
     (if watchers s > 0
      then let (finished, g) = end_lease ready now (gw s)
        in if finished then Some (s\<lparr>gw := g, watchers := watchers s - 1, owed := owed s + 1\<rparr>) else None
      else None)"

fun gw_run :: "gw_action list \<Rightarrow> gw_sys \<Rightarrow> gw_sys option" where
  "gw_run [] s = Some s"
| "gw_run (a # as) s = (case gw_exec a s of None \<Rightarrow> None | Some s' \<Rightarrow> gw_run as s')"

lemma gw_exec_sound: "gw_exec a s = Some s' \<Longrightarrow> \<exists>now. gw_step now s s'"
proof (cases a)
  case (SetGauge i)
  assume "gw_exec a s = Some s'"
  with SetGauge have i: "i < length (gauges s)" and s': "s' = s\<lparr>gw := set_pending_gauge (gauges s ! i) (gw s),
      gauges := take i (gauges s) @ drop (Suc i) (gauges s), owed := owed s + 1\<rparr>"
    by (auto split: if_splits)
  show ?thesis unfolding s' using gw_step.gauge [OF id_take_nth_drop [OF i]] by blast
next
  case (BeginLease now)
  assume "gw_exec a s = Some s'"
  with BeginLease obtain start g where "renew_lease now (gw s) = (start, g)"
    and s': "s' = s\<lparr>gw := g, watchers := watchers s + (if start then 1 else 0), owed := owed s + 1\<rparr>"
    by (auto split: prod.splits)
  then show ?thesis using gw_step.begin_lease by blast
qed (auto intro: gw_step.intros [simplified] split: if_splits notifier.splits prod.splits)

lemma gw_run_reach: "gw_reach g s \<Longrightarrow> gw_run as s = Some s' \<Longrightarrow> gw_reach g s'"
proof (induction as arbitrary: s)
  case (Cons a as)
  then obtain s1 where s1: "gw_exec a s = Some s1" "gw_run as s1 = Some s'" by (auto split: option.splits)
  then obtain now where "gw_step now s s1" using gw_exec_sound by blast
  with Cons s1 show ?case using gw_reach.step by blast
qed simp


subsection \<open>Properties\<close>

text \<open>
  C1. Under any interleaving of its goroutines, a gateway never holds more requests than its
  queue limit: the tokens held are those of the requests in progress, the pending counter counts
  the requests that were admitted and have not left, and every demand it has published, or left
  for a subscriber to read, or answers, lies between zero and the limit.
\<close>

theorem gateway_bounded:
  assumes "New parseURL readFile c = Inr g0" and "in_int64 (MaxQueue c)" and "gw_reach g0 s"
  shows "sem_used (gw s) = int (entering s + counted s + leaving s)
    \<and> sem_used (gw s) \<le> MaxQueue (cfg g0) \<and> pending (gw s) = int (counted s)
    \<and> 0 \<le> Demand now (gw s) \<and> Demand now (gw s) \<le> MaxQueue (cfg g0)
    \<and> 0 \<le> Current (demands (gw s)) \<and> Current (demands (gw s)) \<le> MaxQueue (cfg g0)
    \<and> list_all (list_all (\<lambda>d. 0 \<le> d \<and> d \<le> MaxQueue (cfg g0))) (chans (demands (gw s)))"
proof -
  have inv: "gw_inv s" by (rule gw_reach_inv [OF assms(3,1,2)])
  have cap: "sem_cap (gw s) = MaxQueue (cfg g0)" using gw_reach_cap [OF assms(3)] New_Inr [OF assms(1)] by simp
  have adm: "admission_inv s" using inv by (simp add: gw_inv_def)
  have "in_range (gw s) (Demand now (gw s))" using admission_pending [OF adm] by (simp add: Demand_in_range)
  then show ?thesis using inv cap adm
    by (simp add: gw_inv_def notify_inv_def admission_inv_def in_range_def [abs_def])
qed

definition example_url :: "string \<Rightarrow> url option" where
  "example_url s = Some \<lparr>url_Scheme = ''http'', url_Host = ''b'', url_String = s\<rparr>"

definition example_cfg :: Config where
  "example_cfg = \<lparr>BackendURL = ''http://b'', MaxQueue = 2, ActivationTimeout = 10, RetryInterval = 5,
     ColdStartMode = ''keepalive'', HeartbeatInterval = 4, ClientAPIKeyFile = [], ActivationGracePeriod = 15\<rparr>"

lemma example_New: "New example_url (\<lambda>_. None) example_cfg = Inr example_gateway"
  by (simp add: New_def example_url_def absolute_http_def example_cfg_def example_gateway_def with_defaults_def
        ColdStartReject_def ColdStartKeepalive_def)

lemma example_cfg_ok: "in_int64 (MaxQueue example_cfg)"
  by (simp add: example_cfg_def in_int64_def MaxInt64_def)

definition notify_once :: "gw_action list" where
  "notify_once = [Load, Compute 50, PublishA]"

text \<open>Two requests enter; the goroutines set the gauge in the opposite order when they leave.\<close>

definition racing_run :: "gw_action list" where
  "racing_run = [Acquire, Acquire, Enter, SetGauge 0, Enter, SetGauge 0] @ notify_once @ notify_once @
     [Leave, Leave, SetGauge 1, SetGauge 0, Release, Release] @ notify_once @ notify_once"

lemmas run_defs = gw_start_def example_gateway_def add_pending_def set_pending_gauge_def publish_demand_def
  Demand_def lease_floor_def Before_def Publish_def Publish_racing_def NewSubscriptions_def newMetrics_def
  wrap64_id in_int64_def MaxInt64_def float64_of_int_exact

lemma racing_run_eval:
  "\<exists>s. gw_run racing_run (gw_start example_gateway) = Some s \<and> entering s = 0 \<and> counted s = 0 \<and> leaving s = 0
     \<and> owed s = 0 \<and> gauges s = [] \<and> notifying s = Idle \<and> pending (gw s) = 0 \<and> m_pending (m (gw s)) = 1"
  by (simp add: racing_run_def notify_once_def run_defs)

theorem gateway_bounded_witness:
  "\<exists>s. gw_run racing_run (gw_start example_gateway) = Some s \<and> gw_reach example_gateway s
     \<and> sem_used (gw s) = 0 \<and> Demand 50 (gw s) \<le> 2"
proof -
  obtain s where run: "gw_run racing_run (gw_start example_gateway) = Some s" "entering s = 0" "counted s = 0" "leaving s = 0"
    using racing_run_eval by blast
  have "gw_reach example_gateway s" by (rule gw_run_reach [OF gw_reach.start run(1)])
  from gateway_bounded [OF example_New example_cfg_ok this, of 50] run this show ?thesis
    by (simp add: example_gateway_def)
qed

text \<open>
  C9. No demand change is lost: whenever no goroutine is between a change of the counter and the
  end of its notification, the demand published to the subscribers is the number of pending
  requests, or zero or the activation floor of one when there is none.
\<close>

theorem gateway_publishes_pending:
  assumes "New parseURL readFile c = Inr g0" and "in_int64 (MaxQueue c)" and "gw_reach g0 s"
    and "gauges s = []" and "owed s = 0" and "notifying s = Idle"
  shows "if counted s = 0 then Current (demands (gw s)) \<in> {0, 1}
    else Current (demands (gw s)) = int (counted s)"
  using gw_reach_inv [OF assms(3,1,2)] assms(4-6)
  by (auto simp: gw_inv_def notify_inv_def admission_inv_def agrees_def)

theorem gateway_publishes_pending_witness:
  "\<exists>s. gw_run ([Acquire, Enter, SetGauge 0] @ notify_once) (gw_start example_gateway) = Some s
     \<and> Current (demands (gw s)) = 1"
proof -
  obtain s where run: "gw_run ([Acquire, Enter, SetGauge 0] @ notify_once) (gw_start example_gateway) = Some s"
    "gauges s = []" "owed s = 0" "notifying s = Idle" "counted s = 1"
    by (simp add: notify_once_def run_defs)
  have "gw_reach example_gateway s" by (rule gw_run_reach [OF gw_reach.start run(1)])
  from gateway_publishes_pending [OF example_New example_cfg_ok this run(2-4)] run show ?thesis by simp
qed

text \<open>
  At most one probe of the backend is in flight, and while an activation lease is active
  exactly one watcher looks after it; there is never more than one.
\<close>

theorem gateway_single_flight:
  assumes "New parseURL readFile c = Inr g0" and "in_int64 (MaxQueue c)" and "gw_reach g0 s"
  shows "probers s \<le> 1 \<and> watchers s \<le> 1 \<and> (leaseActive (gw s) \<longrightarrow> watchers s = 1)
    \<and> (probeDone (gw s) \<longleftrightarrow> probers s = 1)"
  using gw_reach_inv [OF assms(3,1,2)] by (auto simp: gw_inv_def lease_inv_def)

theorem gateway_single_flight_witness:
  "\<exists>s. gw_run [BeginLease 40, BeginLease 41] (gw_start example_gateway) = Some s \<and> watchers s = 1"
proof -
  obtain s where run: "gw_run [BeginLease 40, BeginLease 41] (gw_start example_gateway) = Some s" "leaseActive (gw s)"
    by (simp add: run_defs renew_lease_def)
  have "gw_reach example_gateway s" by (rule gw_run_reach [OF gw_reach.start run(1)])
  from gateway_single_flight [OF example_New example_cfg_ok this] run show ?thesis by simp
qed

text \<open>
  The pending gauge is not exact: the goroutines add to the counter and set the gauge in two
  operations, so there is a run after which no request is in progress and no goroutine has work
  left, and the gauge shows one pending request.
\<close>

theorem pending_gauge_can_stay_wrong:
  shows "\<exists>s. gw_reach example_gateway s \<and> entering s = 0 \<and> counted s = 0 \<and> leaving s = 0 \<and> owed s = 0
    \<and> gauges s = [] \<and> notifying s = Idle \<and> pending (gw s) = 0 \<and> m_pending (m (gw s)) = 1"
  using racing_run_eval gw_run_reach [OF gw_reach.start] by blast

end
