(* ===== verification/Scale_From_Zero.thy ===== *)
theory Scale_From_Zero
  imports Fleet External_Scaler Gateway_System
begin

section \<open>Scaling from zero\<close>

text \<open>
  The control loop: a request that waits keeps the gateway active for KEDA, KEDA and Kubernetes start the
  backend, and the request gets through. The source of the external scaler is the gateway, as in
  \<open>runGateway\<close>, or the aggregator of a fleet, as in \<open>runAggregator\<close>. What KEDA and the cluster make of the answers is a parameter,
  the status with which the backend would answer a health request at each time.
\<close>

subsection \<open>A gateway as a demand source\<close>

type_synonym timed_gateway = "time \<times> gateway"

definition gateway_receive :: "subscription \<Rightarrow> timed_gateway \<Rightarrow> (int \<times> timed_gateway) option" where
  "gateway_receive h s =
     map_option (\<lambda>(v, d). (v, (fst s, (snd s)\<lparr>demands := d\<rparr>))) (receive (sub_chan h) (demands (snd s)))"

definition gateway_unsubscribe :: "subscription \<Rightarrow> timed_gateway \<Rightarrow> timed_gateway" where
  "gateway_unsubscribe h s = (fst s, (snd s)\<lparr>demands := snd (unsubscribe h (demands (snd s)))\<rparr>)"

definition gateway_source :: "(timed_gateway, subscription) demandSource" where
  "gateway_source =
     \<lparr>src_Demand = (\<lambda>(t, g). (Gateway.Demand t g, (t, g))),
      src_SubscribeDemand = (\<lambda>(t, g). let (h, g) = Gateway.SubscribeDemand t g in (h, (t, g))),
      src_receive = gateway_receive, src_unsubscribe = gateway_unsubscribe,
      src_ScalerStreamConnected = (\<lambda>(t, g). (t, Gateway.ScalerStreamConnected g)),
      src_ScalerStreamDisconnected = (\<lambda>(t, g). (t, Gateway.ScalerStreamDisconnected g))\<rparr>"

text \<open>Whether KEDA is told at time \<open>u\<close> that the gateway is active, along the states \<open>sys\<close> of its goroutines.\<close>

definition keda_active ::
  "(string \<Rightarrow> go_float option) \<Rightarrow> scaledObjectRef option \<Rightarrow> (time \<Rightarrow> gw_sys) \<Rightarrow> time \<Rightarrow> bool" where
  "keda_active otherFloat ref sys u \<longleftrightarrow> fst (IsActive otherFloat gateway_source ref (u, gw (sys u))) = Inr True"

text \<open>
  The law of KEDA and the cluster: while the scaler is active without a break, from \<open>l\<close> after the start
  on, the backend answers its health request.
\<close>

definition scales_within :: "duration \<Rightarrow> ((time \<Rightarrow> bool) \<Rightarrow> time \<Rightarrow> nat option) \<Rightarrow> bool" where
  "scales_within l status \<longleftrightarrow>
     (\<forall>active t v. t + l \<le> v \<longrightarrow> (\<forall>u. t \<le> u \<and> u \<le> v \<longrightarrow> active u) \<longrightarrow> status active v = Some StatusOK)"

lemma pending_is_active:
  assumes "New parseURL readFile c = Inr g0" and "in_int64 (MaxQueue c)" and "gw_reach g0 (sys u)"
    and "parseScalerMetadata otherFloat ref = Inr mt" and "0 < counted (sys u)"
  shows "keda_active otherFloat ref sys u"
  using gw_reach_inv [OF assms(3,1,2)] assms(4,5)
  by (simp add: keda_active_def IsActive_def gateway_source_def gw_inv_def admission_inv_def Gateway.Demand_def)

subsection \<open>What a request sees\<close>

text \<open>A result that is not ready was recorded by time \<open>b\<close>, and what other goroutines do keeps it so.\<close>

definition unready_until :: "time \<Rightarrow> gateway \<Rightarrow> bool" where
  "unready_until b g \<longleftrightarrow> probeReady g \<or> probeAt g \<le> b"

definition keeps_until :: "time \<Rightarrow> (gateway \<Rightarrow> gateway) \<Rightarrow> bool" where
  "keeps_until b f \<longleftrightarrow> (\<forall>g. cfg (f g) = cfg g \<and> (unready_until b g \<longrightarrow> unready_until b (f g)))"

lemma keeps_untilD: "keeps_until b f \<Longrightarrow> cfg (f g) = cfg g" "keeps_until b f \<Longrightarrow> unready_until b g \<Longrightarrow> unready_until b (f g)"
  by (simp_all add: keeps_until_def)

definition probe_until :: "time \<Rightarrow> probe_iter \<Rightarrow> bool" where
  "probe_until b p \<longleftrightarrow> \<not> pi_done p \<and> keeps_until b (pi_others p) \<and> (probeBackend (pi_response p) \<or> pi_end p \<le> b)"

lemma backendReady_until:
  assumes "list_all (probe_until b) ps" and "unready_until b g" and "backendReady ps g = (r, g')"
  shows "unready_until b g' \<and> cfg g' = cfg g"
  using assms
proof (induction ps arbitrary: g)
  case (Cons p ps)
  have p: "keeps_until b (pi_others p)" "probeBackend (pi_response p) \<or> pi_end p \<le> b" "\<not> pi_done p"
    using Cons.prems(1) by (simp_all add: probe_until_def)
  show ?case
  proof (cases "probe_fresh (pi_now p) g")
    case True
    with Cons.prems(2,3) show ?thesis by (auto simp: probe_fresh_def)
  next
    case False
    show ?thesis
    proof (cases "probeDone g")
      case True
      then have "backendReady ps (pi_others p g) = (r, g')"
        using Cons.prems(3) False p(3) by (auto simp: probe_fresh_def split: if_splits)
      with Cons.IH [of "pi_others p g"] Cons.prems(1,2) keeps_untilD [OF p(1), of g] show ?thesis by simp
    next
      case idle: False
      then have "g' = (pi_others p (g\<lparr>probeDone := True\<rparr>))\<lparr>probeAt := pi_end p, probeReady := probeBackend (pi_response p), probeDone := False\<rparr>"
        using Cons.prems(3) False by (auto simp: probe_fresh_def Let_def split: if_splits)
      with p(2) keeps_untilD(1) [OF p(1)] show ?thesis by (simp add: unready_until_def)
    qed
  qed
qed simp

text \<open>Once results recorded by \<open>b\<close> are stale and the backend answers, no probe fails.\<close>

lemma backendReady_late:
  assumes "list_all (probe_until b) ps" and "unready_until b g" and "backendReady ps g = (Some r, g')"
    and "list_all (\<lambda>p. probeBackend (pi_response p) \<and> b + RetryInterval (cfg g) \<le> pi_now p) ps"
    and "RetryInterval (cfg g) \<le> MaxInt64"
  shows "r"
  using assms
proof (induction ps arbitrary: g)
  case (Cons p ps)
  have p: "keeps_until b (pi_others p)" "\<not> pi_done p" "probeBackend (pi_response p)" "b + RetryInterval (cfg g) \<le> pi_now p"
    using Cons.prems(1,4) by (simp_all add: probe_until_def)
  show ?case
  proof (cases "probe_fresh (pi_now p) g")
    case True
    then have "b < probeAt g" using p(4) Cons.prems(5) by (auto simp: probe_fresh_def Sub_def)
    with True Cons.prems(2,3) show ?thesis by (auto simp: probe_fresh_def unready_until_def)
  next
    case False
    show ?thesis
    proof (cases "probeDone g")
      case True
      then have "backendReady ps (pi_others p g) = (Some r, g')"
        using Cons.prems(3) False p(2) by (auto simp: probe_fresh_def split: if_splits)
      with Cons.IH [of "pi_others p g"] Cons.prems keeps_untilD [OF p(1), of g] show ?thesis by simp
    next
      case False
      with \<open>\<not> probe_fresh (pi_now p) g\<close> Cons.prems(3) p(3) show ?thesis by (auto simp: probe_fresh_def Let_def split: if_splits)
    qed
  qed
qed simp

subsection \<open>The waiting loops\<close>

definition iter_until :: "time \<Rightarrow> wait_iter \<Rightarrow> bool" where
  "iter_until b it \<longleftrightarrow> \<not> wt_ctxErr it \<and> \<not> wt_done it \<and> wt_writeOk it \<and> keeps_until b (wt_others it) \<and>
     list_all (probe_until b) (wt_probe it) \<and> (\<forall>g. fst (backendReady (wt_probe it) g) \<noteq> None)"

definition iter_late :: "time \<Rightarrow> wait_iter \<Rightarrow> bool" where
  "iter_late s it \<longleftrightarrow> list_all (\<lambda>p. probeBackend (pi_response p) \<and> s \<le> pi_now p) (wt_probe it)"

lemma iter_probe:
  assumes "iter_until b it" and "unready_until b g"
  obtains r g' where "backendReady (wt_probe it) g = (Some r, g')" and "unready_until b g'" and "cfg g' = cfg g"
proof -
  have "fst (backendReady (wt_probe it) g) \<noteq> None" using assms(1) by (simp add: iter_until_def)
  then obtain r g' where r: "backendReady (wt_probe it) g = (Some r, g')" by (metis not_None_eq prod.collapse)
  with backendReady_until [OF _ assms(2) r] assms(1) that show ?thesis by (simp add: iter_until_def)
qed

lemma loops_ready:
  assumes "list_all (\<lambda>it. iter_until b it \<and> wt_now it \<le> deadline) pre" and "iter_until b it"
    and "iter_late (b + RetryInterval (cfg g)) it" and "RetryInterval (cfg g) \<le> MaxInt64" and "unready_until b g"
  shows "(\<exists>g'. wait_loop deadline (pre @ it # post) g = (Some activationReady, g')) \<and>
    (\<exists>w' g'. hold_loop deadline lastBeat (pre @ it # post) w g = (Some activationReady, w', g'))"
  using assms
proof (induction pre arbitrary: g w lastBeat)
  case Nil
  obtain r g' where r: "backendReady (wt_probe it) g = (Some r, g')" by (rule iter_probe [OF Nil(2,5)])
  have "r"
    by (rule backendReady_late [OF _ Nil(5) r _ Nil(4)]) (use Nil(2,3) in \<open>simp_all add: iter_until_def iter_late_def\<close>)
  with r Nil(2) show ?case by (simp add: iter_until_def)
next
  case (Cons i pre)
  then have i: "iter_until b i" "wt_now i \<le> deadline" by simp_all
  obtain r g' where r: "backendReady (wt_probe i) g = (Some r, g')" "unready_until b g'" "cfg g' = cfg g"
    by (rule iter_probe [OF i(1) Cons.prems(5)])
  have o: "cfg (wt_others i g') = cfg g" "unready_until b (wt_others i g')"
    using i(1) r(2,3) keeps_untilD by (auto simp: iter_until_def)
  note IH = Cons.IH [of "wt_others i g'"]
  have "(\<exists>g''. wait_loop deadline (pre @ it # post) (wt_others i g') = (Some activationReady, g'')) \<and>
    (\<exists>w' g''. hold_loop deadline lb (pre @ it # post) v (wt_others i g') = (Some activationReady, w', g''))" for lb v
    using IH [of lb v] Cons.prems o by simp
  with i r show ?case by (cases r) (auto simp: iter_until_def After_def Let_def)
qed

lemma hold_ready:
  assumes "\<And>v. \<exists>w' g'. hold_loop (Add now (ActivationTimeout (cfg g))) beatNow its v g = (Some activationReady, w', g')"
  shows "\<exists>w' g'. holdWithHeartbeat False True now beatNow its w g = (Some activationReady, True, w', g')"
proof -
  obtain w' g' where "hold_loop (Add now (ActivationTimeout (cfg g))) beatNow its (WriteHeader StatusOK
    (Header_Set ''Connection'' ''keep-alive'' (Header_Set ''Cache-Control'' ''no-cache''
      (Header_Set ''Content-Type'' ''text/event-stream'' w)))) g = (Some activationReady, w', g')"
    using assms by blast
  then show ?thesis by (simp add: holdWithHeartbeat_def)
qed

subsection \<open>The loop closed\<close>

text \<open>
  A probe that takes at most \<open>d\<close> and gets the answer the backend gives at some moment of it; an
  iteration of a client that stays, with such probes until \<open>e\<close>.
\<close>

definition answered :: "(time \<Rightarrow> nat option) \<Rightarrow> duration \<Rightarrow> probe_iter \<Rightarrow> bool" where
  "answered status d p \<longleftrightarrow> pi_end p \<le> pi_now p + d \<and> (\<exists>x. pi_now p \<le> x \<and> x \<le> pi_end p \<and> pi_response p = status x)"

definition stays :: "(time \<Rightarrow> nat option) \<Rightarrow> duration \<Rightarrow> time \<Rightarrow> time \<Rightarrow> wait_iter \<Rightarrow> bool" where
  "stays status d b e it \<longleftrightarrow> \<not> wt_ctxErr it \<and> \<not> wt_done it \<and> wt_writeOk it \<and> keeps_until b (wt_others it) \<and>
     list_all (\<lambda>p. \<not> pi_done p \<and> keeps_until b (pi_others p) \<and> answered status d p \<and> pi_end p \<le> e) (wt_probe it) \<and>
     (\<forall>g. fst (backendReady (wt_probe it) g) \<noteq> None)"

text \<open>The clock: iteration \<open>j\<close> starts after \<open>j\<close> retry intervals, and ends within \<open>j + 1\<close> times \<open>r'\<close>.\<close>

definition rhythm :: "duration \<Rightarrow> duration \<Rightarrow> time \<Rightarrow> wait_iter list \<Rightarrow> bool" where
  "rhythm r r' t its \<longleftrightarrow>
     (\<forall>j < length its. wt_now (its ! j) \<le> t + (int j + 1) * r' \<and> list_all (\<lambda>p. t + int j * r \<le> pi_now p) (wt_probe (its ! j)))"

lemma stays_until:
  assumes "stays status d (t + l + d) e it" and "\<And>x. t + l \<le> x \<Longrightarrow> x \<le> e \<Longrightarrow> status x = Some StatusOK"
  shows "iter_until (t + l + d) it"
    and "list_all (\<lambda>p. s \<le> pi_now p) (wt_probe it) \<Longrightarrow> t + l \<le> s \<Longrightarrow> iter_late s it"
proof -
  have p: "probeBackend (pi_response p) \<or> pi_end p \<le> t + l + d" "t + l \<le> pi_now p \<Longrightarrow> probeBackend (pi_response p)"
    if a: "answered status d p" "pi_end p \<le> e" for p
  proof -
    obtain x where x: "pi_now p \<le> x" "x \<le> pi_end p" "pi_response p = status x" "pi_end p \<le> pi_now p + d"
      using a(1) by (auto simp: answered_def)
    have ok: "probeBackend (pi_response p)" if "t + l \<le> x" using assms(2) [OF that] x a(2) by (simp add: probeBackend_def)
    show "probeBackend (pi_response p) \<or> pi_end p \<le> t + l + d" using ok x by (cases "t + l \<le> x") auto
    show "t + l \<le> pi_now p \<Longrightarrow> probeBackend (pi_response p)" using ok x by simp
  qed
  show "iter_until (t + l + d) it" using assms(1) p(1) by (auto simp: stays_def iter_until_def probe_until_def list_all_iff)
  assume "list_all (\<lambda>p. s \<le> pi_now p) (wt_probe it)" "t + l \<le> s"
  then show "iter_late s it" using assms(1) p(2) by (fastforce simp: stays_def iter_late_def list_all_iff)
qed

text \<open>
  A wait from \<open>t\<close> to \<open>e\<close> that fits a start within \<open>l\<close>: the client stays, a probe takes at most \<open>d\<close>, no goroutine records
  a failed probe later than \<open>l + d\<close>, and the activation timeout leaves room for \<open>k\<close> iterations that
  outlast \<open>l + d\<close> and one retry interval.
\<close>

definition wait_fits ::
  "duration \<Rightarrow> duration \<Rightarrow> (time \<Rightarrow> nat option) \<Rightarrow> time \<Rightarrow> time \<Rightarrow> gateway \<Rightarrow> wait_iter list \<Rightarrow> bool" where
  "wait_fits l d status t e g its \<longleftrightarrow>
     probeAt g \<le> t \<and> 0 \<le> l \<and> 0 \<le> d \<and> 0 < RetryInterval (cfg g) \<and> RetryInterval (cfg g) \<le> MaxInt64 \<and>
     list_all (stays status d (t + l + d) e) its \<and>
     (\<exists>k r'. rhythm (RetryInterval (cfg g)) r' t its \<and> 0 \<le> r' \<and> k < length its \<and>
        l + d + RetryInterval (cfg g) \<le> int k * RetryInterval (cfg g) \<and> int k * r' \<le> ActivationTimeout (cfg g))"

lemma wait_fits_ready:
  assumes "scales_within l status" and active: "\<And>u. t \<le> u \<Longrightarrow> u \<le> e \<Longrightarrow> active u"
    and "wait_fits l d (status active) t e g its"
  shows "\<exists>g'. waitForBackend t its g = (Some activationReady, g')"
    and "\<exists>w' g'. holdWithHeartbeat False True t beatNow its w g = (Some activationReady, True, w', g')"
proof -
  let ?b = "t + l + d" and ?r = "RetryInterval (cfg g)" and ?deadline = "Add t (ActivationTimeout (cfg g))"
  obtain k r' where k: "rhythm ?r r' t its" "0 \<le> r'" "k < length its" "l + d + ?r \<le> int k * ?r" "int k * r' \<le> ActivationTimeout (cfg g)"
    and fit: "probeAt g \<le> t" "0 \<le> l" "0 \<le> d" "0 < ?r" "?r \<le> MaxInt64" "list_all (stays (status active) d ?b e) its"
    using assms(3) unfolding wait_fits_def by blast
  have ok: "status active x = Some StatusOK" if "t + l \<le> x" "x \<le> e" for x
    using assms(1) active that unfolding scales_within_def by (metis order.trans)
  have stay: "stays (status active) d ?b e (its ! j)" if "j < length its" for j using fit(6) that by (simp add: list_all_length)
  have early: "wt_now (its ! j) \<le> ?deadline" if "j < k" for j
  proof -
    have "wt_now (its ! j) \<le> t + (int j + 1) * r'" using k(1,3) that by (simp add: rhythm_def)
    also have "\<dots> \<le> t + int k * r'" using that k(2) by (simp add: mult_right_mono)
    finally show ?thesis using k(5) by (simp add: Add_def)
  qed
  have pre: "list_all (\<lambda>it. iter_until ?b it \<and> wt_now it \<le> ?deadline) (take k its)"
    using early k(3) stays_until(1) [OF stay ok] by (simp add: list_all_length)
  have "list_all (\<lambda>p. ?b + ?r \<le> pi_now p) (wt_probe (its ! k))" using k(1,3,4) by (fastforce simp: rhythm_def list_all_iff)
  then have late: "iter_late (?b + ?r) (its ! k)" using stays_until(2) [OF stay ok, of k "?b + ?r"] fit(3,4) k(3) by simp
  have "unready_until ?b g" using fit(1-3) by (simp add: unready_until_def)
  note loops = loops_ready [OF pre stays_until(1) [OF stay [OF k(3)] ok] late fit(5) this, of "drop (Suc k) its"]
  have "take k its @ its ! k # drop (Suc k) its = its" using id_take_nth_drop [OF k(3)] by simp
  then have loop: "(\<exists>g'. wait_loop ?deadline its g = (Some activationReady, g')) \<and>
    (\<exists>w' g'. hold_loop ?deadline lb its v g = (Some activationReady, w', g'))" for lb v
    using loops [of lb v] by simp
  show "\<exists>g'. waitForBackend t its g = (Some activationReady, g')" using loop by (simp add: waitForBackend_def)
  show "\<exists>w' g'. holdWithHeartbeat False True t beatNow its w g = (Some activationReady, True, w', g')"
    by (rule hold_ready) (use loop in blast)
qed

subsection \<open>Properties\<close>

text \<open>
  C10. A held request gets through a start from zero. A request is counted by a gateway from \<open>t\<close> to \<open>e\<close>. Whatever
  the other goroutines do, KEDA is told all that time that the gateway is active. If the cluster starts a
  backend within \<open>l\<close> and the wait leaves room for it, then it ends with the backend ready, with and
  without heartbeats, and not with a timeout.
\<close>

theorem scale_from_zero:
  assumes "New parseURL readFile c = Inr g0" and "in_int64 (MaxQueue c)" and "\<And>u. gw_reach g0 (sys u)"
    and "parseScalerMetadata otherFloat ref = Inr mt" and "\<And>u. t \<le> u \<Longrightarrow> u \<le> e \<Longrightarrow> 0 < counted (sys u)"
    and "scales_within l status" and "wait_fits l d (status (keda_active otherFloat ref sys)) t e (gw (sys t)) its"
  shows "(\<forall>u. t \<le> u \<and> u \<le> e \<longrightarrow> keda_active otherFloat ref sys u)
    \<and> (\<exists>g'. waitForBackend t its (gw (sys t)) = (Some activationReady, g'))
    \<and> (\<exists>w' g'. holdWithHeartbeat False True t beatNow its w (gw (sys t)) = (Some activationReady, True, w', g'))"
proof -
  have active: "keda_active otherFloat ref sys u" if "t \<le> u" "u \<le> e" for u
    by (rule pending_is_active [where sys = sys, OF assms(1-4) assms(5) [OF that]])
  with wait_fits_ready [OF assms(6) active assms(7)] show ?thesis by blast
qed

text \<open>
  The example gateway counts a request from time 100 on; a cluster starts the backend once the scaler was
  active for 3, and the request polls at 100, 105 and 110. A probe of another goroutine ends while the request waits for
  it.
\<close>

definition counted_one :: gw_sys where
  "counted_one = the (gw_run [Acquire, Enter] (gw_start example_gateway))"

definition held_sys :: "time \<Rightarrow> gw_sys" where
  "held_sys u = (if u < 100 then gw_start example_gateway else counted_one)"

definition slow_start :: "(time \<Rightarrow> bool) \<Rightarrow> time \<Rightarrow> nat option" where
  "slow_start active v = (if \<forall>u. v - 3 \<le> u \<and> u \<le> v \<longrightarrow> active u then Some StatusOK else None)"

definition held_probe :: "time \<Rightarrow> probe_iter" where
  "held_probe t = \<lparr>pi_now = t, pi_done = False, pi_others = (\<lambda>g. g\<lparr>probeDone := False\<rparr>),
     pi_response = (if t < 103 then None else Some StatusOK), pi_end = t\<rparr>"

definition held_iter :: "time \<Rightarrow> wait_iter" where
  "held_iter t = (example_iter t)\<lparr>wt_probe := [held_probe t, held_probe t]\<rparr>"

lemma counted_one:
  "gw_run [Acquire, Enter] (gw_start example_gateway) = Some counted_one" "counted counted_one = 1" "pending (gw counted_one) = 1"
  "cfg (gw counted_one) = example_cfg" "probeAt (gw counted_one) = 0"
  by (simp_all add: counted_one_def run_defs example_cfg_def)

lemma held_reach: "gw_reach example_gateway (held_sys u)"
  using gw_run_reach [OF gw_reach.start counted_one(1)] gw_reach.start by (simp add: held_sys_def)

lemma held_active: "0 \<le> u \<Longrightarrow> keda_active (\<lambda>_. None) (Some example_ref) held_sys u \<longleftrightarrow> 100 \<le> u"
  by (simp add: keda_active_def IsActive_def example_ref_ok gateway_source_def held_sys_def Gateway.Demand_def counted_one
      lease_floor_def gw_start_def example_gateway_def Before_def)

lemma slow_start_scales: "scales_within 3 slow_start"
  by (simp add: scales_within_def slow_start_def)

definition active_from :: "(time \<Rightarrow> bool) \<Rightarrow> bool" where
  "active_from active \<longleftrightarrow> (\<forall>u. 0 \<le> u \<and> u \<le> 110 \<longrightarrow> active u = (100 \<le> u))"

lemma held_status:
  assumes "active_from active" and "100 \<le> t" and "t \<le> 110"
  shows "slow_start active t = (if t < 103 then None else Some StatusOK)"
proof (cases "t < 103")
  case True
  then have "\<not> active (t - 3)" using assms by (simp add: active_from_def)
  then have "\<not> (\<forall>u. t - 3 \<le> u \<and> u \<le> t \<longrightarrow> active u)" by auto
  with True show ?thesis by (simp add: slow_start_def)
next
  case False
  then show ?thesis using assms by (simp add: slow_start_def active_from_def)
qed

lemma held_iter_stays:
  assumes "active_from active" and "100 \<le> t" and "t \<le> 110"
  shows "stays (slow_start active) 2 (100 + 3 + 2) 110 (held_iter t)"
proof -
  have "answered (slow_start active) 2 (held_probe t)"
    unfolding answered_def by (intro conjI exI [of _ t]) (simp_all add: held_probe_def held_status [OF assms])
  moreover have "fst (backendReady [held_probe t, held_probe t] g) \<noteq> None" for g
    by (simp add: held_probe_def Let_def)
  moreover have "keeps_until b (\<lambda>g. g)" "keeps_until b (pi_others (held_probe t))" for b
    by (simp_all add: keeps_until_def unready_until_def held_probe_def)
  moreover have "\<not> pi_done (held_probe t)" "pi_end (held_probe t) \<le> 110" using assms(3) by (simp_all add: held_probe_def)
  ultimately show ?thesis by (simp add: stays_def held_iter_def example_iter_def del: backendReady.simps)
qed

lemma held_fits:
  assumes "active_from active"
  shows "wait_fits 3 2 (slow_start active) 100 110 (gw counted_one) (map held_iter [100, 105, 110])"
proof -
  let ?its = "map held_iter [100, 105, 110]"
  have rhythm: "rhythm 5 5 100 ?its"
    by (auto simp: rhythm_def less_Suc_eq numeral_eq_Suc held_iter_def example_iter_def held_probe_def)
  have its: "list_all (stays (slow_start active) 2 (100 + 3 + 2) 110) ?its"
    using held_iter_stays [OF assms, of 100] held_iter_stays [OF assms, of 105] held_iter_stays [OF assms, of 110] by simp
  have conf: "probeAt (gw counted_one) = 0" "RetryInterval (cfg (gw counted_one)) = 5" "ActivationTimeout (cfg (gw counted_one)) = 10"
    by (simp_all add: counted_one example_cfg_def)
  show ?thesis
    unfolding wait_fits_def conf using its rhythm
    by (intro conjI exI [of _ "2 :: nat"] exI [of _ "5 :: int"]) (simp_all add: MaxInt64_def)
qed

theorem scale_from_zero_witness:
  "\<exists>g'. waitForBackend 100 (map held_iter [100, 105, 110]) (gw counted_one) = (Some activationReady, g')"
proof -
  have g: "held_sys 100 = counted_one" by (simp add: held_sys_def)
  have "active_from (keda_active (\<lambda>_. None) (Some example_ref) held_sys)" by (simp add: active_from_def held_active)
  note fits = held_fits [OF this, folded g]
  have counts: "0 < counted (held_sys u)" if "100 \<le> u" "u \<le> 110" for u using that by (simp add: held_sys_def counted_one)
  note ready = scale_from_zero [where sys = held_sys, OF example_New example_cfg_ok held_reach example_ref_ok counts slow_start_scales fits]
  show ?thesis using ready [THEN conjunct2, THEN conjunct1] by (simp only: g)
qed

subsection \<open>A fleet\<close>

text \<open>With several gateways KEDA asks the aggregator, which has handled the deliveries up to the time of the call.\<close>

definition arrived :: "delivery list \<Rightarrow> time \<Rightarrow> delivery list" where
  "arrived ds u = filter (\<lambda>d. fst d \<le> u) ds"

definition fleet_active ::
  "(string \<Rightarrow> go_float option) \<Rightarrow> scaledObjectRef option \<Rightarrow> DemandAggregatorConfig \<Rightarrow> delivery list \<Rightarrow> time \<Rightarrow> bool" where
  "fleet_active otherFloat ref c ds u \<longleftrightarrow>
     fst (IsActive otherFloat aggregator_source ref (u, deliver (arrived ds u) (NewDemandAggregator c))) = Inr True"

text \<open>The newest report of the member that arrived by then is within its lease and tells of a request.\<close>

definition reports_demand :: "duration \<Rightarrow> delivery list \<Rightarrow> string \<Rightarrow> time \<Rightarrow> bool" where
  "reports_demand ttl ds i u \<longleftrightarrow> live_member ttl (arrived ds u) u i \<and> 0 < newest_demand (arrived ds u) i"

lemma remembered_demand:
  assumes "remembers ttl ds now M" and "live_member ttl ds now i" and "0 < newest_demand ds i"
    and "\<forall>d \<in> set ds. 0 \<le> rep_Demand (snd d)"
  shows "0 < spec_demand M"
proof -
  obtain d where d: "newest_of i ds = Some d" "now < fst d + ttl" using assms(2) by (auto simp: live_member_def split: option.splits)
  have i: "M i = Some (entry ttl d)" by (rule remembers_newest [OF assms(1) d])
  have nonneg: "0 \<le> mem_demand (the (M j))" if "j \<in> dom M" for j using that remembers_origin [OF assms(1)] assms(4) by fastforce
  have "finite (dom M)" by (rule finite_subset [OF remembers_dom [OF assms(1)]]) simp
  then have "mem_demand (the (M i)) \<le> (\<Sum>j \<in> dom M. mem_demand (the (M j)))"
    using i nonneg by (intro member_le_sum) auto
  with i d(1) assms(3) show ?thesis by (simp add: spec_demand_def newest_demand_def MaxInt64_def)
qed

lemma reports_demand_active:
  assumes "in_int64 (cfg_MaxDemand c)" and "sorted (map fst ds)"
    and "list_all (valid_report (maxDemand (NewDemandAggregator c)) \<circ> snd) ds"
    and "int (card (reporting ds)) \<le> maxMembers (NewDemandAggregator c)"
    and "parseScalerMetadata otherFloat ref = Inr mt" and "reports_demand (memberTTL (NewDemandAggregator c)) ds i u"
  shows "fleet_active otherFloat ref c ds u"
proof -
  let ?ds = "arrived ds u" and ?a = "deliver (arrived ds u) (NewDemandAggregator c)"
  have sub: "set ?ds \<subseteq> set ds" by (auto simp: arrived_def)
  have "last_time ?ds u" using assms(2) by (auto simp: last_time_def arrived_def sorted_filter)
  moreover have "list_all (valid_report (maxDemand (NewDemandAggregator c)) \<circ> snd) ?ds" using assms(3) sub by (auto simp: list_all_iff)
  moreover have "card (reporting ?ds) \<le> card (reporting ds)" by (rule card_mono) (use sub in \<open>auto simp: reporting_def\<close>)
  ultimately have a: "agg_ok ?a" "remembers (memberTTL (NewDemandAggregator c)) ?ds u (spec_expire u (abs_members ?a))"
    using deliver_remembers [OF assms(1), of ?ds u] assms(4) by auto
  have "\<forall>d \<in> set ?ds. 0 \<le> rep_Demand (snd d)" using assms(3) sub valid_report_bounds by (fastforce simp: list_all_iff)
  then have "0 < spec_demand (spec_expire u (abs_members ?a))"
    using remembered_demand [OF a(2)] assms(6) unfolding reports_demand_def by blast
  then have "0 < fst (Aggregator.Demand u ?a)" using Demand_refines_spec [OF a(1), of u] by (metis fst_conv)
  with assms(5) show ?thesis by (simp add: fleet_active_def IsActive_def aggregator_source_def case_prod_unfold Let_def)
qed

text \<open>
  C11. A held request of one gateway of a fleet gets through as well: while the newest report of that gateway that
  reached the aggregator is within its lease and tells of a request, KEDA is told that the fleet is active, whatever
  the other gateways report and in whatever order reports arrive, and if the cluster starts a backend within
  \<open>l\<close> and the wait leaves room for it, then the wait ends with the backend ready.
\<close>

theorem fleet_scales_from_zero:
  assumes "in_int64 (cfg_MaxDemand c)" and "sorted (map fst ds)"
    and "list_all (valid_report (maxDemand (NewDemandAggregator c)) \<circ> snd) ds"
    and "int (card (reporting ds)) \<le> maxMembers (NewDemandAggregator c)"
    and "parseScalerMetadata otherFloat ref = Inr mt"
    and "\<And>u. t \<le> u \<Longrightarrow> u \<le> e \<Longrightarrow> reports_demand (memberTTL (NewDemandAggregator c)) ds i u"
    and "scales_within l status" and "wait_fits l d (status (fleet_active otherFloat ref c ds)) t e g its"
  shows "(\<forall>u. t \<le> u \<and> u \<le> e \<longrightarrow> fleet_active otherFloat ref c ds u)
    \<and> (\<exists>g'. waitForBackend t its g = (Some activationReady, g'))
    \<and> (\<exists>w' g'. holdWithHeartbeat False True t beatNow its w g = (Some activationReady, True, w', g'))"
proof -
  have active: "fleet_active otherFloat ref c ds u" if "t \<le> u" "u \<le> e" for u
    by (rule reports_demand_active [OF assms(1-5) assms(6) [OF that]])
  with wait_fits_ready [OF assms(7) active assms(8)] show ?thesis by blast
qed

text \<open>One report of one request arrives at time 100.\<close>

definition one_report :: "delivery list" where
  "one_report = [(100, report_of ''a'' 1 1)]"

lemma one_report_arrived: "arrived one_report u = (if 100 \<le> u then one_report else [])"
  by (simp add: arrived_def one_report_def)

lemma one_report_ok:
  "sorted (map fst one_report)" "list_all (valid_report (maxDemand (NewDemandAggregator example_config)) \<circ> snd) one_report"
  "int (card (reporting one_report)) \<le> maxMembers (NewDemandAggregator example_config)"
  using example_fleet_limits
  by (simp_all add: one_report_def report_of_def valid_report_def maxMemberIDLength_def reporting_def)

lemma one_report_demand:
  assumes "100 \<le> u" and "u \<le> 110"
  shows "reports_demand (memberTTL (NewDemandAggregator example_config)) one_report ''a'' u"
proof -
  have "10 < memberTTL (NewDemandAggregator example_config)"
    by (simp add: NewDemandAggregator_def example_config_def duration_defs)
  moreover have "newest_of ''a'' one_report = Some (100, report_of ''a'' 1 1)"
    by (simp add: newest_of_def newer_def one_report_def report_of_def)
  ultimately show ?thesis
    using assms by (simp add: reports_demand_def one_report_arrived live_member_def newest_demand_def report_of_def)
qed

lemma one_report_active: "active_from (fleet_active (\<lambda>_. None) (Some example_ref) example_config one_report)"
  unfolding active_from_def
proof (intro allI impI)
  fix u :: int assume u: "0 \<le> u \<and> u \<le> 110"
  show "fleet_active (\<lambda>_. None) (Some example_ref) example_config one_report u = (100 \<le> u)"
  proof (cases "100 \<le> u")
    case True
    with reports_demand_active [OF example_config_ok one_report_ok example_ref_ok one_report_demand] u show ?thesis by simp
  next
    case False
    have "fst (Aggregator.Demand u (NewDemandAggregator example_config)) = 0"
      by (simp add: Aggregator.Demand_def expire_def expireLocked_def NewDemandAggregator_def Let_def)
    with False show ?thesis
      by (simp add: fleet_active_def one_report_arrived IsActive_def example_ref_ok aggregator_source_def case_prod_unfold Let_def)
  qed
qed

theorem fleet_scales_from_zero_witness:
  "fleet_active (\<lambda>_. None) (Some example_ref) example_config one_report 105 \<and>
   (\<exists>w' g'. holdWithHeartbeat False True 100 100 (map held_iter [100, 105, 110]) new_response (gw counted_one)
      = (Some activationReady, True, w', g'))"
proof -
  note fleet = fleet_scales_from_zero [OF example_config_ok one_report_ok example_ref_ok one_report_demand slow_start_scales
      held_fits [OF one_report_active]]
  show ?thesis using fleet [THEN conjunct1] fleet [THEN conjunct2, THEN conjunct2] by simp
qed

end
