(* ===== verification/Proxy.thy ===== *)
theory Proxy
  imports Activation Demand_Auth
begin

section \<open>Serving requests\<close>

text \<open>
  \<open>auth.go\<close> and \<open>proxy.go\<close> of \<open>internal/gateway/proxy\<close>: the client key check, the admission of a
  request, the choice between forwarding, rejecting and holding it, and the routes of the
  handler. The reverse proxy of \<open>net/http/httputil\<close> is the sequence of calls it makes on the
  response writer it is given, and whether it then panics with \<open>http.ErrAbortHandler\<close> because the copy
  of the body failed; SHA-256 and the JSON decoder are parameters.
\<close>

subsection \<open>Client authentication\<close>

definition bearerPrefix :: string where "bearerPrefix = ''Bearer ''"
definition bearerChallenge :: string where
  "bearerChallenge = ''Bearer realm='' @ [byte 34] @ ''noctaya'' @ [byte 34]"

definition count_request :: "string \<Rightarrow> gateway \<Rightarrow> gateway" where
  "count_request code g = g\<lparr>m := (m g)\<lparr>m_requests := inc code (m_requests (m g))\<rparr>\<rparr>"

definition count_rejection :: "string \<Rightarrow> gateway \<Rightarrow> gateway" where
  "count_rejection reason g = g\<lparr>m := (m g)\<lparr>m_rejections := inc reason (m_rejections (m g))\<rparr>\<rparr>"

definition apiKeysEqual :: "(string \<Rightarrow> string) \<Rightarrow> string \<Rightarrow> string \<Rightarrow> bool" where
  "apiKeysEqual sha256 provided expected \<longleftrightarrow> ConstantTimeCompare (sha256 provided) (sha256 expected) = 1"

definition Header_Del :: "string \<Rightarrow> http_request \<Rightarrow> http_request" where
  "Header_Del k r = r\<lparr>req_Header := AList.delete k (req_Header r)\<rparr>"

text \<open>The result: whether the request may go on, the response, the request and the gateway.\<close>

definition authorize ::
  "(string \<Rightarrow> string option) \<Rightarrow> (string \<Rightarrow> string) \<Rightarrow> http_request \<Rightarrow> http_response \<Rightarrow> gateway \<Rightarrow>
     bool \<times> http_request \<times> http_response \<times> gateway" where
  "authorize readFile sha256 r w g =
     (if ClientAPIKeyFile (cfg g) = [] then (True, r, w, g)
      else case readClientAPIKey readFile (ClientAPIKeyFile (cfg g)) of
        Inl _ \<Rightarrow>
          (False, r, http_Error ''gateway authentication unavailable'' StatusServiceUnavailable w,
           count_request ''503'' (count_rejection ''authentication_unavailable'' g))
      | Inr expected \<Rightarrow>
          let (provided, found) = CutPrefix (Header_Get (req_Header r) ''Authorization'') bearerPrefix
          in if \<not> found \<or> \<not> apiKeysEqual sha256 provided expected
             then (False, r,
                   http_Error ''unauthorized'' StatusUnauthorized (Header_Set ''WWW-Authenticate'' bearerChallenge w),
                   count_request ''401'' (count_rejection ''unauthorized'' g))
             else (True, Header_Del ''Authorization'' r, w, g))"

subsection \<open>Response writers\<close>

datatype writer_call = CallWriteHeader nat | CallWrite string | CallSetHeader string string | CallFlush

text \<open>\<open>committedWriter\<close> drops \<open>WriteHeader\<close>; \<open>statusRecorder\<close> remembers its last argument. A flush sends the header.\<close>

fun committed_call :: "writer_call \<Rightarrow> http_response \<Rightarrow> http_response" where
  "committed_call (CallWriteHeader code) w = w"
| "committed_call (CallWrite t) w = WriteString t w"
| "committed_call (CallSetHeader k v) w = Header_Set k v w"
| "committed_call CallFlush w = WriteHeader StatusOK w"

fun recorded_call :: "writer_call \<Rightarrow> nat \<times> http_response \<Rightarrow> nat \<times> http_response" where
  "recorded_call (CallWriteHeader code) (st, w) = (code, WriteHeader code w)"
| "recorded_call (CallWrite t) (st, w) = (st, WriteString t w)"
| "recorded_call (CallSetHeader k v) (st, w) = (st, Header_Set k v w)"
| "recorded_call CallFlush (st, w) = (st, WriteHeader StatusOK w)"

subsection \<open>Requests\<close>

definition maxPeekBody :: nat where "maxPeekBody = 8388608"

text \<open>
  \<open>readErr\<close> says whether reading the body fails and \<open>jsonStream\<close> is the value of the field
  \<open>stream\<close> after decoding. The body is put back in both cases, so the request keeps it.
\<close>

definition wantsStream :: "bool \<Rightarrow> (string \<Rightarrow> bool) \<Rightarrow> http_request \<Rightarrow> bool" where
  "wantsStream readErr jsonStream r =
     (case req_Body r of
        None \<Rightarrow> False
      | Some body \<Rightarrow>
          if req_Method r = ''GET'' then False
          else if readErr \<or> length body > maxPeekBody then False
          else jsonStream body)"

definition reject :: "string \<Rightarrow> http_response \<Rightarrow> gateway \<Rightarrow> http_response \<times> gateway" where
  "reject reason w g =
     (http_Error ''backend not ready'' StatusServiceUnavailable (Header_Set ''Retry-After'' ''10'' w),
      count_request ''503'' (count_rejection reason g))"

text \<open>
  What a request observes: clock readings, probes, iterations of its wait, the upstream's calls and
  whether the reverse proxy aborts after them.
\<close>

record serve_env =
  sv_enter :: time
  sv_start :: time
  sv_probe :: "probe_iter list"
  sv_begin :: time
  sv_notify :: time
  sv_readErr :: bool
  sv_ctxErr :: bool
  sv_flusher :: bool
  sv_wait :: time
  sv_beat :: time
  sv_iters :: "wait_iter list"
  sv_ready :: time
  sv_upstream :: "http_request \<Rightarrow> writer_call list"
  sv_abort :: "http_request \<Rightarrow> bool"
  sv_leave :: time

text \<open>
  The panic of an aborted \<open>ServeHTTP\<close> unwinds through \<open>serve\<close>: the counter after the call is skipped and the
  deferred calls run. \<open>net/http\<close> recovers it and drops the connection, with the response as far as written.
\<close>

definition forward ::
  "serve_env \<Rightarrow> bool \<Rightarrow> bool \<Rightarrow> http_request \<Rightarrow> http_response \<Rightarrow> gateway \<Rightarrow> http_response \<times> gateway" where
  "forward e waited committed r w g =
     (let g = (if waited then g\<lparr>m := (m g)\<lparr>m_coldStart := m_coldStart (m g) @ [Sub (sv_ready e) (sv_start e)]\<rparr>\<rparr> else g)
      in if committed
         then (fold committed_call (sv_upstream e r) w, if sv_abort e r then g else count_request ''200'' g)
         else let (status, w) = fold recorded_call (sv_upstream e r) (StatusOK, w)
           in (w, if sv_abort e r then g else count_request (itoa (int status)) g))"

definition serve_admitted ::
  "(string \<Rightarrow> bool) \<Rightarrow> serve_env \<Rightarrow> http_request \<Rightarrow> http_response \<Rightarrow> gateway \<Rightarrow> (http_response \<times> gateway) option" where
  "serve_admitted jsonStream e r w g =
     (case backendReady (sv_probe e) g of
        (None, g) \<Rightarrow> None
      | (Some ready, g) \<Rightarrow>
          if ready then Some (forward e False False r w g)
          else let (startWatcher, g) = beginActivation (sv_begin e) (sv_notify e) g in
            if ColdStartMode (cfg g) = ColdStartReject then Some (reject ''cold_start'' w g)
            else if wantsStream (sv_readErr e) jsonStream r
            then (case holdWithHeartbeat (sv_ctxErr e) (sv_flusher e) (sv_wait e) (sv_beat e) (sv_iters e) w g of
                    (None, streamCommitted, w, g) \<Rightarrow> None
                  | (Some result, streamCommitted, w, g) \<Rightarrow>
                      if result \<noteq> activationReady
                      then let g = (if streamCommitted then count_request ''200'' g else g)
                        in if result = activationClientClosed then Some (w, g)
                           else if \<not> streamCommitted then Some (reject ''activation_timeout'' w g)
                           else Some (writeStreamError w, count_rejection ''activation_timeout'' g)
                      else Some (forward e True streamCommitted r w g))
            else (case waitForBackend (sv_wait e) (sv_iters e) g of
                    (None, g) \<Rightarrow> None
                  | (Some result, g) \<Rightarrow>
                      if result = activationClientClosed then Some (w, g)
                      else if result = activationTimedOut then Some (reject ''activation_timeout'' w g)
                      else Some (forward e True False r w g)))"

text \<open>The deferred calls run in reverse order: the counter is decremented before the token is returned.\<close>

definition serve ::
  "(string \<Rightarrow> bool) \<Rightarrow> serve_env \<Rightarrow> http_request \<Rightarrow> http_response \<Rightarrow> gateway \<Rightarrow> (http_response \<times> gateway) option" where
  "serve jsonStream e r w g =
     (if sem_used g < sem_cap g
      then let g = changePending 1 (sv_enter e) (g\<lparr>sem_used := sem_used g + 1\<rparr>)
        in case serve_admitted jsonStream e r w g of
             None \<Rightarrow> None
           | Some (w, g) \<Rightarrow>
               let g = changePending (- 1) (sv_leave e) g in Some (w, g\<lparr>sem_used := sem_used g - 1\<rparr>)
      else Some (http_Error ''gateway queue full'' StatusTooManyRequests (Header_Set ''Retry-After'' ''5'' w),
                 count_request ''429'' (count_rejection ''queue_full'' g)))"

text \<open>
  The routes. \<open>encodePending\<close> is the JSON encoder's text for the queue endpoint and
  \<open>serveMetrics\<close> the Prometheus handler of the registry.
\<close>

definition Handler ::
  "(string \<Rightarrow> string option) \<Rightarrow> (string \<Rightarrow> string) \<Rightarrow> (string \<Rightarrow> bool) \<Rightarrow> (int \<Rightarrow> string) \<Rightarrow> (metrics \<Rightarrow> http_response) \<Rightarrow>
     serve_env \<Rightarrow> http_request \<Rightarrow> gateway \<Rightarrow> (http_response \<times> gateway) option" where
  "Handler readFile sha256 jsonStream encodePending serveMetrics e r g =
     (if req_Path r = ''/healthz'' then Some (WriteHeader StatusOK new_response, g)
      else if req_Path r = ''/noctaya/queue''
      then Some (WriteString (encodePending (Demand (sv_enter e) g)) new_response, g)
      else if req_Path r = ''/metrics'' then Some (serveMetrics (m g), g)
      else let (ok, r, w, g) = authorize readFile sha256 r new_response g
        in if ok then serve jsonStream e r w g else Some (w, g))"


subsection \<open>What waiting leaves alone\<close>

text \<open>The parts of the gateway that account for requests.\<close>

definition account :: "gateway \<Rightarrow> int \<times> int \<times> int \<times> Config \<times> counter_vec" where
  "account g = (sem_used g, sem_cap g, pending g, cfg g, m_requests (m g))"

definition neutral :: "(gateway \<Rightarrow> gateway) \<Rightarrow> bool" where
  "neutral f \<longleftrightarrow> (\<forall>g. account (f g) = account g)"

definition quiet_probes :: "probe_iter list \<Rightarrow> bool" where
  "quiet_probes ps \<longleftrightarrow> list_all (\<lambda>p. neutral (pi_others p)) ps"

definition quiet_iters :: "wait_iter list \<Rightarrow> bool" where
  "quiet_iters its \<longleftrightarrow> list_all (\<lambda>it. quiet_probes (wt_probe it) \<and> neutral (wt_others it)) its"

lemma account_simps [simp]:
  "account (g\<lparr>probeDone := b\<rparr>) = account g" "account (g\<lparr>probeReady := b\<rparr>) = account g"
  "account (g\<lparr>probeAt := t\<rparr>) = account g" "account (g\<lparr>leaseActive := b\<rparr>) = account g"
  "account (g\<lparr>leaseDeadline := t\<rparr>) = account g" "account (g\<lparr>leaseWatcher := b\<rparr>) = account g"
  "account (count_rejection reason g) = account g"
  "account (g\<lparr>m := (m g)\<lparr>m_coldStart := ds\<rparr>\<rparr>) = account g"
  by (simp_all add: account_def count_rejection_def)

lemma account_publish [simp]: "account (notifyDemandChange now g) = account g"
  by (simp add: notifyDemandChange_def account_def frame_simps) (simp add: publish_demand_def Let_def case_prod_unfold)

lemma account_begin: "beginActivation now n g = (start, g') \<Longrightarrow> account g' = account g"
  by (auto simp: beginActivation_def renew_lease_def Let_def split: if_splits)

lemma account_ready: "quiet_probes ps \<Longrightarrow> backendReady ps g = (r, g') \<Longrightarrow> account g' = account g"
proof (induction ps arbitrary: g)
  case (Cons p ps)
  have others: "account (pi_others p x) = account x" for x
    using Cons.prems(1) by (simp add: quiet_probes_def neutral_def)
  show ?case
    using Cons.IH [of "pi_others p g"] Cons.prems others
    by (auto simp: quiet_probes_def Let_def split: if_splits)
qed simp

lemma account_wait: "quiet_iters its \<Longrightarrow> wait_loop d its g = (r, g') \<Longrightarrow> account g' = account g"
proof (induction its arbitrary: g)
  case (Cons it its)
  obtain rd g1 where p: "backendReady (wt_probe it) g = (rd, g1)" by fastforce
  have g1: "account g1 = account g" using account_ready [OF _ p] Cons.prems(1) by (simp add: quiet_iters_def)
  have "account (wt_others it g1) = account g1" using Cons.prems(1) by (simp add: quiet_iters_def neutral_def)
  with g1 show ?case
    using Cons.IH [of "wt_others it g1"] Cons.prems p
    by (auto simp: quiet_iters_def split: if_splits option.splits)
qed simp

lemma account_hold: "quiet_iters its \<Longrightarrow> hold_loop d lb its w g = (r, w', g') \<Longrightarrow> account g' = account g"
proof (induction its arbitrary: g w lb)
  case (Cons it its)
  obtain rd g1 where p: "backendReady (wt_probe it) g = (rd, g1)" by fastforce
  have g1: "account g1 = account g" using account_ready [OF _ p] Cons.prems(1) by (simp add: quiet_iters_def)
  have "account (wt_others it g1) = account g1" using Cons.prems(1) by (simp add: quiet_iters_def neutral_def)
  with g1 show ?case
    using Cons.IH [of _ _ "wt_others it g1"] Cons.prems p
    by (auto simp: quiet_iters_def Let_def split: if_splits option.splits)
qed simp

lemma account_holdWithHeartbeat:
  assumes "quiet_iters its" and "holdWithHeartbeat ce fl now bn its w g = (r, c, w', g')"
  shows "account g' = account g"
  using assms account_wait [OF assms(1)] account_hold [OF assms(1)]
  by (auto simp: holdWithHeartbeat_def waitForBackend_def split: if_splits prod.splits)

text \<open>Not committed, the response is untouched; committed, it has status 200.\<close>

lemma hold_response:
  assumes "holdWithHeartbeat ce fl now bn its w g = (r, c, w', g')" and "\<not> resp_committed w"
  shows "if c then resp_committed w' \<and> resp_status w' = 200 else w' = w"
proof (cases "ce \<or> \<not> fl")
  case True
  then show ?thesis using assms(1) by (auto simp: holdWithHeartbeat_def split: prod.splits if_splits)
next
  case False
  let ?w = "WriteHeader StatusOK (Header_Set ''Connection'' ''keep-alive''
    (Header_Set ''Cache-Control'' ''no-cache'' (Header_Set ''Content-Type'' ''text/event-stream'' w)))"
  obtain d where "hold_loop d bn its ?w g = (r, w', g')" and c: "c"
    using False assms(1) by (auto simp: holdWithHeartbeat_def Let_def split: prod.splits)
  from hold_loop_response [OF this(1)] c assms(2) show ?thesis by (simp add: StatusOK_def)
qed

subsection \<open>Upstream responses\<close>

definition no_status :: "writer_call list \<Rightarrow> bool" where
  "no_status cs \<longleftrightarrow> list_all (\<lambda>c. case c of CallWriteHeader _ \<Rightarrow> False | _ \<Rightarrow> True) cs"

text \<open>The status is written at most once, and before anything is sent.\<close>

fun status_once :: "writer_call list \<Rightarrow> bool" where
  "status_once [] = True"
| "status_once (CallSetHeader k v # cs) = status_once cs"
| "status_once (c # cs) = no_status cs"

lemma recorded_no_status:
  "no_status cs \<Longrightarrow> resp_committed w \<Longrightarrow> fold recorded_call cs (st, w) = (st', w') \<Longrightarrow>
     st' = st \<and> resp_committed w' \<and> resp_status w' = resp_status w"
proof (induction cs arbitrary: w)
  case (Cons c cs)
  have c: "\<exists>w1. recorded_call c (st, w) = (st, w1) \<and> resp_committed w1 \<and> resp_status w1 = resp_status w"
    using Cons.prems by (cases c) (auto simp: no_status_def)
  then obtain w1 where "recorded_call c (st, w) = (st, w1)" "resp_committed w1" "resp_status w1 = resp_status w"
    by blast
  with Cons.IH [of w1] Cons.prems show ?case by (simp add: no_status_def)
qed simp

lemma recorded_status:
  "status_once cs \<Longrightarrow> \<not> resp_committed w \<Longrightarrow> resp_status w = 200 \<Longrightarrow>
     fold recorded_call cs (200, w) = (st', w') \<Longrightarrow> st' = resp_status w'"
proof (induction cs arbitrary: w)
  case (Cons c cs)
  show ?case
  proof (cases c)
    case (CallSetHeader k v)
    then show ?thesis using Cons.prems Cons.IH [of "Header_Set k v w"] by simp
  next
    case (CallWriteHeader x)
    then show ?thesis using Cons.prems recorded_no_status [of cs "WriteHeader x w" x st' w'] by simp
  next
    case (CallWrite t)
    then show ?thesis using Cons.prems recorded_no_status [of cs "WriteString t w" 200 st' w'] by simp
  next
    case CallFlush
    then show ?thesis using Cons.prems recorded_no_status [of cs "WriteHeader 200 w" 200 st' w']
      by (simp add: StatusOK_def)
  qed
qed simp

lemma committed_calls:
  "resp_committed w \<Longrightarrow> resp_committed (fold committed_call cs w) \<and> resp_status (fold committed_call cs w) = resp_status w
     \<and> resp_header (fold committed_call cs w) = resp_header w"
proof (induction cs arbitrary: w)
  case (Cons c cs)
  have "resp_committed (committed_call c w) \<and> resp_status (committed_call c w) = resp_status w
      \<and> resp_header (committed_call c w) = resp_header w"
    using Cons.prems by (cases c) (simp_all add: Header_Set_def)
  with Cons.IH [of "committed_call c w"] show ?case by simp
qed simp


subsection \<open>Accounting\<close>

text \<open>
  One request was counted under the status its response has, or none was: the client went away and the
  response is as it was, or the reverse proxy aborted the response.
\<close>

definition client_gone :: "serve_env \<Rightarrow> bool" where
  "client_gone e \<longleftrightarrow> sv_ctxErr e \<or> list_ex (\<lambda>it. wt_ctxErr it \<or> wt_done it) (sv_iters e)"

definition accounted :: "serve_env \<Rightarrow> http_request \<Rightarrow> http_response \<Rightarrow> gateway \<Rightarrow> http_response \<times> gateway \<Rightarrow> bool" where
  "accounted e r w g res \<longleftrightarrow>
     (let (w', g') = res in
      (sem_used g', sem_cap g', pending g', cfg g') = (sem_used g, sem_cap g, pending g, cfg g) \<and>
      (m_requests (m g') = inc (itoa (int (resp_status w'))) (m_requests (m g)) \<or>
       m_requests (m g') = m_requests (m g) \<and> (w' = w \<and> client_gone e \<or> sv_abort e r)))"

lemma wait_loop_closed:
  "wait_loop deadline its g = (Some activationClientClosed, g') \<Longrightarrow> list_ex (\<lambda>it. wt_ctxErr it \<or> wt_done it) its"
  by (induction deadline its g rule: wait_loop.induct) (auto split: if_splits prod.splits option.splits)

lemma holdWithHeartbeat_closed:
  assumes "holdWithHeartbeat (sv_ctxErr e) fl now bn (sv_iters e) w g = (Some activationClientClosed, False, w', g')"
  shows "client_gone e"
  using assms wait_loop_closed
  by (fastforce simp: holdWithHeartbeat_def waitForBackend_def client_gone_def Let_def split: if_splits prod.splits)

lemma account_eq:
  "account g1 = account g \<longleftrightarrow>
     sem_used g1 = sem_used g \<and> sem_cap g1 = sem_cap g \<and> pending g1 = pending g \<and> cfg g1 = cfg g \<and>
     m_requests (m g1) = m_requests (m g)"
  by (auto simp: account_def)

lemma accounted_count:
  assumes "account g1 = account g" and "code = itoa (int (resp_status w'))"
  shows "accounted e r w g (w', count_request code g1)"
  using assms by (simp add: accounted_def account_eq count_request_def)

lemma accounted_rejection [simp]: "accounted e r w g (w', count_rejection reason g') = accounted e r w g (w', g')"
  by (simp add: accounted_def count_rejection_def)

lemma accounted_closed: "account g1 = account g \<Longrightarrow> client_gone e \<Longrightarrow> accounted e r w g (w, g1)"
  by (simp add: accounted_def account_eq)

lemma accounted_aborted: "account g1 = account g \<Longrightarrow> sv_abort e r \<Longrightarrow> accounted e r w g (w', g1)"
  by (simp add: accounted_def account_eq)

lemma itoa_status: "itoa 200 = ''200''" "itoa 401 = ''401''" "itoa 429 = ''429''" "itoa 503 = ''503''"
  by code_simp+

lemma accounted_reject:
  assumes "account g1 = account g" and "\<not> resp_committed w"
  shows "accounted e r w g (reject reason w g1)"
  using accounted_count [of "count_rejection reason g1" g "''503''" "fst (reject reason w g1)" e r w] assms
  by (simp add: reject_def StatusServiceUnavailable_def itoa_status)

lemma accounted_forward:
  assumes "account g1 = account g" and "\<not> resp_committed w" and "resp_status w = 200" and "status_once (sv_upstream e r)"
  shows "accounted e r w g (forward e waited False r w g1)"
proof -
  obtain st w' where f: "fold recorded_call (sv_upstream e r) (200, w) = (st, w')" by fastforce
  have st: "st = resp_status w'" by (rule recorded_status [OF assms(4,2,3) f])
  show ?thesis
  proof (cases "sv_abort e r")
    case True
    then show ?thesis using f assms(1) by (auto simp: forward_def Let_def StatusOK_def intro!: accounted_aborted)
  next
    case False
    then show ?thesis using f st assms(1) by (auto simp: forward_def Let_def StatusOK_def intro!: accounted_count)
  qed
qed

lemma accounted_stream:
  assumes "account g1 = account g" and "resp_committed w1" and "resp_status w1 = 200"
  shows "accounted e r w g (forward e waited True r w1 g1)"
proof (cases "sv_abort e r")
  case True
  then show ?thesis using assms(1) by (auto simp: forward_def Let_def intro!: accounted_aborted)
next
  case False
  then show ?thesis using committed_calls [OF assms(2), of "sv_upstream e r"] assms
    by (auto simp: forward_def Let_def itoa_status intro!: accounted_count)
qed

lemma serve_admitted_accounted:
  assumes "quiet_probes (sv_probe e)" and "quiet_iters (sv_iters e)" and "status_once (sv_upstream e r)"
    and "\<not> resp_committed w" and "resp_status w = 200" and "serve_admitted js e r w g = Some res"
  shows "accounted e r w g res"
proof -
  obtain rd g1 where p: "backendReady (sv_probe e) g = (rd, g1)" by fastforce
  have g1: "account g1 = account g" by (rule account_ready [OF assms(1) p])
  obtain st g2 where b: "beginActivation (sv_begin e) (sv_notify e) g1 = (st, g2)" by fastforce
  have g2: "account g2 = account g" using account_begin [OF b] g1 by simp
  from assms(6) p obtain ready where rd: "rd = Some ready" by (auto simp: serve_admitted_def split: option.splits)
  note run = assms(6) [unfolded serve_admitted_def p rd]
  consider "ready" | "\<not> ready" "ColdStartMode (cfg g2) = ColdStartReject"
    | "\<not> ready" "ColdStartMode (cfg g2) \<noteq> ColdStartReject" "wantsStream (sv_readErr e) js r"
    | "\<not> ready" "ColdStartMode (cfg g2) \<noteq> ColdStartReject" "\<not> wantsStream (sv_readErr e) js r" by blast
  then show ?thesis
  proof cases
    case 1
    then show ?thesis using run accounted_forward [OF g1 assms(4,5,3)] by auto
  next
    case 2
    then show ?thesis using run b accounted_reject [OF g2 assms(4)] by auto
  next
    case 3
    obtain hr c w1 g3 where h: "holdWithHeartbeat (sv_ctxErr e) (sv_flusher e) (sv_wait e) (sv_beat e) (sv_iters e) w g2
        = (hr, c, w1, g3)" by (metis surj_pair)
    have g3: "account g3 = account g" using account_holdWithHeartbeat [OF assms(2) h] g2 by simp
    note w1 = hold_response [OF h assms(4)]
    from run 3 b h obtain result where "hr = Some result" by (auto split: option.splits)
    then have res: "(if result \<noteq> activationReady
        then let g = (if c then count_request ''200'' g3 else g3)
          in if result = activationClientClosed then Some (w1, g)
             else if \<not> c then Some (reject ''activation_timeout'' w1 g)
             else Some (writeStreamError w1, count_rejection ''activation_timeout'' g)
        else Some (forward e True c r w1 g3)) = Some res"
      using run 3 b h by simp
    show ?thesis
    proof (cases c)
      case True
      then have "resp_committed w1" "resp_status w1 = 200" using w1 by simp_all
      then have "accounted e r w g (w1, count_request ''200'' g3)"
        and "accounted e r w g (writeStreamError w1, count_request ''200'' g3)"
        and "accounted e r w g (forward e True True r w1 g3)"
        using accounted_stream [OF g3] by (auto simp: itoa_status writeStreamError_def intro!: accounted_count g3)
      then show ?thesis using res True by (auto simp: Let_def split: if_splits)
    next
      case False
      then have "w1 = w" using w1 by simp
      moreover have "result = activationClientClosed \<Longrightarrow> client_gone e"
        using h \<open>hr = Some result\<close> False by (auto intro: holdWithHeartbeat_closed)
      ultimately show ?thesis
        using res False accounted_forward [OF g3 assms(4,5,3)] accounted_reject [OF g3 assms(4)] accounted_closed [OF g3]
        by (auto split: if_splits)
    qed
  next
    case 4
    obtain wr g3 where wt: "waitForBackend (sv_wait e) (sv_iters e) g2 = (wr, g3)" by fastforce
    have g3: "account g3 = account g"
      using account_wait [OF assms(2)] wt g2 by (auto simp: waitForBackend_def)
    have "wr = Some activationClientClosed \<Longrightarrow> client_gone e"
      using wt wait_loop_closed by (fastforce simp: waitForBackend_def client_gone_def)
    then show ?thesis
      using run 4 b wt accounted_forward [OF g3 assms(4,5,3)] accounted_reject [OF g3 assms(4)] accounted_closed [OF g3]
      by (auto split: if_splits option.splits)
  qed
qed


lemma account_changePending:
  assumes "in_int64 (pending g + d)"
  shows "sem_used (changePending d now g) = sem_used g \<and> sem_cap (changePending d now g) = sem_cap g
    \<and> pending (changePending d now g) = pending g + d \<and> cfg (changePending d now g) = cfg g
    \<and> m_requests (m (changePending d now g)) = m_requests (m g)"
proof -
  let ?g = "set_pending_gauge (fst (add_pending d g)) (snd (add_pending d g))"
  have "account (changePending d now g) = account ?g" by (simp add: changePending_def case_prod_unfold Let_def)
  then show ?thesis using assms
    by (simp add: account_eq frame_simps wrap64_id) (simp add: set_pending_gauge_def add_pending_def Let_def)
qed

subsection \<open>Properties\<close>

text \<open>
  C12. Serving a request gives back what it took on every path on which \<open>serve\<close> ends, including rejection, timeout, a
  client that goes away and an aborted reverse proxy: the queue token and the pending count are as
  before. Exactly one response is counted, under the status code that was sent, with two exceptions:
  the client went away while the request waited and nothing was sent, or the reverse proxy panicked with
  \<open>http.ErrAbortHandler\<close>, which skips the counter. The other goroutines are assumed not to change these
  counters meanwhile, and the upstream to write its status at most once and first.
\<close>

theorem serve_accounts:
  assumes "quiet_probes (sv_probe e)" and "quiet_iters (sv_iters e)" and "status_once (sv_upstream e r)"
    and "0 \<le> pending g" and "pending g < MaxInt64" and "serve js e r new_response g = Some (w', g')"
  shows "sem_used g' = sem_used g \<and> pending g' = pending g \<and>
    (m_requests (m g') = inc (itoa (int (resp_status w'))) (m_requests (m g)) \<or>
     m_requests (m g') = m_requests (m g) \<and> (w' = new_response \<and> client_gone e \<or> sv_abort e r))"
proof (cases "sem_used g < sem_cap g")
  case True
  let ?g = "changePending 1 (sv_enter e) (g\<lparr>sem_used := sem_used g + 1\<rparr>)"
  have w: "\<not> resp_committed new_response" "resp_status new_response = 200" by (simp_all add: new_response_def)
  obtain g1 where run: "serve_admitted js e r new_response ?g = Some (w', g1)"
    and g': "g' = (changePending (- 1) (sv_leave e) g1)\<lparr>sem_used := sem_used (changePending (- 1) (sv_leave e) g1) - 1\<rparr>"
    using assms(6) True by (auto simp: serve_def Let_def split: option.splits)
  have acc: "accounted e r new_response ?g (w', g1)" by (rule serve_admitted_accounted [OF assms(1-3) w run])
  have enter: "sem_used ?g = sem_used g + 1" "pending ?g = pending g + 1" "m_requests (m ?g) = m_requests (m g)"
    using account_changePending [of "g\<lparr>sem_used := sem_used g + 1\<rparr>" 1 "sv_enter e"] assms(4,5)
    by (simp_all add: in_int64_def MaxInt64_def)
  then have "pending g1 = pending g + 1" using acc by (simp add: accounted_def)
  then have "in_int64 (pending g1 + - 1)" using assms(4,5) by (simp add: in_int64_def MaxInt64_def)
  from account_changePending [OF this, of "sv_leave e"] acc enter show ?thesis
    by (auto simp: accounted_def g')
next
  case False
  then show ?thesis using assms(6)
    by (auto simp: serve_def count_request_def count_rejection_def status_defs new_response_def itoa_status)
qed

definition example_env :: "nat option \<Rightarrow> serve_env" where
  "example_env status = \<lparr>sv_enter = 10, sv_start = 10, sv_probe = [example_probe 10 status], sv_begin = 10, sv_notify = 10,
     sv_readErr = False, sv_ctxErr = False, sv_flusher = True, sv_wait = 10, sv_beat = 10,
     sv_iters = [example_iter 15, example_iter 30], sv_ready = 11,
     sv_upstream = (\<lambda>_. [CallSetHeader ''Content-Type'' ''text/plain'', CallWriteHeader 200, CallWrite ''ok'']), sv_abort = (\<lambda>_. False), sv_leave = 12\<rparr>"

definition example_get :: http_request where
  "example_get = \<lparr>req_Method = ''GET'', req_Path = ''/v1/models'', req_Header = [], req_Body = None\<rparr>"

lemma example_env_quiet: "quiet_probes (sv_probe (example_env st))" "quiet_iters (sv_iters (example_env st))"
  "status_once (sv_upstream (example_env st) r)"
  by (simp_all add: example_env_def quiet_probes_def quiet_iters_def neutral_def example_probe_def example_iter_def no_status_def)

lemma changePending_frame [frame_simps]:
  "probeAt (changePending d t g) = probeAt g" "probeDone (changePending d t g) = probeDone g"
  "cfg (changePending d t g) = cfg g"
  by (simp_all add: changePending_def notifyDemandChange_def case_prod_unfold publish_demand_def Let_def
        set_pending_gauge_def add_pending_def)

theorem serve_accounts_witness:
  "\<exists>w' g'. serve (\<lambda>_. False) (example_env (Some 200)) example_get new_response example_gateway = Some (w', g')
     \<and> sem_used g' = 0 \<and> pending g' = 0 \<and> m_requests (m g') = inc (itoa (int (resp_status w'))) (m_requests (m example_gateway))"
proof -
  obtain w' g' where run: "serve (\<lambda>_. False) (example_env (Some 200)) example_get new_response example_gateway = Some (w', g')"
  proof -
    let ?g = "changePending 1 10 (example_gateway\<lparr>sem_used := 1\<rparr>)"
    have "\<not> probe_fresh (pi_now (example_probe 10 (Some 200))) ?g" "\<not> probeDone ?g"
      by (simp_all add: probe_fresh_def frame_simps example_gateway_def IsZero_def)
    then have "\<exists>w g. serve_admitted (\<lambda>_. False) (example_env (Some 200)) example_get new_response ?g = Some (w, g)"
      using backendReady_probes [of "example_probe 10 (Some 200)" ?g "[]"]
      by (simp add: serve_admitted_def example_env_def example_probe_def)
    then show ?thesis using that
      by (auto simp: serve_def example_gateway_def example_env_def Let_def split: option.splits)
  qed
  have "\<not> client_gone (example_env (Some 200))" "\<not> sv_abort (example_env (Some 200)) example_get"
    by (simp_all add: client_gone_def example_env_def example_iter_def)
  then show ?thesis
    using serve_accounts [OF example_env_quiet _ _ run] run by (simp add: example_gateway_def MaxInt64_def)
qed

text \<open>
  A full queue and a cold start in reject mode are answered at once: with no token left the
  answer is 429 with \<^verbatim>\<open>Retry-After: 5\<close> and the demand is unchanged; with the backend not ready the
  answer is 503 with \<^verbatim>\<open>Retry-After: 10\<close>, and the activation lease outlives the request: until the
  activation timeout the demand stays at least one.
\<close>

theorem serve_rejects:
  shows "(sem_cap g \<le> sem_used g \<longrightarrow>
      (\<exists>w' g'. serve js e r new_response g = Some (w', g') \<and> resp_status w' = 429
        \<and> map_of (resp_header w') ''Retry-After'' = Some ''5'' \<and> Demand now g' = Demand now g \<and> demands g' = demands g))
    \<and> (sem_used g < sem_cap g \<and> ColdStartMode (cfg g) = ColdStartReject
        \<and> backendReady (sv_probe e) (changePending 1 (sv_enter e) (g\<lparr>sem_used := sem_used g + 1\<rparr>)) = (Some False, g1)
        \<and> cfg g1 = cfg g \<and> pending g1 = pending g + 1 \<and> 0 \<le> pending g \<and> pending g < MaxInt64 \<longrightarrow>
      (\<exists>w' g'. serve js e r new_response g = Some (w', g') \<and> resp_status w' = 503
        \<and> map_of (resp_header w') ''Retry-After'' = Some ''10''
        \<and> (\<forall>t < sv_begin e + ActivationTimeout (cfg g). 1 \<le> Demand t g')))"
proof -
  have "\<exists>w' g'. serve js e r new_response g = Some (w', g') \<and> resp_status w' = 429
      \<and> map_of (resp_header w') ''Retry-After'' = Some ''5'' \<and> Demand now g' = Demand now g \<and> demands g' = demands g"
    if "sem_cap g \<le> sem_used g"
    using that by (simp add: serve_def status_defs new_response_def http_Error_def count_request_def count_rejection_def
        Demand_def lease_floor_def)
  moreover have "\<exists>w' g'. serve js e r new_response g = Some (w', g') \<and> resp_status w' = 503
        \<and> map_of (resp_header w') ''Retry-After'' = Some ''10''
        \<and> (\<forall>t < sv_begin e + ActivationTimeout (cfg g). 1 \<le> Demand t g')"
    if *: "sem_used g < sem_cap g" "ColdStartMode (cfg g) = ColdStartReject"
      "backendReady (sv_probe e) (changePending 1 (sv_enter e) (g\<lparr>sem_used := sem_used g + 1\<rparr>)) = (Some False, g1)"
      "cfg g1 = cfg g" "pending g1 = pending g + 1" "0 \<le> pending g" "pending g < MaxInt64"
  proof -
    obtain st g2 where b: "beginActivation (sv_begin e) (sv_notify e) g1 = (st, g2)" by fastforce
    have g2: "leaseActive g2" "leaseDeadline g2 = sv_begin e + ActivationTimeout (cfg g)" "account g2 = account g1"
      using b *(4) account_begin [OF b]
      by (auto simp: beginActivation_def renew_lease_def notifyDemandChange_def frame_simps Add_def Let_def split: if_splits)
    obtain w' g3 where rej: "reject ''cold_start'' new_response g2 = (w', g3)" by fastforce
    have g3: "leaseActive g3" "leaseDeadline g3 = sv_begin e + ActivationTimeout (cfg g)" "pending g3 = pending g + 1"
      using rej g2 *(5) by (auto simp: reject_def count_request_def count_rejection_def account_eq)
    let ?g = "changePending (- 1) (sv_leave e) g3"
    have lease: "leaseActive ?g" "leaseDeadline ?g = sv_begin e + ActivationTimeout (cfg g)"
      using g3 by (simp_all add: changePending_def notifyDemandChange_def case_prod_unfold frame_simps Let_def)
    have "1 \<le> Demand t (?g\<lparr>sem_used := n\<rparr>)" if "t < sv_begin e + ActivationTimeout (cfg g)" for t n
      using that lease by (simp add: Demand_def lease_floor_def Before_def)
    moreover have "serve js e r new_response g = Some (w', ?g\<lparr>sem_used := sem_used ?g - 1\<rparr>)"
      using * b rej g2(3) by (simp add: serve_def serve_admitted_def account_eq Let_def)
    moreover have "resp_status w' = 503 \<and> map_of (resp_header w') ''Retry-After'' = Some ''10''"
      using rej by (auto simp: reject_def status_defs new_response_def http_Error_def)
    ultimately show ?thesis by blast
  qed
  ultimately show ?thesis by blast
qed

theorem serve_rejects_witness:
  "\<exists>w' g'. serve (\<lambda>_. False) (example_env None) example_get new_response (example_gateway\<lparr>sem_used := 2\<rparr>) = Some (w', g')
     \<and> resp_status w' = 429"
  using serve_rejects [of "example_gateway\<lparr>sem_used := 2\<rparr>"] by (simp add: example_gateway_def) blast


text \<open>
  C28. Client authentication: with a key file configured, a request reaches the upstream only when
  the key can be read and the request carries a bearer token whose digest equals the key's, and
  its \<^verbatim>\<open>Authorization\<close> header is removed before; every other request to the proxy is answered 401 or
  503 without taking a token, changing the pending count or calling the upstream.
\<close>

theorem client_authentication:
  assumes "ClientAPIKeyFile (cfg g) \<noteq> []" and "req_Path r \<notin> {''/healthz'', ''/noctaya/queue'', ''/metrics''}"
    and "distinct (map fst (req_Header r))"
    and "Handler readFile sha256 js enc sm e r g = res"
  shows "(\<exists>key provided r'. readClientAPIKey readFile (ClientAPIKeyFile (cfg g)) = Inr key \<and> key \<noteq> []
        \<and> Header_Get (req_Header r) ''Authorization'' = ''Bearer '' @ provided \<and> sha256 provided = sha256 key
        \<and> map_of (req_Header r') = (map_of (req_Header r))(''Authorization'' := None)
        \<and> req_Body r' = req_Body r \<and> req_Method r' = req_Method r \<and> req_Path r' = req_Path r
        \<and> res = serve js e r' new_response g)
    \<or> (\<exists>w' g'. res = Some (w', g') \<and> resp_status w' \<in> {401, 503} \<and> sem_used g' = sem_used g \<and> pending g' = pending g
        \<and> demands g' = demands g \<and> (\<forall>e'. Handler readFile sha256 js enc sm e' r g = res))"
proof (cases "readClientAPIKey readFile (ClientAPIKeyFile (cfg g))")
  case (Inl err)
  then have a: "authorize readFile sha256 r new_response g =
      (False, r, http_Error ''gateway authentication unavailable'' StatusServiceUnavailable new_response,
       count_request ''503'' (count_rejection ''authentication_unavailable'' g))"
    using assms(1) by (simp add: authorize_def)
  show ?thesis using assms(2,4) a
    by (auto simp: Handler_def status_defs new_response_def count_request_def count_rejection_def)
next
  case (Inr key)
  obtain provided found where cut: "CutPrefix (Header_Get (req_Header r) ''Authorization'') bearerPrefix = (provided, found)"
    by fastforce
  show ?thesis
  proof (cases "found \<and> apiKeysEqual sha256 provided key")
    case True
    then have a: "authorize readFile sha256 r new_response g = (True, Header_Del ''Authorization'' r, new_response, g)"
      using assms(1) Inr cut by (simp add: authorize_def)
    have "Header_Get (req_Header r) ''Authorization'' = ''Bearer '' @ provided"
      using cut True by (auto simp: CutPrefix_def HasPrefix_iff bearerPrefix_def split: if_splits)
    moreover have "key \<noteq> []" using Inr by (auto simp: readClientAPIKey_def Let_def split: option.splits if_splits)
    moreover have "sha256 provided = sha256 key" using True ConstantTimeCompare_eq [of "sha256 provided" "sha256 key"]
      by (simp add: apiKeysEqual_def)
    moreover have "map_of (req_Header (Header_Del ''Authorization'' r)) = (map_of (req_Header r))(''Authorization'' := None)"
      by (simp add: Header_Del_def AList.delete_conv')
    ultimately show ?thesis using Inr a assms(2,4)
      by (intro disjI1 exI [of _ key] exI [of _ provided] exI [of _ "Header_Del ''Authorization'' r"])
         (simp add: Handler_def Header_Del_def)
  next
    case False
    then have a: "authorize readFile sha256 r new_response g =
        (False, r, http_Error ''unauthorized'' StatusUnauthorized (Header_Set ''WWW-Authenticate'' bearerChallenge new_response),
         count_request ''401'' (count_rejection ''unauthorized'' g))"
      using assms(1) Inr cut by (auto simp: authorize_def)
    show ?thesis using assms(2,4) a
      by (auto simp: Handler_def status_defs new_response_def count_request_def count_rejection_def)
  qed
qed

theorem client_authentication_witness:
  "\<exists>w' g'. Handler (\<lambda>_. None) (\<lambda>s. s) (\<lambda>_. False) itoa (\<lambda>_. new_response) (example_env None) example_get
      (example_gateway\<lparr>cfg := (cfg example_gateway)\<lparr>ClientAPIKeyFile := ''/key''\<rparr>\<rparr>) = Some (w', g') \<and> resp_status w' \<in> {401, 503}"
proof -
  let ?g = "example_gateway\<lparr>cfg := (cfg example_gateway)\<lparr>ClientAPIKeyFile := ''/key''\<rparr>\<rparr>"
  have "req_Path example_get \<notin> {''/healthz'', ''/noctaya/queue'', ''/metrics''}" "distinct (map fst (req_Header example_get))"
    by (simp_all add: example_get_def)
  from client_authentication [OF _ this refl, of ?g "\<lambda>_. None" "\<lambda>s. s" "\<lambda>_. False" itoa "\<lambda>_. new_response" "example_env None"]
  show ?thesis by (auto simp: readClientAPIKey_def)
qed

definition written :: "writer_call list \<Rightarrow> string" where
  "written cs = concat (map (\<lambda>c. case c of CallWrite t \<Rightarrow> t | _ \<Rightarrow> []) cs)"

lemma committed_body: "resp_committed w \<Longrightarrow> resp_body (fold committed_call cs w) = resp_body w @ written cs"
proof (induction cs arbitrary: w)
  case (Cons c cs)
  then show ?case by (cases c) (simp_all add: written_def StatusOK_def Header_Set_def)
qed (simp add: written_def)

text \<open>
  A held stream: once a streaming request is answered with a committed event stream, the
  response has status 200 and the event-stream type, and its body is a number of heartbeat
  comments followed by the upstream's body, by the error event, or by nothing when the client went
  away; the status and headers of the upstream do not overwrite it.
\<close>

theorem held_stream_response:
  assumes "backendReady (sv_probe e) g = (Some False, g1)" and "beginActivation (sv_begin e) (sv_notify e) g1 = (st, g2)"
    and "ColdStartMode (cfg g2) \<noteq> ColdStartReject" and "wantsStream (sv_readErr e) js r"
    and "\<not> sv_ctxErr e" and "sv_flusher e" and "serve_admitted js e r new_response g = Some (w', g')"
  shows "resp_status w' = 200 \<and> map_of (resp_header w') ''Content-Type'' = Some ''text/event-stream''
    \<and> (\<exists>k rest. resp_body w' = concat (replicate k heartbeat_text) @ rest
        \<and> rest \<in> {[], written (sv_upstream e r),
             ''event: error'' @ [byte 10] @ ''data: backend activation timeout'' @ [byte 10, byte 10]})"
proof -
  let ?w = "WriteHeader StatusOK (Header_Set ''Connection'' ''keep-alive'' (Header_Set ''Cache-Control'' ''no-cache''
    (Header_Set ''Content-Type'' ''text/event-stream'' new_response)))"
  obtain hr w1 g3 where h: "hold_loop (Add (sv_wait e) (ActivationTimeout (cfg g2))) (sv_beat e) (sv_iters e) ?w g2 = (hr, w1, g3)"
    by (metis surj_pair)
  then have hold: "holdWithHeartbeat (sv_ctxErr e) (sv_flusher e) (sv_wait e) (sv_beat e) (sv_iters e) new_response g2
      = (hr, True, w1, g3)" using assms(5,6) by (simp add: holdWithHeartbeat_def)
  have w: "resp_committed ?w" "resp_status ?w = 200" "resp_body ?w = []"
    "map_of (resp_header ?w) ''Content-Type'' = Some ''text/event-stream''"
    by (simp_all add: new_response_def StatusOK_def)
  obtain k where w1: "resp_committed w1" "resp_status w1 = 200" "resp_header w1 = resp_header ?w"
    "resp_body w1 = concat (replicate k heartbeat_text)"
    using hold_loop_response [OF h w(1)] w by auto
  obtain result where hr: "hr = Some result" using assms hold by (auto simp: serve_admitted_def split: option.splits)
  have cases: "w' = w1 \<or> w' = writeStreamError w1 \<or> w' = fst (forward e True True r w1 g3)"
    using assms(1-4,7) hold hr by (auto simp: serve_admitted_def Let_def split: if_splits)
  have fwd: "fst (forward e True True r w1 g3) = fold committed_call (sv_upstream e r) w1"
    by (simp add: forward_def Let_def)
  have ct: "map_of (resp_header w1) ''Content-Type'' = Some ''text/event-stream''" by (simp only: w1(3) w(4))
  note calls = committed_calls [OF w1(1), of "sv_upstream e r"] committed_body [OF w1(1), of "sv_upstream e r"]
  have "\<exists>rest. resp_body w' = concat (replicate k heartbeat_text) @ rest
      \<and> rest \<in> {[], written (sv_upstream e r),
           ''event: error'' @ [byte 10] @ ''data: backend activation timeout'' @ [byte 10, byte 10]}"
    using cases w1(4) calls(2) by (elim disjE) (simp_all add: fwd writeStreamError_def newline2_def)
  moreover have "resp_status w' = 200 \<and> map_of (resp_header w') ''Content-Type'' = Some ''text/event-stream''"
    using cases w1(1,2) ct calls(1) by (elim disjE) (simp_all add: fwd writeStreamError_def)
  ultimately show ?thesis by blast
qed


definition example_post :: http_request where
  "example_post = \<lparr>req_Method = ''POST'', req_Path = ''/v1/chat/completions'', req_Header = [], req_Body = Some ''s''\<rparr>"

theorem held_stream_response_witness:
  "\<exists>w' g'. serve_admitted (\<lambda>_. True) (example_env None) example_post new_response example_gateway = Some (w', g')
     \<and> resp_status w' = 200"
proof -
  have start: "\<not> probe_fresh (pi_now (example_probe 10 None)) example_gateway" "\<not> probeDone example_gateway"
    by (simp_all add: probe_fresh_def example_gateway_def IsZero_def)
  obtain g1 where p: "backendReady (sv_probe (example_env None)) example_gateway = (Some False, g1)"
    and g1: "cfg g1 = cfg example_gateway"
    using backendReady_probes [OF start, of "[]"] by (simp add: example_env_def) (simp add: example_probe_def)
  obtain st g2 where b: "beginActivation (sv_begin (example_env None)) (sv_notify (example_env None)) g1 = (st, g2)"
    by fastforce
  have g2: "cfg g2 = cfg example_gateway" using account_begin [OF b] g1 by (simp add: account_eq)
  have mode: "ColdStartMode (cfg g2) \<noteq> ColdStartReject"
    by (simp add: g2 example_gateway_def ColdStartReject_def)
  have ws: "wantsStream (sv_readErr (example_env None)) (\<lambda>_. True) example_post"
    by (simp add: wantsStream_def example_post_def example_env_def maxPeekBody_def)
  have env: "\<not> sv_ctxErr (example_env None)" "sv_flusher (example_env None)" by (simp_all add: example_env_def)
  have pr: "probes_return (sv_iters (example_env None))"
    by (auto simp: probes_return_def example_env_def example_iter_def example_probe_def Let_def)
  have "\<exists>it \<in> set (sv_iters (example_env None)). 20 < wt_now it" by (simp add: example_env_def example_iter_def)
  from hold_loop_returns [OF pr this]
  obtain hr w1 g3 where "hold_loop 20 10 (sv_iters (example_env None)) (WriteHeader StatusOK
      (Header_Set ''Connection'' ''keep-alive'' (Header_Set ''Cache-Control'' ''no-cache''
        (Header_Set ''Content-Type'' ''text/event-stream'' new_response)))) g2 = (Some hr, w1, g3)" by blast
  then have h: "holdWithHeartbeat (sv_ctxErr (example_env None)) (sv_flusher (example_env None)) (sv_wait (example_env None))
      (sv_beat (example_env None)) (sv_iters (example_env None)) new_response g2 = (Some hr, True, w1, g3)"
    using env by (simp add: holdWithHeartbeat_def g2 Add_def) (simp add: example_env_def example_gateway_def)
  have "serve_admitted (\<lambda>_. True) (example_env None) example_post new_response example_gateway \<noteq> None"
    using mode ws by (simp add: serve_admitted_def p b h Let_def)
  then obtain w' g' where run: "serve_admitted (\<lambda>_. True) (example_env None) example_post new_response example_gateway = Some (w', g')"
    by fastforce
  with held_stream_response [OF p b mode ws env run] show ?thesis by blast
qed

end
