(* ===== verification/Autoscaling.thy ===== *)
theory Autoscaling
  imports Gateway_Resources External_Scaler
begin

section \<open>The KEDA ScaledObject\<close>

text \<open>
  \<open>internal/backend/resources/autoscaling.go\<close>: the object that asks KEDA to scale the backend on the
  demand of the gateway. The target travels as text through KEDA to the external scaler of
  \<^verbatim>\<open>External_Scaler\<close>, which parses it back, and the address in the trigger leads through the scaler Service
  of \<^verbatim>\<open>Gateway_Resources\<close> to the pods that answer.
\<close>

definition defaultPollingInterval :: int where "defaultPollingInterval = 5"
definition defaultMaxReplicas :: int where "defaultMaxReplicas = 1"
definition defaultTarget :: int where "defaultTarget = 10"
definition maxHPAStabilization :: duration where "maxHPAStabilization = Hour"

definition ScaledObjectName :: "LLMService \<Rightarrow> string" where
  "ScaledObjectName svc = svc_Name svc"

definition validateExternalScalerTLS :: "ExternalScalerSpec option \<Rightarrow> string option" where
  "validateExternalScalerTLS spec =
     (case Option.bind spec es_TLS of
        None \<Rightarrow> None
      | Some tls \<Rightarrow>
          let ref = tls_AuthenticationRef tls in
          if tls_ServerSecretName tls = [] then Some ''scaling.externalScaler.tls.serverSecretName is required''
          else if ka_Name ref = [] then Some ''scaling.externalScaler.tls.authenticationRef.name is required''
          else if ka_Kind ref \<in> {[], ''TriggerAuthentication'', ''ClusterTriggerAuthentication''} then None
          else Some (''scaling.externalScaler.tls.authenticationRef.kind '' @ Quote (ka_Kind ref) @ '' is invalid''))"

definition externalPushTrigger :: "LLMService \<Rightarrow> int \<Rightarrow> kedaTrigger" where
  "externalPushTrigger svc target =
     \<lparr>tr_Type = ''external-push'',
      tr_Metadata = [(''scalerAddress'', GatewayScalerAddress svc), (''metricName'', ''pending''), (''targetValue'', itoa target)],
      tr_AuthenticationRef =
        (case Option.bind (sc_ExternalScaler (sp_Scaling (svc_Spec svc))) es_TLS of
           None \<Rightarrow> None
         | Some tls \<Rightarrow>
             Some ((''name'', ka_Name (tls_AuthenticationRef tls)) #
               (if ka_Kind (tls_AuthenticationRef tls) \<noteq> [] then [(''kind'', ka_Kind (tls_AuthenticationRef tls))] else [])))\<rparr>"

definition scaling_target :: "LLMService \<Rightarrow> int" where
  "scaling_target svc =
     (if sc_Target (sp_Scaling (svc_Spec svc)) \<le> 0 then defaultTarget else sc_Target (sp_Scaling (svc_Spec svc)))"

definition BuildScaledObject :: "LLMService \<Rightarrow> string + scaledObject" where
  "BuildScaledObject svc =
     (let scaling = sp_Scaling (svc_Spec svc) in
      if sc_Metric scaling \<noteq> [] \<and> sc_Metric scaling \<noteq> ''queueDepth''
      then Inl (''scaling.metric '' @ Quote (sc_Metric scaling) @ '' is not supported in v0; only queueDepth is wired to the autoscaler'')
      else case validateExternalScalerTLS (sc_ExternalScaler scaling) of
        Some err \<Rightarrow> Inl err
      | None \<Rightarrow>
          let maxReplicas = (if sc_Max scaling \<le> 0 then defaultMaxReplicas else sc_Max scaling);
              window = sc_ScaleDownStabilization scaling
          in if window < 0 \<or> window mod Second \<noteq> 0 \<or> window > maxHPAStabilization
             then Inl ''scaling.scaleDownStabilization must be a whole number of seconds from 0s to 1h''
             else let cooldown = window div Second
               in Inr \<lparr>so_Meta = object_meta (ScaledObjectName svc) (svc_Namespace svc) (SelectorLabels svc),
                       so_ScaleTarget = svc_Name svc, so_MinReplicaCount = sc_Min scaling,
                       so_MaxReplicaCount = maxReplicas, so_PollingInterval = defaultPollingInterval,
                       so_Triggers = [externalPushTrigger svc (scaling_target svc)],
                       so_CooldownPeriod = cooldown, so_StabilizationWindowSeconds = cooldown\<rparr>)"

subsection \<open>Properties\<close>

lemma ParseFloat_itoa:
  assumes "0 < n" and "n < 2 ^ 53"
  shows "ParseFloat otherFloat (itoa n) = Some (Finite (of_int n))"
proof -
  have "itoa n = utoa (nat n)" using assms(1) by (simp add: itoa_def)
  moreover have "nat n < 2 ^ 53" using assms by (simp add: nat_less_iff)
  ultimately show ?thesis
    using ParseFloat_digits [of "utoa (nat n)" otherFloat] utoa_digits [of "nat n"] assms(1) by (simp add: of_nat_nat)
qed

lemma trigger_parses:
  assumes "0 < n" and "n < 2 ^ 31" and "ref_scalerMetadata ref = tr_Metadata (externalPushTrigger svc n)"
  shows "parseScalerMetadata otherFloat (Some ref) = Inr (''pending'', Finite (of_int n))"
  using ParseFloat_itoa [of n otherFloat] assms
  by (simp add: parseScalerMetadata_def externalPushTrigger_def lookup0_def scalerMetricName_def Let_def)

text \<open>
  The scaling target survives the way through KEDA: the only trigger of a rendered object
  addresses the scaler Service of the service, and the external scaler accepts its metadata and reads
  back exactly the configured target, or the default for a target that is not positive.
\<close>

theorem target_roundtrip:
  assumes "BuildScaledObject svc = Inr so" and "sc_Target (sp_Scaling (svc_Spec svc)) < 2 ^ 31"
  shows "\<exists>tr. so_Triggers so = [tr]
    \<and> lookup0 [] (tr_Metadata tr) ''scalerAddress'' = GatewayScalerAddress svc
    \<and> (\<forall>ref. ref_scalerMetadata ref = tr_Metadata tr \<longrightarrow>
         GetMetricSpec otherFloat (Some ref) = Inr [(''pending'', Finite (of_int (scaling_target svc)))])"
proof -
  have t: "0 < scaling_target svc" "scaling_target svc < 2 ^ 31"
    using assms(2) by (simp_all add: scaling_target_def defaultTarget_def)
  have "so_Triggers so = [externalPushTrigger svc (scaling_target svc)]"
    using assms(1) by (auto simp: BuildScaledObject_def Let_def split: if_splits option.splits)
  moreover have "lookup0 [] (tr_Metadata (externalPushTrigger svc (scaling_target svc))) ''scalerAddress'' = GatewayScalerAddress svc"
    by (simp add: externalPushTrigger_def lookup0_def)
  ultimately show ?thesis using trigger_parses [OF t] by (simp add: GetMetricSpec_def)
qed

lemma example_scaled_object: "\<exists>so. BuildScaledObject example_svc = Inr so"
  by (simp add: BuildScaledObject_def example_svc_def validateExternalScalerTLS_def maxHPAStabilization_def duration_defs Let_def)

theorem target_roundtrip_witness:
  "\<exists>so tr. BuildScaledObject example_svc = Inr so \<and> so_Triggers so = [tr]
     \<and> (\<forall>ref. ref_scalerMetadata ref = tr_Metadata tr \<longrightarrow>
          GetMetricSpec (\<lambda>_. None) (Some ref) = Inr [(''pending'', Finite 5)])"
proof -
  obtain so where so: "BuildScaledObject example_svc = Inr so" using example_scaled_object by blast
  have t: "scaling_target example_svc = 5" by (simp add: scaling_target_def example_svc_def)
  have "sc_Target (sp_Scaling (svc_Spec example_svc)) < 2 ^ 31" by (simp add: example_svc_def)
  from target_roundtrip [OF so this, of "\<lambda>_. None"] so t show ?thesis by auto
qed

text \<open>The configurations that can be autoscaled, without reference to the checks of the code.\<close>

definition complete_tls :: "ExternalScalerSpec option \<Rightarrow> bool" where
  "complete_tls spec \<longleftrightarrow>
     (case Option.bind spec es_TLS of
        None \<Rightarrow> True
      | Some tls \<Rightarrow> tls_ServerSecretName tls \<noteq> [] \<and> ka_Name (tls_AuthenticationRef tls) \<noteq> []
          \<and> ka_Kind (tls_AuthenticationRef tls) \<in> {[], ''TriggerAuthentication'', ''ClusterTriggerAuthentication''})"

definition scalable :: "ScalingSpec \<Rightarrow> bool" where
  "scalable sc \<longleftrightarrow> sc_Metric sc \<in> {[], ''queueDepth''} \<and> complete_tls (sc_ExternalScaler sc)
     \<and> 0 \<le> sc_ScaleDownStabilization sc \<and> Second dvd sc_ScaleDownStabilization sc \<and> sc_ScaleDownStabilization sc \<le> Hour"

lemma validate_complete: "validateExternalScalerTLS spec = None \<longleftrightarrow> complete_tls spec"
  by (auto simp: validateExternalScalerTLS_def complete_tls_def Let_def split: option.splits)

lemma BuildScaledObject_scalable: "(\<exists>so. BuildScaledObject svc = Inr so) \<longleftrightarrow> scalable (sp_Scaling (svc_Spec svc))"
  by (auto simp: BuildScaledObject_def scalable_def validate_complete [symmetric] maxHPAStabilization_def dvd_eq_mod_eq_0 Let_def
      split: option.splits if_splits)

text \<open>
  C31. Exactly the services with a supported metric, complete transport security and a stabilization of
  whole seconds up to an hour get an autoscaler; every other one is refused. Its cooldown and its stabilization window are the
  configured stabilization in seconds, between 0 and 3600. The minimum of replicas is the configured one, the
  maximum the configured one or one when that is not positive, and the only trigger asks for the
  configured target, or ten when that is not positive, so that both are positive.
\<close>

theorem scaled_object_bounds:
  "case BuildScaledObject svc of
     Inr so \<Rightarrow> scalable (sp_Scaling (svc_Spec svc))
       \<and> so_CooldownPeriod so * Second = sc_ScaleDownStabilization (sp_Scaling (svc_Spec svc))
       \<and> 0 \<le> so_CooldownPeriod so \<and> so_CooldownPeriod so \<le> 3600
       \<and> so_StabilizationWindowSeconds so = so_CooldownPeriod so
       \<and> so_MinReplicaCount so = sc_Min (sp_Scaling (svc_Spec svc))
       \<and> so_MaxReplicaCount so = (if sc_Max (sp_Scaling (svc_Spec svc)) \<le> 0 then 1 else sc_Max (sp_Scaling (svc_Spec svc)))
       \<and> 1 \<le> so_MaxReplicaCount so
       \<and> (\<exists>target. 1 \<le> target
            \<and> target = (if sc_Target (sp_Scaling (svc_Spec svc)) \<le> 0 then 10 else sc_Target (sp_Scaling (svc_Spec svc)))
            \<and> map (\<lambda>tr. map_of (tr_Metadata tr) ''targetValue'') (so_Triggers so) = [Some (itoa target)])
   | Inl _ \<Rightarrow> \<not> scalable (sp_Scaling (svc_Spec svc))"
proof (cases "BuildScaledObject svc")
  case (Inr so)
  let ?sc = "sp_Scaling (svc_Spec svc)"
  let ?w = "sc_ScaleDownStabilization ?sc"
  have ok: "scalable ?sc" using Inr BuildScaledObject_scalable by blast
  then have w: "0 \<le> ?w" "Second dvd ?w" "?w \<le> Hour" by (simp_all add: scalable_def)
  from Inr have so: "so_CooldownPeriod so = ?w div Second" "so_StabilizationWindowSeconds so = so_CooldownPeriod so"
    "so_MaxReplicaCount so = (if sc_Max ?sc \<le> 0 then 1 else sc_Max ?sc)" "so_MinReplicaCount so = sc_Min ?sc"
    "so_Triggers so = [externalPushTrigger svc (scaling_target svc)]"
    by (auto simp: BuildScaledObject_def Let_def defaultMaxReplicas_def split: if_splits option.splits)
  have "?w div Second * Second = ?w" using w(2) by simp
  moreover have "?w div Second \<le> 3600" using zdiv_mono1 [OF w(3), of Second] by (simp add: duration_defs)
  moreover have "0 \<le> ?w div Second" using w(1) by (simp add: duration_defs pos_imp_zdiv_nonneg_iff)
  moreover have "\<exists>target. 1 \<le> target \<and> target = (if sc_Target ?sc \<le> 0 then 10 else sc_Target ?sc)
      \<and> map (\<lambda>tr. map_of (tr_Metadata tr) ''targetValue'') (so_Triggers so) = [Some (itoa target)]"
    by (simp add: so(5) externalPushTrigger_def scaling_target_def defaultTarget_def)
  ultimately show ?thesis using Inr so(1-4) ok by simp
next
  case (Inl e)
  then show ?thesis using BuildScaledObject_scalable [of svc] by auto
qed

theorem scaled_object_bounds_witness:
  "\<exists>so. BuildScaledObject example_svc = Inr so \<and> so_CooldownPeriod so * Second = 5 * Minute \<and> so_CooldownPeriod so \<le> 3600
     \<and> map (\<lambda>tr. map_of (tr_Metadata tr) ''targetValue'') (so_Triggers so) = [Some (itoa 5)]"
proof -
  obtain so where so: "BuildScaledObject example_svc = Inr so" using example_scaled_object by blast
  have "sc_ScaleDownStabilization (sp_Scaling (svc_Spec example_svc)) = 5 * Minute" "sc_Target (sp_Scaling (svc_Spec example_svc)) = 5"
    by (simp_all add: example_svc_def)
  with scaled_object_bounds [of example_svc] so show ?thesis by simp
qed

text \<open>
  C38. The autoscaler always reaches a demand source: the address in the only trigger of the rendered
  ScaledObject is the cluster name and a port of the scaler Service, the Service selects the gateway when it is the only
  replica and the aggregator otherwise, and the target of that port is a container port of the selected pods on
  which their process listens for the external scaler. With an aggregator, the address to which the gateways
  report leads in the same way to its report port; with one replica there is no aggregator.
\<close>

theorem scaler_service_reaches_source:
  assumes "BuildScaledObject svc = Inr so" and "BuildGatewayDeployment ds svc img replicas = Inr gateway"
  shows "\<exists>addr. map (\<lambda>tr. map_of (tr_Metadata tr) ''scalerAddress'') (so_Triggers so) = [Some addr]
    \<and> (if replicas \<le> 1
       then BuildGatewayScalerDeployment svc img replicas = None
         \<and> leads_to addr (BuildGatewayScalerService svc replicas) EnvScalerListenAddr gateway
       else \<exists>scaler. BuildGatewayScalerDeployment svc img replicas = Some scaler
         \<and> leads_to addr (BuildGatewayScalerService svc replicas) EnvScalerListenAddr scaler
         \<and> (\<exists>report. GatewayDemandReportURL svc = ''http://'' @ report @ DemandReportPath
              \<and> leads_to report (BuildGatewayScalerService svc replicas) EnvAggregatorListenAddr scaler))"
proof -
  have "so_Triggers so = [externalPushTrigger svc (scaling_target svc)]"
    using assms(1) by (auto simp: BuildScaledObject_def Let_def split: if_splits option.splits)
  then have "map (\<lambda>tr. map_of (tr_Metadata tr) ''scalerAddress'') (so_Triggers so) = [Some (GatewayScalerAddress svc)]"
    by (simp add: externalPushTrigger_def)
  moreover have "replicas \<le> 1 \<Longrightarrow> BuildGatewayScalerDeployment svc img replicas = None"
    by (simp add: BuildGatewayScalerDeployment_def)
  ultimately show ?thesis
    using gateway_answers_scaler [OF assms(2)] aggregator_answers_scaler [of replicas svc img]
    by (cases "replicas \<le> 1") auto
qed

theorem scaler_service_reaches_source_witness:
  "\<exists>scaler addr. BuildGatewayScalerDeployment example_svc ''gw:1'' 3 = Some scaler
     \<and> leads_to addr (BuildGatewayScalerService example_svc 3) EnvScalerListenAddr scaler"
proof -
  obtain so where so: "BuildScaledObject example_svc = Inr so" using example_scaled_object by blast
  obtain dep where dep: "BuildGatewayDeployment (\<lambda>_. []) example_svc ''gw:1'' 3 = Inr dep"
    using example_gateway_deployment [of 3] by auto
  from scaler_service_reaches_source [OF so dep] show ?thesis by auto
qed

end
