(* ===== verification/Kube_Client.thy ===== *)
theory Kube_Client
  imports Kube_Types "HOL-Library.State_Monad"
begin

section \<open>The Kubernetes client\<close>

text \<open>
  What the controller calls outside the repository: the controller-runtime client, the event
  recorder and the helpers of the Kubernetes libraries, as a record of state-monad actions over the state
  \<open>'s\<close> of the API server. The definitions of the controller take it as an argument; the named
  predicates below state the documented behaviour that a theorem relies on. \<open>logged\<close> wraps a client so
  that it also records the calls that change the cluster, in order, with their outcome. The options of the
  manager's cache, from which the client reads, are those of \<open>cmd/main.go\<close>.
\<close>

datatype event_type = Warning | Normal

record kube_event =
  ev_Type :: event_type
  ev_Reason :: string
  ev_Action :: string
  ev_Note :: string

record 's client =
  cl_GetLLMService :: "object_key \<Rightarrow> ('s, go_error + LLMService) state"
  cl_ListLLMServices :: "('s, go_error + LLMService list) state"
  cl_GetRuntime :: "string \<Rightarrow> ('s, go_error + InferenceRuntime) state"
  cl_ListRuntimes :: "('s, go_error + InferenceRuntime list) state"
  cl_Get :: "kind \<Rightarrow> object_key \<Rightarrow> ('s, go_error + kobject) state"
  cl_ListPods :: "string \<Rightarrow> (string, string) gomap \<Rightarrow> ('s, go_error + pod list) state"
  cl_Create :: "kobject \<Rightarrow> ('s, go_error + kobject) state"
  cl_Apply :: "kobject \<Rightarrow> ('s, go_error option) state"
  cl_Delete :: "kobject \<Rightarrow> ('s, go_error option) state"
  cl_UpdateStatus :: "LLMService \<Rightarrow> ('s, go_error + LLMService) state"
  cl_Eventf :: "LLMService \<Rightarrow> kube_event \<Rightarrow> ('s, unit) state"

abbreviation ret :: "'a \<Rightarrow> ('s, 'a) state" where "ret \<equiv> State_Monad.return"

text \<open>The pure helpers: owner references, the conversion for server-side apply, status conditions.\<close>

record kube_lib =
  SetControllerReference :: "LLMService \<Rightarrow> kobject \<Rightarrow> go_error + kobject"
  IsControlledBy :: "kobject \<Rightarrow> LLMService \<Rightarrow> bool"
  ToUnstructured :: "kobject \<Rightarrow> go_error + kobject"
  SetStatusCondition :: "condition list \<Rightarrow> condition \<Rightarrow> condition list"
  FindStatusCondition :: "condition list \<Rightarrow> string \<Rightarrow> condition option"
  SemanticDeepEqual :: "LLMServiceStatus \<Rightarrow> LLMServiceStatus \<Rightarrow> bool"

subsection \<open>Documented behaviour\<close>

text \<open>
  A successful \<open>SetControllerReference\<close> makes the owner the controller and keeps the address of the
  object; the conversion for server-side apply keeps both.
\<close>

definition reference_law :: "kube_lib \<Rightarrow> bool" where
  "reference_law lib \<longleftrightarrow>
     (\<forall>owner obj obj'. SetControllerReference lib owner obj = Inr obj' \<longrightarrow>
        IsControlledBy lib obj' owner \<and> address obj' = address obj)
     \<and> (\<forall>owner obj obj'. ToUnstructured lib obj = Inr obj' \<longrightarrow>
          IsControlledBy lib obj' owner = IsControlledBy lib obj owner \<and> address obj' = address obj)"

text \<open>\<open>Get\<close> returns the object of the kind and key it was asked for.\<close>

definition get_law :: "'s client \<Rightarrow> bool" where
  "get_law c \<longleftrightarrow> (\<forall>k key s obj s'. run_state (cl_Get c k key) s = (Inr obj, s') \<longrightarrow> address obj = (k, key))"

lemma get_lawD: "get_law c \<Longrightarrow> run_state (cl_Get c k key) s = (Inr obj, s') \<Longrightarrow> address obj = (k, key)"
  unfolding get_law_def by blast

text \<open>
  \<open>SetStatusCondition\<close> stores the status, reason, message and generation of a condition under its
  type, and leaves the conditions of every other type alone; \<open>FindStatusCondition\<close> finds them by type.
\<close>

definition same_condition :: "condition \<Rightarrow> condition \<Rightarrow> bool" where
  "same_condition a b \<longleftrightarrow> cond_Type a = cond_Type b \<and> cond_Status a = cond_Status b \<and> cond_Reason a = cond_Reason b
     \<and> cond_Message a = cond_Message b \<and> cond_ObservedGeneration a = cond_ObservedGeneration b"

definition condition_law :: "kube_lib \<Rightarrow> bool" where
  "condition_law lib \<longleftrightarrow>
     (\<forall>cs c t. if t = cond_Type c
        then \<exists>c'. FindStatusCondition lib (SetStatusCondition lib cs c) t = Some c' \<and> same_condition c' c
        else FindStatusCondition lib (SetStatusCondition lib cs c) t = FindStatusCondition lib cs t)"

subsection \<open>Recording the changes\<close>

datatype api_call =
    Applied kobject
  | Created kobject
  | Deleted kobject
  | StatusUpdated LLMService
  | Recorded kube_event

text \<open>A call with its outcome: the error, or none.\<close>

type_synonym api_log = "(api_call \<times> go_error option) list"

definition logging ::
  "('r \<Rightarrow> go_error option) \<Rightarrow> api_call \<Rightarrow> ('s, 'r) state \<Rightarrow> ('s \<times> api_log, 'r) state" where
  "logging outcome call f = State (\<lambda>(s, l). case run_state f s of (r, s') \<Rightarrow> (r, s', l @ [(call, outcome r)]))"

definition passing :: "('s, 'r) state \<Rightarrow> ('s \<times> api_log, 'r) state" where
  "passing f = State (\<lambda>(s, l). case run_state f s of (r, s') \<Rightarrow> (r, s', l))"

definition sum_error :: "go_error + 'a \<Rightarrow> go_error option" where
  "sum_error r = (case r of Inl e \<Rightarrow> Some e | Inr _ \<Rightarrow> None)"

definition logged :: "'s client \<Rightarrow> ('s \<times> api_log) client" where
  "logged c =
     \<lparr>cl_GetLLMService = (\<lambda>k. passing (cl_GetLLMService c k)),
      cl_ListLLMServices = passing (cl_ListLLMServices c),
      cl_GetRuntime = (\<lambda>n. passing (cl_GetRuntime c n)),
      cl_ListRuntimes = passing (cl_ListRuntimes c),
      cl_Get = (\<lambda>k key. passing (cl_Get c k key)),
      cl_ListPods = (\<lambda>ns ls. passing (cl_ListPods c ns ls)),
      cl_Create = (\<lambda>obj. logging sum_error (Created obj) (cl_Create c obj)),
      cl_Apply = (\<lambda>obj. logging (\<lambda>e. e) (Applied obj) (cl_Apply c obj)),
      cl_Delete = (\<lambda>obj. logging (\<lambda>e. e) (Deleted obj) (cl_Delete c obj)),
      cl_UpdateStatus = (\<lambda>svc. logging sum_error (StatusUpdated svc) (cl_UpdateStatus c svc)),
      cl_Eventf = (\<lambda>svc ev. logging (\<lambda>_. None) (Recorded ev) (cl_Eventf c svc ev))\<rparr>"

lemma logged_fields [simp]:
  "cl_GetLLMService (logged c) k = passing (cl_GetLLMService c k)"
  "cl_ListLLMServices (logged c) = passing (cl_ListLLMServices c)"
  "cl_GetRuntime (logged c) n = passing (cl_GetRuntime c n)"
  "cl_ListRuntimes (logged c) = passing (cl_ListRuntimes c)"
  "cl_Get (logged c) kd k = passing (cl_Get c kd k)"
  "cl_ListPods (logged c) ns ls = passing (cl_ListPods c ns ls)"
  "cl_Create (logged c) obj = logging sum_error (Created obj) (cl_Create c obj)"
  "cl_Apply (logged c) obj = logging (\<lambda>e. e) (Applied obj) (cl_Apply c obj)"
  "cl_Delete (logged c) obj = logging (\<lambda>e. e) (Deleted obj) (cl_Delete c obj)"
  "cl_UpdateStatus (logged c) svc = logging sum_error (StatusUpdated svc) (cl_UpdateStatus c svc)"
  "cl_Eventf (logged c) svc ev = logging (\<lambda>_. None) (Recorded ev) (cl_Eventf c svc ev)"
  by (simp_all add: logged_def)

lemma run_passing [simp]: "run_state (passing f) (s, l) = (case run_state f s of (r, s') \<Rightarrow> (r, s', l))"
  by (simp add: passing_def)

lemma run_logging [simp]:
  "run_state (logging out call f) (s, l) = (case run_state f s of (r, s') \<Rightarrow> (r, s', l @ [(call, out r)]))"
  by (simp add: logging_def)

text \<open>
  \<open>emits P Q f\<close>: every call that \<open>f\<close> makes satisfies \<open>P\<close>, and its result satisfies \<open>Q\<close>. The rules
  follow the sequencing of the calls.
\<close>

definition emits :: "(api_call \<Rightarrow> bool) \<Rightarrow> ('r \<Rightarrow> bool) \<Rightarrow> ('s \<times> api_log, 'r) state \<Rightarrow> bool" where
  "emits P Q f \<longleftrightarrow>
     (\<forall>s l. \<exists>l'. snd (snd (run_state f (s, l))) = l @ l' \<and> list_all (\<lambda>(call, _). P call) l' \<and> Q (fst (run_state f (s, l))))"

named_theorems emit_intros \<open>the calls an operation of the controller makes\<close>

lemma emits_return [emit_intros]: "Q r \<Longrightarrow> emits P Q (ret r)"
  by (auto simp: emits_def intro: exI [of _ "[]"])

lemma emits_bind [emit_intros]:
  assumes "emits P Q f" and "\<And>r. Q r \<Longrightarrow> emits P R (g r)"
  shows "emits P R (f \<bind> g)"
proof -
  have "\<exists>l'. snd (snd (run_state (f \<bind> g) (s, l))) = l @ l' \<and> list_all (\<lambda>(call, _). P call) l'
      \<and> R (fst (run_state (f \<bind> g) (s, l)))" for s l
  proof -
    obtain r s' l1 where f: "run_state f (s, l) = (r, s', l @ l1)" "list_all (\<lambda>(call, _). P call) l1" "Q r"
      using assms(1) unfolding emits_def by (metis prod.collapse)
    obtain l2 where g: "snd (snd (run_state (g r) (s', l @ l1))) = (l @ l1) @ l2" "list_all (\<lambda>(call, _). P call) l2"
      "R (fst (run_state (g r) (s', l @ l1)))"
      using assms(2) [OF f(3)] unfolding emits_def by blast
    then show ?thesis using f by (intro exI [of _ "l1 @ l2"]) simp
  qed
  then show ?thesis by (simp add: emits_def)
qed

lemma emits_passing: "(\<And>s r s'. run_state f s = (r, s') \<Longrightarrow> Q r) \<Longrightarrow> emits P Q (passing f)"
  by (auto simp: emits_def split: prod.splits)

lemma emits_read [emit_intros]: "emits P (\<lambda>_. True) (passing f)"
  by (rule emits_passing) simp

lemma emits_logging [emit_intros]: "P call \<Longrightarrow> emits P (\<lambda>_. True) (logging out call f)"
  by (auto simp: emits_def split: prod.splits)

lemma emits_weaken: "emits P Q f \<Longrightarrow> (\<And>r. Q r \<Longrightarrow> R r) \<Longrightarrow> emits P R f"
  unfolding emits_def by metis

subsection \<open>The cache of the manager\<close>

text \<open>
  The client of the manager reads from a cache, in which \<open>cmd/main.go\<close> keeps only the Secrets that carry the
  label of the operator.
\<close>

text \<open>The label selectors of the cache by kind; the cache holds every object of a kind without one.\<close>

type_synonym cache_options = "(kind \<times> (string, string) gomap) list"

definition managerCacheOptions :: cache_options where
  "managerCacheOptions = [(SecretKind, [(''app.kubernetes.io/managed-by'', ''noctaya'')])]"

definition cached :: "cache_options \<Rightarrow> kobject \<Rightarrow> bool" where
  "cached opts obj = (case map_of opts (kind_of obj) of None \<Rightarrow> True | Some sel \<Rightarrow> selects sel (om_Labels (meta_of obj)))"

subsection \<open>An API server in memory\<close>

text \<open>
  A client that shows that the laws can hold; the witnesses of the controller run on it. Its reads see what
  the cache of the manager keeps.
\<close>

fun set_controller :: "string option \<Rightarrow> kobject \<Rightarrow> kobject" where
  "set_controller u (KDeployment d) = KDeployment (d\<lparr>dep_Meta := (dep_Meta d)\<lparr>om_Controller := u\<rparr>\<rparr>)"
| "set_controller u (KService d) = KService (d\<lparr>ks_Meta := (ks_Meta d)\<lparr>om_Controller := u\<rparr>\<rparr>)"
| "set_controller u (KPodDisruptionBudget d) = KPodDisruptionBudget (d\<lparr>pdb_Meta := (pdb_Meta d)\<lparr>om_Controller := u\<rparr>\<rparr>)"
| "set_controller u (KPersistentVolumeClaim d) = KPersistentVolumeClaim (d\<lparr>pvc_Meta := (pvc_Meta d)\<lparr>om_Controller := u\<rparr>\<rparr>)"
| "set_controller u (KJob d) = KJob (d\<lparr>job_Meta := (job_Meta d)\<lparr>om_Controller := u\<rparr>\<rparr>)"
| "set_controller u (KSecret d) = KSecret (d\<lparr>sec_Meta := (sec_Meta d)\<lparr>om_Controller := u\<rparr>\<rparr>)"
| "set_controller u (KScaledObject d) = KScaledObject (d\<lparr>so_Meta := (so_Meta d)\<lparr>om_Controller := u\<rparr>\<rparr>)"

lemma set_controller_simps [simp]:
  "om_Controller (meta_of (set_controller u obj)) = u" "address (set_controller u obj) = address obj"
  by (cases obj; simp add: address_def key_of_def)+

definition memory_lib :: kube_lib where
  "memory_lib =
     \<lparr>SetControllerReference = (\<lambda>owner obj. Inr (set_controller (Some (om_UID (svc_Meta owner))) obj)),
      IsControlledBy = (\<lambda>obj owner. om_Controller (meta_of obj) = Some (om_UID (svc_Meta owner))),
      ToUnstructured = Inr,
      SetStatusCondition = (\<lambda>cs c. c # filter (\<lambda>x. cond_Type x \<noteq> cond_Type c) cs),
      FindStatusCondition = (\<lambda>cs t. find (\<lambda>x. cond_Type x = t) cs),
      SemanticDeepEqual = (\<lambda>a b. a = b)\<rparr>"

lemma memory_reference_law: "reference_law memory_lib"
  by (auto simp: reference_law_def memory_lib_def)

lemma find_filter_other: "t \<noteq> u \<Longrightarrow> find (\<lambda>x. cond_Type x = t) (filter (\<lambda>x. cond_Type x \<noteq> u) cs) = find (\<lambda>x. cond_Type x = t) cs"
  by (induction cs) auto

lemma memory_condition_law: "condition_law memory_lib"
  by (auto simp: condition_law_def memory_lib_def same_condition_def find_filter_other)

record memory =
  mem_services :: "LLMService list"
  mem_runtimes :: "InferenceRuntime list"
  mem_objects :: "kobject list"
  mem_pods :: "pod list"
  mem_events :: "kube_event list"

definition NotFoundError :: go_error where "NotFoundError = \<lparr>err_class = NotFound, err_text = ''not found''\<rparr>"
definition ExistsError :: go_error where "ExistsError = \<lparr>err_class = AlreadyExists, err_text = ''already exists''\<rparr>"

definition or_not_found :: "'a option \<Rightarrow> go_error + 'a" where
  "or_not_found x = (case x of Some y \<Rightarrow> Inr y | None \<Rightarrow> Inl NotFoundError)"

definition memory_client :: "memory client" where
  "memory_client =
     \<lparr>cl_GetLLMService = (\<lambda>k. State (\<lambda>s. (or_not_found (find (\<lambda>v. (svc_Namespace v, svc_Name v) = k) (mem_services s)), s))),
      cl_ListLLMServices = State (\<lambda>s. (Inr (mem_services s), s)),
      cl_GetRuntime = (\<lambda>n. State (\<lambda>s. (or_not_found (find (\<lambda>v. rt_Name v = n) (mem_runtimes s)), s))),
      cl_ListRuntimes = State (\<lambda>s. (Inr (mem_runtimes s), s)),
      cl_Get = (\<lambda>kd k. State (\<lambda>s. (or_not_found (Option.bind (find (\<lambda>v. address v = (kd, k)) (mem_objects s))
        (\<lambda>v. if cached managerCacheOptions v then Some v else None)), s))),
      cl_ListPods = (\<lambda>ns ls. State (\<lambda>s. (Inr (mem_pods s), s))),
      cl_Create = (\<lambda>obj. State (\<lambda>s. if address obj \<in> address ` set (mem_objects s) then (Inl ExistsError, s)
        else (Inr obj, s\<lparr>mem_objects := obj # mem_objects s\<rparr>))),
      cl_Apply = (\<lambda>obj. State (\<lambda>s. (None, s\<lparr>mem_objects := obj # filter (\<lambda>v. address v \<noteq> address obj) (mem_objects s)\<rparr>))),
      cl_Delete = (\<lambda>obj. State (\<lambda>s. (None, s\<lparr>mem_objects := filter (\<lambda>v. address v \<noteq> address obj) (mem_objects s)\<rparr>))),
      cl_UpdateStatus = (\<lambda>svc. State (\<lambda>s. (Inr svc, s\<lparr>mem_services :=
        map (\<lambda>v. if (svc_Namespace v, svc_Name v) = (svc_Namespace svc, svc_Name svc) then svc else v) (mem_services s)\<rparr>))),
      cl_Eventf = (\<lambda>svc ev. State (\<lambda>s. ((), s\<lparr>mem_events := mem_events s @ [ev]\<rparr>)))\<rparr>"

lemma memory_get_law: "get_law memory_client"
  by (auto simp: get_law_def memory_client_def or_not_found_def find_Some_iff split: option.splits Option.bind_splits if_splits)

end
