(* ===== verification/Selection.thy ===== *)
theory Selection
  imports Kube_Client
begin

section \<open>Selection of the runtime and mapping of watches\<close>

text \<open>
  \<open>internal/controller/llmservice/selection.go\<close> and \<open>watches.go\<close>: which runtime serves a service, and
  which services a change of a runtime or of a backend pod concerns.
\<close>

subsection \<open>Selection\<close>

text \<open>The loop over the runtimes for one vendor: the best so far and the names tied with it.\<close>

fun pick_loop :: "string \<Rightarrow> InferenceRuntime list \<Rightarrow> InferenceRuntime option \<Rightarrow> string list \<Rightarrow>
  InferenceRuntime option \<times> string list" where
  "pick_loop vendor [] best tied = (best, tied)"
| "pick_loop vendor (rt # rts) best tied =
     (if ir_Vendor (rt_Spec rt) \<noteq> vendor then pick_loop vendor rts best tied
      else case best of
          None \<Rightarrow> pick_loop vendor rts (Some rt) [rt_Name rt]
        | Some b \<Rightarrow>
            if ir_Priority (rt_Spec rt) > ir_Priority (rt_Spec b) then pick_loop vendor rts (Some rt) [rt_Name rt]
            else if ir_Priority (rt_Spec rt) = ir_Priority (rt_Spec b) then pick_loop vendor rts best (tied @ [rt_Name rt])
            else pick_loop vendor rts best tied)"

text \<open>The verb \<open>%v\<close> of a list of strings.\<close>

fun spaced :: "string list \<Rightarrow> string" where
  "spaced [] = []"
| "spaced [x] = x"
| "spaced (x # y # ys) = x @ '' '' @ spaced (y # ys)"

definition strings_text :: "string list \<Rightarrow> string" where
  "strings_text xs = ''['' @ spaced xs @ '']''"

fun vendor_loop :: "InferenceRuntime list \<Rightarrow> string list \<Rightarrow> (string + InferenceRuntime) option" where
  "vendor_loop runtimes [] = None"
| "vendor_loop runtimes (vendor # vendors) =
     (case pick_loop vendor runtimes None [] of
        (Some best, tied) \<Rightarrow>
          Some (if length tied > 1
                then Inl (''multiple InferenceRuntimes match vendor '' @ Quote vendor @ '' at priority ''
                  @ itoa (ir_Priority (rt_Spec best)) @ '': '' @ strings_text (sort tied) @ ''; set spec.runtime.name'')
                else Inr best)
      | (None, _) \<Rightarrow> vendor_loop runtimes vendors)"

definition pickByVendor :: "InferenceRuntime list \<Rightarrow> string list \<Rightarrow> string + InferenceRuntime" where
  "pickByVendor runtimes vendors =
     (case vendor_loop runtimes vendors of
        Some r \<Rightarrow> r
      | None \<Rightarrow> Inl (''no InferenceRuntime matches vendors '' @ strings_text vendors))"

text \<open>An error wrapped with \<open>%w\<close> keeps its class.\<close>

definition wrap_error :: "string \<Rightarrow> go_error \<Rightarrow> go_error" where
  "wrap_error text err = err\<lparr>err_text := text @ '': '' @ err_text err\<rparr>"

definition resolveRuntime :: "'s client \<Rightarrow> LLMService \<Rightarrow> ('s, go_error + InferenceRuntime) state" where
  "resolveRuntime c svc =
     (let selection = sp_Runtime (svc_Spec svc) in
      if rs_Name selection \<noteq> [] then do {
        res \<leftarrow> cl_GetRuntime c (rs_Name selection);
        ret (case res of
               Inl err \<Rightarrow> Inl (wrap_error (''get InferenceRuntime '' @ Quote (rs_Name selection)) err)
             | Inr rt \<Rightarrow> Inr rt)
      }
      else case rs_Selector selection of
          Some sel \<Rightarrow>
            if rsel_Vendor sel \<noteq> [] then do {
              res \<leftarrow> cl_ListRuntimes c;
              ret (case res of
                     Inl err \<Rightarrow> Inl err
                   | Inr items \<Rightarrow> (case pickByVendor items (rsel_Vendor sel) of Inl e \<Rightarrow> Inl (Errorf e) | Inr rt \<Rightarrow> Inr rt))
            }
            else ret (Inl (Errorf ''spec.runtime: set either name or selector.vendor''))
        | None \<Rightarrow> ret (Inl (Errorf ''spec.runtime: set either name or selector.vendor'')))"

subsection \<open>Watches\<close>

definition managedByLabel :: string where "managedByLabel = ''app.kubernetes.io/managed-by''"
definition managedByValue :: string where "managedByValue = ''noctaya''"
definition llmServiceLabel :: string where "llmServiceLabel = ''serving.noctaya.io/llmservice''"
definition runtimeLabel :: string where "runtimeLabel = ''serving.noctaya.io/runtime''"

definition serviceForBackendPod :: "pod \<Rightarrow> object_key list" where
  "serviceForBackendPod pod =
     (let labels = om_Labels (pod_Meta pod) in
      if lookup0 [] labels managedByLabel \<noteq> managedByValue \<or> lookup0 [] labels runtimeLabel = []
         \<or> lookup0 [] labels llmServiceLabel = []
      then [] else [(om_Namespace (pod_Meta pod), lookup0 [] labels llmServiceLabel)])"

definition concerns :: "InferenceRuntime \<Rightarrow> LLMService \<Rightarrow> bool" where
  "concerns rt svc \<longleftrightarrow>
     (let selection = sp_Runtime (svc_Spec svc)
      in rs_Name selection = rt_Name rt
         \<or> (case rs_Selector selection of Some sel \<Rightarrow> ir_Vendor (rt_Spec rt) \<in> set (rsel_Vendor sel) | None \<Rightarrow> False))"

definition servicesForRuntime :: "'s client \<Rightarrow> InferenceRuntime \<Rightarrow> ('s, object_key list) state" where
  "servicesForRuntime c rt = do {
     res \<leftarrow> cl_ListLLMServices c;
     ret (case res of
            Inl err \<Rightarrow> []
          | Inr items \<Rightarrow> map (\<lambda>svc. (svc_Namespace svc, svc_Name svc)) (filter (concerns rt) items))
   }"

subsection \<open>What the loop computes\<close>

text \<open>The reference: the runtimes of the vendor with the highest priority among them.\<close>

definition of_vendor :: "string \<Rightarrow> InferenceRuntime list \<Rightarrow> InferenceRuntime list" where
  "of_vendor vendor rts = filter (\<lambda>rt. ir_Vendor (rt_Spec rt) = vendor) rts"

definition prio :: "InferenceRuntime \<Rightarrow> int" where
  "prio rt = ir_Priority (rt_Spec rt)"

definition top_runtimes :: "InferenceRuntime list \<Rightarrow> InferenceRuntime list" where
  "top_runtimes rts = filter (\<lambda>rt. \<forall>x \<in> set rts. prio x \<le> prio rt) rts"

lemma pick_loop_skips: "pick_loop vendor rts best tied = pick_loop vendor (of_vendor vendor rts) best tied"
  by (induction vendor rts best tied rule: pick_loop.induct) (auto simp: of_vendor_def split: option.splits)

lemma pick_loop_append:
  "pick_loop vendor (xs @ ys) best tied = (case pick_loop vendor xs best tied of (b, t) \<Rightarrow> pick_loop vendor ys b t)"
  by (induction vendor xs best tied rule: pick_loop.induct) (auto split: option.splits)

lemma top_runtimes_snoc:
  assumes "top_runtimes rts = b # bs"
  shows "top_runtimes (rts @ [rt]) =
    (if prio rt > prio b then [rt] else if prio rt = prio b then top_runtimes rts @ [rt] else top_runtimes rts)"
proof -
  from assms have b: "b \<in> set rts" "\<forall>x \<in> set rts. prio x \<le> prio b"
    using set_ConsD [of b b bs] by (auto simp: top_runtimes_def dest: filter_eq_ConsD)
  then show ?thesis
    by (auto simp: top_runtimes_def filter_empty_conv intro!: filter_cong)
qed

lemma pick_loop_top:
  assumes "\<forall>rt \<in> set rts. ir_Vendor (rt_Spec rt) = vendor" and "rts \<noteq> []"
  shows "\<exists>b bs. top_runtimes rts = b # bs \<and> pick_loop vendor rts None [] = (Some b, map rt_Name (b # bs))"
  using assms
proof (induction rts rule: rev_induct)
  case (snoc rt rts)
  show ?case
  proof (cases "rts = []")
    case False
    then obtain b bs where ih: "top_runtimes rts = b # bs" "pick_loop vendor rts None [] = (Some b, map rt_Name (b # bs))"
      using snoc by auto
    from top_runtimes_snoc [OF ih(1), of rt] ih(2) snoc.prems(1) show ?thesis
      by (auto simp: pick_loop_append prio_def ih(1))
  qed (use snoc.prems in \<open>simp add: top_runtimes_def\<close>)
qed simp

lemma pick_loop_spec:
  "pick_loop vendor rts None [] =
     (case top_runtimes (of_vendor vendor rts) of [] \<Rightarrow> (None, []) | b # bs \<Rightarrow> (Some b, map rt_Name (b # bs)))"
proof (cases "of_vendor vendor rts = []")
  case True
  then show ?thesis by (subst pick_loop_skips) (simp add: top_runtimes_def)
next
  case False
  have "\<forall>rt \<in> set (of_vendor vendor rts). ir_Vendor (rt_Spec rt) = vendor" by (simp add: of_vendor_def)
  from pick_loop_top [OF this False] show ?thesis by (subst pick_loop_skips) auto
qed

lemma top_runtimes_ne: "rts \<noteq> [] \<Longrightarrow> top_runtimes rts \<noteq> []"
proof -
  assume "rts \<noteq> []"
  then have "Max (prio ` set rts) \<in> prio ` set rts" by (intro Max_in) simp_all
  then obtain rt where "rt \<in> set rts" "prio rt = Max (prio ` set rts)" by (metis imageE)
  then have "rt \<in> set (top_runtimes rts)" by (simp add: top_runtimes_def)
  then show ?thesis by (metis empty_iff empty_set)
qed

subsection \<open>Properties\<close>

text \<open>
  The reference: the first vendor of the list that has a runtime decides; the runtime of the highest
  priority is taken if there is only one, otherwise the names of all of them are reported in order.
\<close>

definition select_runtime :: "InferenceRuntime list \<Rightarrow> string list \<Rightarrow> string + InferenceRuntime" where
  "select_runtime rts vendors =
     (case find (\<lambda>v. of_vendor v rts \<noteq> []) vendors of
        None \<Rightarrow> Inl (''no InferenceRuntime matches vendors '' @ strings_text vendors)
      | Some v \<Rightarrow>
          (case top_runtimes (of_vendor v rts) of
             [rt] \<Rightarrow> Inr rt
           | tops \<Rightarrow> Inl (''multiple InferenceRuntimes match vendor '' @ Quote v @ '' at priority ''
               @ itoa (Max (prio ` set (of_vendor v rts))) @ '': '' @ strings_text (sort (map rt_Name tops))
               @ ''; set spec.runtime.name'')))"

lemma top_prio: "top_runtimes rts = b # bs \<Longrightarrow> prio b = Max (prio ` set rts)"
proof -
  assume "top_runtimes rts = b # bs"
  then have "b \<in> set (top_runtimes rts)" by simp
  then show ?thesis by (auto simp: top_runtimes_def intro!: Max_eqI [symmetric])
qed

lemma pickByVendor_eq: "pickByVendor rts vendors = select_runtime rts vendors"
proof -
  have "vendor_loop rts vs = map_option
      (\<lambda>v. case top_runtimes (of_vendor v rts) of
             [rt] \<Rightarrow> Inr rt
           | tops \<Rightarrow> Inl (''multiple InferenceRuntimes match vendor '' @ Quote v @ '' at priority ''
               @ itoa (Max (prio ` set (of_vendor v rts))) @ '': '' @ strings_text (sort (map rt_Name tops))
               @ ''; set spec.runtime.name'')) (find (\<lambda>v. of_vendor v rts \<noteq> []) vs)" for vs
  proof (induction vs)
    case (Cons v vs)
    show ?case
    proof (cases "of_vendor v rts = []")
      case True
      then show ?thesis using Cons by (simp add: pick_loop_spec top_runtimes_def)
    next
      case False
      then obtain b bs where top: "top_runtimes (of_vendor v rts) = b # bs"
        using top_runtimes_ne by (metis neq_Nil_conv)
      from top_prio [OF this] False top show ?thesis
        by (cases bs) (simp_all add: pick_loop_spec prio_def)
    qed
  qed simp
  then show ?thesis by (auto simp: pickByVendor_def select_runtime_def split: option.splits)
qed

lemma perm_of_vendor: "mset rts = mset rts' \<Longrightarrow> mset (of_vendor v rts) = mset (of_vendor v rts')"
  by (simp add: of_vendor_def)

lemma perm_top: "mset rts = mset rts' \<Longrightarrow> mset (top_runtimes rts) = mset (top_runtimes rts')"
  using mset_eq_setD [of rts rts'] by (simp add: top_runtimes_def)

lemma select_runtime_perm:
  assumes "mset rts = mset rts'"
  shows "select_runtime rts vendors = select_runtime rts' vendors"
proof -
  have ne: "of_vendor v rts = [] \<longleftrightarrow> of_vendor v rts' = []" for v
    using perm_of_vendor [OF assms, of v] by (metis mset_zero_iff)
  have one: "top_runtimes (of_vendor v rts) = [rt] \<longleftrightarrow> top_runtimes (of_vendor v rts') = [rt]" for v rt
    using perm_top [OF perm_of_vendor [OF assms, of v]] by (metis mset_single_iff_right)
  have srt: "sort (map rt_Name (top_runtimes (of_vendor v rts))) = sort (map rt_Name (top_runtimes (of_vendor v rts')))" for v
    using perm_top [OF perm_of_vendor [OF assms, of v]] by (intro properties_for_sort) simp_all
  have st: "set (of_vendor v rts) = set (of_vendor v rts')" for v
    using perm_of_vendor [OF assms, of v] by (rule mset_eq_setD)
  have "select_runtime rts vendors = (case find (\<lambda>v. of_vendor v rts \<noteq> []) vendors of
        None \<Rightarrow> Inl (''no InferenceRuntime matches vendors '' @ strings_text vendors)
      | Some v \<Rightarrow> (if \<exists>rt. top_runtimes (of_vendor v rts) = [rt] then Inr (hd (top_runtimes (of_vendor v rts)))
          else Inl (''multiple InferenceRuntimes match vendor '' @ Quote v @ '' at priority ''
               @ itoa (Max (prio ` set (of_vendor v rts))) @ '': '' @ strings_text (sort (map rt_Name (top_runtimes (of_vendor v rts))))
               @ ''; set spec.runtime.name'')))" for rts
    by (auto simp: select_runtime_def split: option.splits list.splits)
  note this [of rts] this [of rts']
  moreover have "hd (top_runtimes (of_vendor v rts)) = hd (top_runtimes (of_vendor v rts'))"
    if "\<exists>rt. top_runtimes (of_vendor v rts') = [rt]" for v
    using that one [of v] by (metis list.sel(1))
  ultimately show ?thesis by (simp add: ne one srt st split: option.split)
qed

text \<open>
  C6. Selection by vendor is what the API promises and does not depend on the order in which the API
  server lists the runtimes: for every listing of the same runtimes the result is the one runtime of
  highest priority of the first preferred vendor that has any, and a tie or no match is an error whose
  text names the candidates in sorted order.
\<close>

theorem pickByVendor_correct:
  assumes "mset rts' = mset rts"
  shows "pickByVendor rts' vendors = select_runtime rts vendors"
  using select_runtime_perm [OF assms] by (simp add: pickByVendor_eq)

definition example_rt2 :: InferenceRuntime where
  "example_rt2 = example_rt\<lparr>rt_Meta := meta0\<lparr>om_Name := ''fast''\<rparr>, rt_Spec := (rt_Spec example_rt)\<lparr>ir_Priority := 4\<rparr>\<rparr>"

lemma example_rts [simp]:
  "ir_Vendor (rt_Spec example_rt) = ''nvidia''" "ir_Vendor (rt_Spec example_rt2) = ''nvidia''"
  "prio example_rt = 1" "prio example_rt2 = 4"
  by (simp_all add: example_rt2_def example_rt_def prio_def)

lemma example_rts_differ: "example_rt2 \<noteq> example_rt"
  using example_rts by (metis one_eq_numeral_iff semiring_norm(83))

lemma example_selection: "select_runtime [example_rt, example_rt2] [''ascend'', ''nvidia''] = Inr example_rt2"
proof -
  have "of_vendor ''ascend'' [example_rt, example_rt2] = []" by (simp add: of_vendor_def)
  moreover have "of_vendor ''nvidia'' [example_rt, example_rt2] = [example_rt, example_rt2]" by (simp add: of_vendor_def)
  moreover have "top_runtimes [example_rt, example_rt2] = [example_rt2]" by (simp add: top_runtimes_def)
  ultimately show ?thesis unfolding select_runtime_def by simp
qed

theorem pickByVendor_correct_witness:
  "pickByVendor [example_rt, example_rt2] [''ascend'', ''nvidia''] = Inr example_rt2
   \<and> pickByVendor [example_rt2, example_rt] [''ascend'', ''nvidia''] = Inr example_rt2"
proof -
  have perm: "mset [example_rt2, example_rt] = mset [example_rt, example_rt2]"
    by (simp only: mset.simps add_mset_commute)
  show ?thesis
    by (intro conjI trans [OF pickByVendor_correct [OF perm] example_selection]
        trans [OF pickByVendor_correct [OF refl] example_selection])
qed

lemma of_vendor_skip: "ir_Vendor (rt_Spec rt) \<noteq> v \<Longrightarrow> of_vendor v (xs @ rt # ys) = of_vendor v (xs @ ys)"
  by (simp add: of_vendor_def)

lemma pickByVendor_unconcerned:
  assumes "ir_Vendor (rt_Spec rt) \<notin> set vendors"
  shows "pickByVendor (xs @ rt # ys) vendors = pickByVendor (xs @ ys) vendors"
proof -
  have skip: "pick_loop v (xs @ rt # ys) None [] = pick_loop v (xs @ ys) None []" if "v \<in> set vendors" for v
  proof -
    have "ir_Vendor (rt_Spec rt) \<noteq> v" using that assms by auto
    then show ?thesis by (simp add: pick_loop_spec of_vendor_skip)
  qed
  have "vendor_loop (xs @ rt # ys) vs = vendor_loop (xs @ ys) vs" if "set vs \<subseteq> set vendors" for vs
    using that skip by (induction vs) (simp_all split: prod.split option.split)
  then show ?thesis by (simp add: pickByVendor_def)
qed

text \<open>
  The watch on runtimes misses nobody: whenever adding, removing or changing a runtime changes the
  outcome of the selection of a listed service, by name or by vendor, the service is among those the
  event is mapped to.
\<close>

theorem runtime_watch_complete:
  assumes "run_state (cl_ListLLMServices c) s = (Inr items, s')" and "svc \<in> set items"
    and "sp_Runtime (svc_Spec svc) = selection"
    and "rs_Name selection = rt_Name rt \<or>
      (\<exists>sel. rs_Selector selection = Some sel \<and>
         pickByVendor (xs @ rt # ys) (rsel_Vendor sel) \<noteq> pickByVendor (xs @ ys) (rsel_Vendor sel))"
  shows "(svc_Namespace svc, svc_Name svc) \<in> set (fst (run_state (servicesForRuntime c rt) s))"
proof -
  have "concerns rt svc"
    using assms(3,4) pickByVendor_unconcerned [of rt _ xs ys] by (auto simp: concerns_def Let_def)
  with assms(1,2) show ?thesis by (auto simp: servicesForRuntime_def)
qed

text \<open>A client that lists one service and fails otherwise.\<close>

definition failing_client :: "LLMService list \<Rightarrow> unit client" where
  "failing_client svcs =
     (let e = Errorf ''unavailable'' in
     \<lparr>cl_GetLLMService = (\<lambda>_. ret (Inl e)), cl_ListLLMServices = ret (Inr svcs), cl_GetRuntime = (\<lambda>_. ret (Inl e)),
      cl_ListRuntimes = ret (Inl e), cl_Get = (\<lambda>_ _. ret (Inl e)), cl_ListPods = (\<lambda>_ _. ret (Inl e)),
      cl_Create = (\<lambda>_. ret (Inl e)), cl_Apply = (\<lambda>_. ret (Some e)), cl_Delete = (\<lambda>_. ret (Some e)),
      cl_UpdateStatus = (\<lambda>_. ret (Inl e)), cl_Eventf = (\<lambda>_ _. ret ())\<rparr>)"

theorem runtime_watch_complete_witness:
  "(''ai'', ''qwen'') \<in> set (fst (run_state (servicesForRuntime (failing_client [example_svc]) example_rt2) ()))"
proof -
  have l: "run_state (cl_ListLLMServices (failing_client [example_svc])) () = (Inr [example_svc], ())"
    by (simp add: failing_client_def Let_def)
  have "pickByVendor ([example_rt] @ example_rt2 # []) [''nvidia''] \<noteq> pickByVendor ([example_rt] @ []) [''nvidia'']"
    using example_rts_differ by (simp add: pickByVendor_eq select_runtime_def of_vendor_def top_runtimes_def)
  then have "rs_Name (sp_Runtime (svc_Spec example_svc)) = rt_Name example_rt2 \<or>
      (\<exists>sel. rs_Selector (sp_Runtime (svc_Spec example_svc)) = Some sel \<and>
         pickByVendor ([example_rt] @ example_rt2 # []) (rsel_Vendor sel) \<noteq> pickByVendor ([example_rt] @ []) (rsel_Vendor sel))"
    by (simp add: example_svc_def)
  from runtime_watch_complete [OF l _ refl this] show ?thesis by (simp add: example_svc_def)
qed

end
