(* ===== verification/Ownership.thy ===== *)
theory Ownership
  imports Selection Backend_Registry Model_Cache
begin

section \<open>Owned resources\<close>

text \<open>
  \<open>internal/controller/llmservice/ownership.go\<close>: the three ways the controller changes the resources
  of a service, each under the owner reference of the service. The reconciler of \<open>controller.go\<close>
  holds the client, the libraries and the configuration.
\<close>

record 's LLMServiceReconciler =
  r_Client :: "'s client"
  r_Lib :: kube_lib
  r_Backends :: registry
  r_GatewayImage :: string
  r_GatewayReplicas :: int
  r_Recorder :: bool

definition with_client :: "'s LLMServiceReconciler \<Rightarrow> 't client \<Rightarrow> 't LLMServiceReconciler" where
  "with_client r c = \<lparr>r_Client = c, r_Lib = r_Lib r, r_Backends = r_Backends r, r_GatewayImage = r_GatewayImage r,
     r_GatewayReplicas = r_GatewayReplicas r, r_Recorder = r_Recorder r\<rparr>"

text \<open>The same reconciler on a client that records its calls.\<close>

definition recording :: "'s LLMServiceReconciler \<Rightarrow> ('s \<times> api_log) LLMServiceReconciler" where
  "recording r = with_client r (logged (r_Client r))"

lemma recording_simps [simp]:
  "r_Client (recording r) = logged (r_Client r)" "r_Lib (recording r) = r_Lib r" "r_Backends (recording r) = r_Backends r"
  "r_GatewayImage (recording r) = r_GatewayImage r" "r_GatewayReplicas (recording r) = r_GatewayReplicas r"
  "r_Recorder (recording r) = r_Recorder r"
  by (simp_all add: recording_def with_client_def)

definition IsAlreadyExists :: "go_error \<Rightarrow> bool" where "IsAlreadyExists e \<longleftrightarrow> err_class e = AlreadyExists"
definition IsNotFound :: "go_error \<Rightarrow> bool" where "IsNotFound e \<longleftrightarrow> err_class e = NotFound"

definition IgnoreNotFound :: "go_error option \<Rightarrow> go_error option" where
  "IgnoreNotFound err = (case err of Some e \<Rightarrow> if IsNotFound e then None else err | None \<Rightarrow> None)"

definition apply_object :: "'s LLMServiceReconciler \<Rightarrow> LLMService \<Rightarrow> kobject \<Rightarrow> ('s, go_error option) state" where
  "apply_object r owner obj =
     (case SetControllerReference (r_Lib r) owner obj of
        Inl err \<Rightarrow> ret (Some err)
      | Inr obj \<Rightarrow>
          (case ToUnstructured (r_Lib r) obj of
             Inl err \<Rightarrow> ret (Some err)
           | Inr configuration \<Rightarrow> cl_Apply (r_Client r) configuration))"

definition create_hash :: "kobject \<Rightarrow> string" where
  "create_hash obj = lookup0 [] (om_Annotations (meta_of obj)) CreateOnceHashAnnotation"

definition ensureCreated :: "'s LLMServiceReconciler \<Rightarrow> LLMService \<Rightarrow> kobject \<Rightarrow> ('s, go_error + kobject) state" where
  "ensureCreated r owner obj =
     (let desiredHash = create_hash obj in
      case SetControllerReference (r_Lib r) owner obj of
        Inl err \<Rightarrow> ret (Inl err)
      | Inr obj \<Rightarrow> do {
          res \<leftarrow> cl_Create (r_Client r) obj;
          (case res of
             Inr obj \<Rightarrow> ret (Inr obj)
           | Inl err \<Rightarrow>
               if \<not> IsAlreadyExists err then ret (Inl err)
               else do {
                 res \<leftarrow> cl_Get (r_Client r) (kind_of obj) (key_of obj);
                 ret (case res of
                        Inl err \<Rightarrow> Inl err
                      | Inr obj \<Rightarrow>
                          if \<not> IsControlledBy (r_Lib r) obj owner
                          then Inl (Errorf (''resource '' @ om_Namespace (meta_of obj) @ ''/'' @ om_Name (meta_of obj)
                            @ '' already exists and is not controlled by LLMService '' @ svc_Name owner))
                          else if desiredHash \<noteq> [] \<and> create_hash obj \<noteq> desiredHash
                          then Inl (Errorf (''immutable resource '' @ om_Namespace (meta_of obj) @ ''/'' @ om_Name (meta_of obj)
                            @ '' differs from the requested cache configuration; delete it explicitly before reconciling the change''))
                          else Inr obj)
               })
        })"

definition deleteOwned :: "'s LLMServiceReconciler \<Rightarrow> LLMService \<Rightarrow> kind \<Rightarrow> object_key \<Rightarrow> ('s, go_error option) state" where
  "deleteOwned r owner kd key = do {
     res \<leftarrow> cl_Get (r_Client r) kd key;
     (case res of
        Inl err \<Rightarrow> ret (IgnoreNotFound (Some err))
      | Inr obj \<Rightarrow>
          if \<not> IsControlledBy (r_Lib r) obj owner then ret None
          else do { err \<leftarrow> cl_Delete (r_Client r) obj; ret (IgnoreNotFound err) })
   }"

subsection \<open>Only owned resources change\<close>

text \<open>Every change of a resource carries the service as its controller.\<close>

fun owned_call :: "kube_lib \<Rightarrow> LLMService \<Rightarrow> api_call \<Rightarrow> bool" where
  "owned_call lib owner (Applied obj) = IsControlledBy lib obj owner"
| "owned_call lib owner (Created obj) = IsControlledBy lib obj owner"
| "owned_call lib owner (Deleted obj) = IsControlledBy lib obj owner"
| "owned_call lib owner (StatusUpdated svc) = (svc_Namespace svc = svc_Namespace owner \<and> svc_Name svc = svc_Name owner)"
| "owned_call lib owner (Recorded ev) = True"

text \<open>The rules hold for every predicate on calls that is at least as permissive for owned changes of an address.\<close>

definition permits :: "kube_lib \<Rightarrow> LLMService \<Rightarrow> (kind \<times> object_key) set \<Rightarrow> (api_call \<Rightarrow> bool) \<Rightarrow> bool" where
  "permits lib owner A P \<longleftrightarrow>
     (\<forall>obj. IsControlledBy lib obj owner \<and> address obj \<in> A \<longrightarrow> P (Applied obj) \<and> P (Created obj) \<and> P (Deleted obj))"

lemma permitsD:
  "permits lib owner A P \<Longrightarrow> IsControlledBy lib obj owner \<Longrightarrow> address obj \<in> A \<Longrightarrow> P (Applied obj) \<and> P (Created obj) \<and> P (Deleted obj)"
  by (simp add: permits_def)

lemma emits_apply [emit_intros]:
  assumes "reference_law (r_Lib r)" and "permits (r_Lib r) owner A P" and "address obj \<in> A"
  shows "emits P (\<lambda>_. True) (apply_object (recording r) owner obj)"
proof (cases "SetControllerReference (r_Lib r) owner obj")
  case (Inr obj1)
  show ?thesis
  proof (cases "ToUnstructured (r_Lib r) obj1")
    case (Inr obj2)
    have "IsControlledBy (r_Lib r) obj2 owner" "address obj2 = address obj"
      using assms(1) \<open>SetControllerReference (r_Lib r) owner obj = Inr obj1\<close> Inr
      unfolding reference_law_def by metis+
    with permitsD [OF assms(2), of obj2] assms(3) have "P (Applied obj2)" by simp
    then show ?thesis
      using \<open>SetControllerReference (r_Lib r) owner obj = Inr obj1\<close> Inr by (simp add: apply_object_def emits_logging)
  qed (use Inr in \<open>simp add: apply_object_def emits_return\<close>)
qed (simp add: apply_object_def emits_return)

lemma emits_ensureCreated [emit_intros]:
  assumes "reference_law (r_Lib r)" and "permits (r_Lib r) owner A P" and "address obj \<in> A"
  shows "emits P (\<lambda>_. True) (ensureCreated (recording r) owner obj)"
proof (cases "SetControllerReference (r_Lib r) owner obj")
  case (Inr obj1)
  have "IsControlledBy (r_Lib r) obj1 owner" "address obj1 = address obj"
    using assms(1) Inr unfolding reference_law_def by metis+
  with permitsD [OF assms(2), of obj1] assms(3) have "P (Created obj1)" by simp
  then show ?thesis unfolding ensureCreated_def Let_def Inr sum.case recording_simps logged_fields
    by (intro emits_bind [where Q = "\<lambda>_. True"] emits_logging)
      (auto split: sum.split intro!: emit_intros(1) emits_bind [where Q = "\<lambda>_. True"] emits_read)
qed (simp add: ensureCreated_def emits_return Let_def)

lemma emits_deleteOwned [emit_intros]:
  assumes "get_law (r_Client r)" and "permits (r_Lib r) owner A P" and "(kd, key) \<in> A"
  shows "emits P (\<lambda>_. True) (deleteOwned (recording r) owner kd key)"
proof -
  have "emits P (\<lambda>res. \<forall>obj. res = Inr obj \<longrightarrow> address obj = (kd, key)) (cl_Get (logged (r_Client r)) kd key)"
    unfolding logged_fields by (rule emits_passing) (use get_lawD [OF assms(1)] in blast)
  then show ?thesis unfolding deleteOwned_def recording_simps
    by (rule emits_bind)
      (auto simp: assms(3) permitsD [OF assms(2)] split: sum.split
        intro!: emits_return emits_bind [where Q = "\<lambda>_. True"] emits_logging)
qed

end
