(* ===== verification/Observation.thy ===== *)
theory Observation
  imports Runtime_Render "HOL-Library.Product_Lexorder"
begin

section \<open>Observation of the backend\<close>

text \<open>
  \<open>internal/controller/llmservice/observation.go\<close>: what the live Deployment and its pods say about the
  activation of the backend. \<open>slices.SortFunc\<close> is a sort by the key that its comparison function
  compares, the priority of the reason and then the message.
\<close>

definition repeatedRestartThreshold :: int where "repeatedRestartThreshold = 2"
definition reasonCrashLoopBackOff :: string where "reasonCrashLoopBackOff = ''CrashLoopBackOff''"
definition reasonContainerRestarting :: string where "reasonContainerRestarting = ''ContainerRestarting''"
definition reasonImagePullBackOff :: string where "reasonImagePullBackOff = ''ImagePullBackOff''"
definition reasonImagePullFailed :: string where "reasonImagePullFailed = ''ImagePullFailed''"
definition reasonModelLoading :: string where "reasonModelLoading = ''ModelLoading''"
definition reasonOOMKilled :: string where "reasonOOMKilled = ''OOMKilled''"
definition reasonProgressDeadlineExceeded :: string where "reasonProgressDeadlineExceeded = ''ProgressDeadlineExceeded''"
definition reasonSchedulingDelayed :: string where "reasonSchedulingDelayed = ''SchedulingDelayed''"

lemmas reason_defs = reasonCrashLoopBackOff_def reasonContainerRestarting_def reasonImagePullFailed_def
  reasonModelLoading_def reasonOOMKilled_def reasonProgressDeadlineExceeded_def reasonSchedulingDelayed_def

record backendObservation =
  ob_reason :: string
  ob_message :: string
  ob_degraded :: bool

definition activeBackendPod :: "pod \<Rightarrow> bool" where
  "activeBackendPod pod \<longleftrightarrow> \<not> om_Deleted (pod_Meta pod) \<and> pod_Phase pod \<noteq> ''Succeeded'' \<and> pod_Phase pod \<noteq> ''Failed''"

fun hasActiveBackendPod :: "pod list \<Rightarrow> bool" where
  "hasActiveBackendPod [] = False"
| "hasActiveBackendPod (pod # pods) = (activeBackendPod pod \<or> hasActiveBackendPod pods)"

fun deadline_loop :: "statusCondition list \<Rightarrow> bool" where
  "deadline_loop [] = False"
| "deadline_loop (c # cs) =
     (kc_Type c = ''Progressing'' \<and> kc_Status c = ConditionFalse \<and> kc_Reason c = reasonProgressDeadlineExceeded
      \<or> deadline_loop cs)"

definition deploymentProgressDeadlineExceeded :: "deployment \<Rightarrow> bool" where
  "deploymentProgressDeadlineExceeded dep = deadline_loop (ds_Conditions (dep_Status dep))"

definition servingContainerStatus :: "pod \<Rightarrow> containerStatus option" where
  "servingContainerStatus pod = find (\<lambda>c. cst_Name c = ServingContainerName) (pod_ContainerStatuses pod)"

definition imagePullFailed :: "string option \<Rightarrow> bool" where
  "imagePullFailed waiting =
     (case waiting of
        None \<Rightarrow> False
      | Some reason \<Rightarrow> reason \<in> {''ErrImagePull'', reasonImagePullBackOff, ''InvalidImageName'', ''RegistryUnavailable''})"

definition terminatedByOOM :: "containerStatus \<Rightarrow> bool" where
  "terminatedByOOM c \<longleftrightarrow> cst_Terminated c = Some reasonOOMKilled \<or> cst_LastTerminated c = Some reasonOOMKilled"

definition podSchedulingDelayed :: "pod \<Rightarrow> bool" where
  "podSchedulingDelayed pod =
     list_ex (\<lambda>c. kc_Type c = ''PodScheduled'' \<and> kc_Status c = ConditionFalse \<and> kc_Reason c = ''Unschedulable'') (pod_Conditions pod)"

definition observationPriority :: "string \<Rightarrow> int" where
  "observationPriority reason =
     (if reason = reasonImagePullFailed then 0 else if reason = reasonOOMKilled then 1
      else if reason = reasonCrashLoopBackOff then 2 else if reason = reasonContainerRestarting then 3
      else if reason = reasonSchedulingDelayed then 4 else if reason = reasonModelLoading then 5 else 6)"

definition backend_pod :: "pod \<Rightarrow> string \<Rightarrow> string" where
  "backend_pod pod text = ''Backend Pod '' @ Quote (om_Name (pod_Meta pod)) @ text"

text \<open>The classes of failures of the serving container, in the order in which they are tested.\<close>

definition observe_container :: "pod \<Rightarrow> containerStatus \<Rightarrow> backendObservation option" where
  "observe_container pod c =
     (if imagePullFailed (cst_Waiting c) then
        Some \<lparr>ob_reason = reasonImagePullFailed,
              ob_message = backend_pod pod '' cannot pull its serving image; check the image and imagePullSecrets'', ob_degraded = True\<rparr>
      else if terminatedByOOM c then
        Some \<lparr>ob_reason = reasonOOMKilled,
              ob_message = backend_pod pod '' was OOMKilled; inspect its memory limit and model runtime requirements'', ob_degraded = True\<rparr>
      else if cst_Waiting c = Some reasonCrashLoopBackOff then
        Some \<lparr>ob_reason = reasonCrashLoopBackOff,
              ob_message = backend_pod pod '' is in CrashLoopBackOff; inspect its serving-container logs and configuration'', ob_degraded = True\<rparr>
      else if cst_RestartCount c \<ge> repeatedRestartThreshold then
        Some \<lparr>ob_reason = reasonContainerRestarting,
              ob_message = backend_pod pod '' repeatedly restarted; inspect its serving-container logs and exit reason'', ob_degraded = True\<rparr>
      else None)"

definition observeBackendPod :: "pod \<Rightarrow> backendObservation" where
  "observeBackendPod pod =
     (let container = servingContainerStatus pod in
      case Option.bind container (observe_container pod) of
        Some ob \<Rightarrow> ob
      | None \<Rightarrow>
          if podSchedulingDelayed pod then
            \<lparr>ob_reason = reasonSchedulingDelayed,
             ob_message = backend_pod pod '' is unschedulable; inspect accelerator capacity, selectors, tolerations, and scheduler events'',
             ob_degraded = False\<rparr>
          else if (case container of Some c \<Rightarrow> cst_Running c \<and> \<not> cst_Ready c | None \<Rightarrow> False) then
            \<lparr>ob_reason = reasonModelLoading,
             ob_message = backend_pod pod '' is running while the model loads and readiness checks complete'', ob_degraded = False\<rparr>
          else \<lparr>ob_reason = ''Starting'', ob_message = backend_pod pod '' is starting'', ob_degraded = False\<rparr>)"

definition observation_key :: "backendObservation \<Rightarrow> int \<times> string" where
  "observation_key ob = (observationPriority (ob_reason ob), ob_message ob)"

definition SortFunc :: "backendObservation list \<Rightarrow> backendObservation list" where
  "SortFunc obs = sort_key observation_key obs"

definition observeBackend :: "deployment \<Rightarrow> pod list \<Rightarrow> backendObservation" where
  "observeBackend dep pods =
     (let observations = map observeBackendPod (filter activeBackendPod pods) in
      if (ds_Replicas (dep_Status dep) > 0 \<or> ds_ReadyReplicas (dep_Status dep) > 0 \<or> observations \<noteq> [])
         \<and> deploymentProgressDeadlineExceeded dep
      then \<lparr>ob_reason = reasonProgressDeadlineExceeded,
            ob_message = ''Backend Deployment exceeded its progress deadline; inspect its Pods and events'', ob_degraded = True\<rparr>
      else case SortFunc observations of
          ob # _ \<Rightarrow> ob
        | [] \<Rightarrow> \<lparr>ob_reason = ''Activating'', ob_message = ''Waiting for the backend Deployment to create a serving Pod'',
                 ob_degraded = False\<rparr>)"

subsection \<open>Lemmas\<close>

lemma hasActiveBackendPod_iff: "hasActiveBackendPod pods \<longleftrightarrow> (\<exists>p \<in> set pods. activeBackendPod p)"
  by (induction pods) auto

text \<open>The reasons of failures are the four first in priority, and the key of an observation determines it.\<close>

definition pod_reasons :: "(string \<times> bool) list" where
  "pod_reasons = [(reasonImagePullFailed, True), (reasonOOMKilled, True), (reasonCrashLoopBackOff, True),
     (reasonContainerRestarting, True), (reasonSchedulingDelayed, False), (reasonModelLoading, False), (''Starting'', False)]"

lemma observe_pod_reason: "(ob_reason (observeBackendPod p), ob_degraded (observeBackendPod p)) \<in> set pod_reasons"
  by (auto simp: observeBackendPod_def observe_container_def pod_reasons_def Let_def split: option.splits)

lemma pod_reason_degraded: "(r, d) \<in> set pod_reasons \<Longrightarrow> d \<longleftrightarrow> observationPriority r \<le> 3"
  by (auto simp: pod_reasons_def observationPriority_def reason_defs)

lemma pod_reason_inj:
  "(r, d) \<in> set pod_reasons \<Longrightarrow> (r', d') \<in> set pod_reasons \<Longrightarrow> observationPriority r = observationPriority r' \<Longrightarrow> r = r' \<and> d = d'"
proof -
  have "map (\<lambda>x. observationPriority (fst x)) pod_reasons = [0, 1, 2, 3, 4, 5, 6]"
    by (simp add: pod_reasons_def observationPriority_def reason_defs)
  then have "distinct (map (\<lambda>x. observationPriority (fst x)) pod_reasons)" by simp
  then have inj: "inj_on (\<lambda>x. observationPriority (fst x)) (set pod_reasons)" by (simp only: distinct_map)
  assume "(r, d) \<in> set pod_reasons" "(r', d') \<in> set pod_reasons" "observationPriority r = observationPriority r'"
  with inj_onD [OF inj, of "(r, d)" "(r', d')"] show ?thesis by simp
qed

lemma observation_key_inj:
  assumes "observation_key (observeBackendPod p) = observation_key (observeBackendPod q)"
  shows "observeBackendPod p = observeBackendPod q"
  using pod_reason_inj [OF observe_pod_reason [of p] observe_pod_reason [of q]] assms
  by (simp add: observation_key_def)

lemma observation_inj_on: "inj_on observation_key (set (map observeBackendPod ps))"
  by (auto simp: inj_on_def dest: observation_key_inj)

text \<open>Every ordering of the observations that the comparison function accepts is the same list.\<close>

lemma SortFunc_unique:
  assumes "mset xs = mset (map observeBackendPod ps)" and "sorted (map observation_key xs)"
  shows "xs = SortFunc (map observeBackendPod ps)"
proof -
  let ?obs = "map observeBackendPod ps"
  have "sort (map observation_key ?obs) = map observation_key xs"
    using assms by (intro properties_for_sort) (metis mset_map)
  moreover have "sort (map observation_key ?obs) = map observation_key (SortFunc ?obs)"
    unfolding SortFunc_def by (intro properties_for_sort) (simp_all add: multiset.map_comp)
  ultimately have "map observation_key xs = map observation_key (SortFunc ?obs)" by simp
  moreover have "inj_on observation_key (set xs \<union> set (SortFunc ?obs))"
    using observation_inj_on [of ps] mset_eq_setD [OF assms(1)] by (simp add: SortFunc_def)
  ultimately show ?thesis by (rule map_inj_on)
qed

lemma SortFunc_perm:
  "mset ps = mset qs \<Longrightarrow> SortFunc (map observeBackendPod ps) = SortFunc (map observeBackendPod qs)"
  by (intro SortFunc_unique) (simp_all add: SortFunc_def)

lemma SortFunc_head:
  assumes "SortFunc obs = ob # rest"
  shows "ob \<in> set obs \<and> (\<forall>x \<in> set obs. observation_key ob \<le> observation_key x)"
proof -
  have "set (SortFunc obs) = set obs" "sorted (map observation_key (SortFunc obs))" by (simp_all add: SortFunc_def)
  with assms show ?thesis by auto
qed

subsection \<open>Properties\<close>

text \<open>
  C30. The observation does not depend on the order in which the API server lists the pods, nor on how
  the unstable sort treats equal elements: every arrangement of the observations of the active pods
  that the comparison function accepts starts with the observation that is reported.
\<close>

theorem observation_order_independent:
  assumes "mset pods' = mset pods"
  shows "observeBackend dep pods' = observeBackend dep pods
    \<and> (\<forall>ob rest. mset (ob # rest) = mset (map observeBackendPod (filter activeBackendPod pods))
         \<and> sorted (map observation_key (ob # rest)) \<and> \<not> deploymentProgressDeadlineExceeded dep
         \<longrightarrow> observeBackend dep pods = ob)"
proof -
  have perm: "mset (filter activeBackendPod pods') = mset (filter activeBackendPod pods)" using assms by simp
  then have "filter activeBackendPod pods' = [] \<longleftrightarrow> filter activeBackendPod pods = []" by (metis mset_zero_iff)
  with SortFunc_perm [OF perm] have "observeBackend dep pods' = observeBackend dep pods"
    by (simp add: observeBackend_def Let_def)
  moreover have "observeBackend dep pods = ob" if "mset (ob # rest) = mset (map observeBackendPod (filter activeBackendPod pods))"
    "sorted (map observation_key (ob # rest))" "\<not> deploymentProgressDeadlineExceeded dep" for ob rest
    using SortFunc_unique [OF that(1,2)] that(3) by (simp add: observeBackend_def Let_def flip: SortFunc_unique [OF that(1,2)])
  ultimately show ?thesis by blast
qed

text \<open>
  The worst pod decides: with the progress deadline kept, the observation is that of an active
  pod and no active pod has a more severe one; it is degraded exactly if some active pod is. An
  exceeded deadline of a Deployment with replicas or active pods is reported above everything else,
  and without active pods nothing is degraded.
\<close>

theorem worst_pod_decides:
  "let ob = observeBackend dep pods; active = filter activeBackendPod pods;
       late = deploymentProgressDeadlineExceeded dep
         \<and> (ds_Replicas (dep_Status dep) > 0 \<or> ds_ReadyReplicas (dep_Status dep) > 0 \<or> active \<noteq> [])
   in (ob_degraded ob \<longleftrightarrow> late \<or> (\<exists>p \<in> set active. ob_degraded (observeBackendPod p)))
      \<and> (late \<longrightarrow> ob_reason ob = reasonProgressDeadlineExceeded)
      \<and> (\<not> late \<and> active \<noteq> [] \<longrightarrow> (\<exists>p \<in> set active. ob = observeBackendPod p
           \<and> (\<forall>q \<in> set active. observationPriority (ob_reason ob) \<le> observationPriority (ob_reason (observeBackendPod q)))))"
proof -
  define active where "active = filter activeBackendPod pods"
  define late where "late \<longleftrightarrow> deploymentProgressDeadlineExceeded dep
    \<and> (ds_Replicas (dep_Status dep) > 0 \<or> ds_ReadyReplicas (dep_Status dep) > 0 \<or> active \<noteq> [])"
  have def: "observeBackend dep pods = (if late then
      \<lparr>ob_reason = reasonProgressDeadlineExceeded,
       ob_message = ''Backend Deployment exceeded its progress deadline; inspect its Pods and events'', ob_degraded = True\<rparr>
      else case SortFunc (map observeBackendPod active) of ob # _ \<Rightarrow> ob
        | [] \<Rightarrow> \<lparr>ob_reason = ''Activating'', ob_message = ''Waiting for the backend Deployment to create a serving Pod'', ob_degraded = False\<rparr>)"
    by (auto simp: observeBackend_def late_def active_def Let_def)
  have deg: "ob_degraded (observeBackendPod p) \<longleftrightarrow> observationPriority (ob_reason (observeBackendPod p)) \<le> 3" for p
    using pod_reason_degraded [OF observe_pod_reason] .
  have worst: "\<exists>p \<in> set active. observeBackend dep pods = observeBackendPod p
      \<and> (\<forall>q \<in> set active. observationPriority (ob_reason (observeBackend dep pods)) \<le> observationPriority (ob_reason (observeBackendPod q)))"
    if "\<not> late" "active \<noteq> []"
  proof (cases "SortFunc (map observeBackendPod active)")
    case Nil
    then have "length (SortFunc (map observeBackendPod active)) = 0" by simp
    then show ?thesis using that(2) by (simp add: SortFunc_def)
  next
    case (Cons ob rest)
    with SortFunc_head [OF Cons] that(1) show ?thesis
      by (fastforce simp: def observation_key_def less_eq_prod_def)
  qed
  have "ob_degraded (observeBackend dep pods) \<longleftrightarrow> late \<or> (\<exists>p \<in> set active. ob_degraded (observeBackendPod p))"
  proof (cases "late \<or> active = []")
    case True
    then show ?thesis by (auto simp: def SortFunc_def)
  next
    case False
    with worst obtain p where "p \<in> set active" "observeBackend dep pods = observeBackendPod p"
      "\<forall>q \<in> set active. observationPriority (ob_reason (observeBackendPod p)) \<le> observationPriority (ob_reason (observeBackendPod q))"
      by auto
    with False show ?thesis by (auto simp: deg)
  qed
  moreover have "late \<longrightarrow> ob_reason (observeBackend dep pods) = reasonProgressDeadlineExceeded" by (simp add: def)
  ultimately show ?thesis
    unfolding Let_def active_def [symmetric] late_def [symmetric] using worst by blast
qed

text \<open>Two pods of one backend: one is loading the model, the other was killed for memory.\<close>

definition example_pod :: "string \<Rightarrow> string option \<Rightarrow> pod" where
  "example_pod name killed =
     \<lparr>pod_Meta = meta0\<lparr>om_Name := name\<rparr>, pod_Phase = ''Running'',
      pod_ContainerStatuses = [\<lparr>cst_Name = ''serving'', cst_Waiting = None, cst_Running = True, cst_Terminated = None,
        cst_LastTerminated = killed, cst_Ready = False, cst_RestartCount = 1\<rparr>],
      pod_Conditions = []\<rparr>"

definition example_live :: deployment where
  "example_live = \<lparr>dep_Meta = meta0, dep_Replicas = None, dep_Selector = [],
     dep_Template = \<lparr>pt_Labels = [], pt_Annotations = [], pt_Spec = pod0\<rparr>,
     dep_Status = \<lparr>ds_Replicas = 2, ds_ReadyReplicas = 0, ds_Conditions = []\<rparr>\<rparr>"

theorem observation_order_independent_witness:
  "observeBackend example_live [example_pod ''b'' None, example_pod ''a'' (Some ''OOMKilled'')] =
   observeBackend example_live [example_pod ''a'' (Some ''OOMKilled''), example_pod ''b'' None]"
proof -
  have "mset [example_pod ''b'' None, example_pod ''a'' (Some ''OOMKilled'')] =
      mset [example_pod ''a'' (Some ''OOMKilled''), example_pod ''b'' None]"
    by (simp only: mset.simps add_mset_commute)
  from observation_order_independent [OF this] show ?thesis by blast
qed

lemma example_pod_simps:
  "activeBackendPod (example_pod n k)" "ob_degraded (observeBackendPod (example_pod n k)) \<longleftrightarrow> k = Some ''OOMKilled''"
  by (auto simp: example_pod_def activeBackendPod_def observeBackendPod_def observe_container_def servingContainerStatus_def
      ServingContainerName_def imagePullFailed_def terminatedByOOM_def podSchedulingDelayed_def repeatedRestartThreshold_def
      reasonOOMKilled_def meta0_def Let_def)

theorem worst_pod_decides_witness:
  "ob_degraded (observeBackend example_live [example_pod ''b'' None, example_pod ''a'' (Some ''OOMKilled'')])"
  using worst_pod_decides [of example_live "[example_pod ''b'' None, example_pod ''a'' (Some ''OOMKilled'')]"]
  by (simp add: Let_def example_pod_simps)

end
