(* ===== verification/Status.thy ===== *)
theory Status
  imports Ownership Observation
begin

section \<open>Status of a service\<close>

text \<open>
  \<open>internal/controller/llmservice/status.go\<close>: the phase and the conditions the controller reports, how
  it writes them and which events it sends. client-go's \<open>RetryOnConflict\<close> repeats the update while it
  meets a conflict; its number of attempts is a parameter (\<open>DefaultRetry\<close> has five). The log lines
  are left out.
\<close>

definition conditionAutoscalingReady :: string where "conditionAutoscalingReady = ''AutoscalingReady''"
definition conditionDegraded :: string where "conditionDegraded = ''Degraded''"
definition conditionReady :: string where "conditionReady = ''Ready''"

lemma condition_types_distinct [simp]:
  "conditionAutoscalingReady \<noteq> conditionDegraded" "conditionAutoscalingReady \<noteq> conditionReady"
  "conditionDegraded \<noteq> conditionReady" "conditionDegraded \<noteq> conditionAutoscalingReady"
  "conditionReady \<noteq> conditionAutoscalingReady" "conditionReady \<noteq> conditionDegraded"
  by (simp_all add: conditionAutoscalingReady_def conditionDegraded_def conditionReady_def)

definition mk_condition :: "string \<Rightarrow> LLMService \<Rightarrow> conditionStatus \<Rightarrow> string \<Rightarrow> string \<Rightarrow> condition" where
  "mk_condition type svc status reason message =
     \<lparr>cond_Type = type, cond_Status = status, cond_Reason = reason, cond_Message = message,
      cond_ObservedGeneration = om_Generation (svc_Meta svc), cond_LastTransitionTime = 0\<rparr>"

definition set_condition :: "kube_lib \<Rightarrow> condition \<Rightarrow> LLMService \<Rightarrow> LLMService" where
  "set_condition lib c svc =
     svc\<lparr>svc_Status := (svc_Status svc)\<lparr>st_Conditions := SetStatusCondition lib (st_Conditions (svc_Status svc)) c\<rparr>\<rparr>"

definition IsConflict :: "go_error \<Rightarrow> bool" where "IsConflict e \<longleftrightarrow> err_class e = Conflict"

subsection \<open>Writing the status\<close>

text \<open>
  The closure of \<open>updateStatusWithRetry\<close>: its error and the variables it assigns, the previous status,
  whether the status changed, and the service.
\<close>

type_synonym update_vars = "LLMServiceStatus option \<times> bool \<times> LLMService"

definition update_attempt ::
  "'s LLMServiceReconciler \<Rightarrow> LLMServiceStatus \<Rightarrow> update_vars \<Rightarrow> ('s, go_error option \<times> update_vars) state" where
  "update_attempt r desired vars =
     (case vars of (previous, changed, svc) \<Rightarrow> do {
        res \<leftarrow> cl_GetLLMService (r_Client r) (svc_Namespace svc, svc_Name svc);
        (case res of
           Inl err \<Rightarrow> ret (Some err, previous, changed, svc)
         | Inr latest \<Rightarrow>
             let previous = svc_Status latest in
             if SemanticDeepEqual (r_Lib r) previous desired
             then ret (None, Some previous, changed,
                       svc\<lparr>svc_Status := desired,
                           svc_Meta := (svc_Meta svc)\<lparr>om_ResourceVersion := om_ResourceVersion (svc_Meta latest)\<rparr>\<rparr>)
             else do {
               res \<leftarrow> cl_UpdateStatus (r_Client r) (latest\<lparr>svc_Status := desired\<rparr>);
               ret (case res of
                      Inl err \<Rightarrow> (Some err, Some previous, changed, svc)
                    | Inr latest \<Rightarrow>
                        (None, Some previous, True,
                         svc\<lparr>svc_Status := svc_Status latest,
                             svc_Meta := (svc_Meta svc)\<lparr>om_ResourceVersion := om_ResourceVersion (svc_Meta latest)\<rparr>\<rparr>))
             })
      })"

fun RetryOnConflict :: "nat \<Rightarrow> ('v \<Rightarrow> ('s, go_error option \<times> 'v) state) \<Rightarrow> 'v \<Rightarrow> ('s, go_error option \<times> 'v) state" where
  "RetryOnConflict 0 fn v = ret (Some (Errorf ''timed out waiting for the condition''), v)"
| "RetryOnConflict (Suc n) fn v = do {
     (err, v) \<leftarrow> fn v;
     (case err of
        Some e \<Rightarrow> if IsConflict e \<and> n \<noteq> 0 then RetryOnConflict n fn v else ret (err, v)
      | None \<Rightarrow> ret (None, v))
   }"

definition updateStatusWithRetry ::
  "nat \<Rightarrow> 's LLMServiceReconciler \<Rightarrow> LLMService \<Rightarrow> LLMServiceStatus \<Rightarrow> ('s, go_error option \<times> update_vars) state" where
  "updateStatusWithRetry steps r svc desired = RetryOnConflict steps (update_attempt r desired) (None, False, svc)"

subsection \<open>Events\<close>

definition failure_event :: "condition \<Rightarrow> kube_event" where
  "failure_event current =
     \<lparr>ev_Type = Warning, ev_Reason = cond_Reason current, ev_Action = ''ObserveBackendFailure'', ev_Note = cond_Message current\<rparr>"

definition recovery_event :: kube_event where
  "recovery_event =
     \<lparr>ev_Type = Normal, ev_Reason = ''BackendRecovered'', ev_Action = ''ObserveBackendRecovery'', ev_Note = ''Backend activation recovered''\<rparr>"

definition reportBackendTransition ::
  "'s LLMServiceReconciler \<Rightarrow> LLMService \<Rightarrow> condition option \<Rightarrow> condition \<Rightarrow> ('s, unit) state" where
  "reportBackendTransition r svc previous current =
     (if cond_Status current = ConditionTrue
         \<and> (case previous of None \<Rightarrow> True
            | Some p \<Rightarrow> cond_Status p \<noteq> ConditionTrue \<or> cond_Reason p \<noteq> cond_Reason current)
      then if r_Recorder r then cl_Eventf (r_Client r) svc (failure_event current) else ret ()
      else if (case previous of None \<Rightarrow> False
               | Some p \<Rightarrow> cond_Status p = ConditionTrue \<and> cond_Status current \<noteq> ConditionTrue)
      then if r_Recorder r then cl_Eventf (r_Client r) svc recovery_event else ret ()
      else ret ())"

subsection \<open>The observed status\<close>

definition observed_phase :: "LLMService \<Rightarrow> deployment \<Rightarrow> pod list \<Rightarrow> LLMServicePhase" where
  "observed_phase svc dep pods =
     (if ds_ReadyReplicas (dep_Status dep) > 0 then PhaseReady
      else if ob_degraded (observeBackend dep pods) then PhaseDegraded
      else if ds_Replicas (dep_Status dep) > 0 \<or> hasActiveBackendPod pods then PhaseLoading
      else if sc_Min (sp_Scaling (svc_Spec svc)) = 0 then PhaseScaledToZero
      else PhasePending)"

definition ready_condition :: "LLMService \<Rightarrow> LLMServicePhase \<Rightarrow> backendObservation \<Rightarrow> condition" where
  "ready_condition svc phase ob =
     (case phase of
        PhaseReady \<Rightarrow> mk_condition conditionReady svc ConditionTrue ''Available'' ''Serving pods are ready''
      | PhaseScaledToZero \<Rightarrow> mk_condition conditionReady svc ConditionFalse ''ScaledToZero'' ''Backend is scaled to zero''
      | PhaseLoading \<Rightarrow> mk_condition conditionReady svc ConditionFalse (ob_reason ob) (ob_message ob)
      | PhaseDegraded \<Rightarrow> mk_condition conditionReady svc ConditionFalse (ob_reason ob) (ob_message ob)
      | _ \<Rightarrow> mk_condition conditionReady svc ConditionFalse ''Pending'' ''Waiting for the backend Deployment'')"

definition degraded_condition :: "LLMService \<Rightarrow> LLMServicePhase \<Rightarrow> backendObservation \<Rightarrow> condition" where
  "degraded_condition svc phase ob =
     (if ob_degraded ob then mk_condition conditionDegraded svc ConditionTrue (ob_reason ob) (ob_message ob)
      else if phase = PhaseScaledToZero
      then mk_condition conditionDegraded svc ConditionFalse ''Inactive'' ''Backend is scaled to zero and has no observed activation failure''
      else if phase = PhaseReady
      then mk_condition conditionDegraded svc ConditionFalse ''Healthy'' ''No backend activation failure is observed''
      else mk_condition conditionDegraded svc ConditionFalse ''Progressing'' ''Backend activation is progressing without an observed failure'')"

definition autoscaling_ready :: "LLMService \<Rightarrow> condition" where
  "autoscaling_ready svc =
     mk_condition conditionAutoscalingReady svc ConditionTrue ''ScaledObjectApplied'' ''KEDA External Push autoscaling is configured''"

text \<open>The service with the status that \<open>updateStatus\<close> assigns before it writes.\<close>

definition observed_service :: "kube_lib \<Rightarrow> LLMService \<Rightarrow> string \<Rightarrow> deployment \<Rightarrow> pod list \<Rightarrow> LLMService" where
  "observed_service lib svc runtimeName dep pods =
     (let ob = observeBackend dep pods; phase = observed_phase svc dep pods;
          svc = svc\<lparr>svc_Status := (svc_Status svc)\<lparr>st_Phase := phase, st_ResolvedRuntime := runtimeName,
                  st_Replicas := ds_ReadyReplicas (dep_Status dep),
                  st_EndpointURL := ''http://'' @ svc_Name svc @ ''.'' @ svc_Namespace svc @ ''.svc/v1''\<rparr>\<rparr>;
          svc = set_condition lib (autoscaling_ready svc) svc;
          svc = set_condition lib (ready_condition svc phase ob) svc
      in set_condition lib (degraded_condition svc phase ob) svc)"

definition updateStatus ::
  "nat \<Rightarrow> 's LLMServiceReconciler \<Rightarrow> LLMService \<Rightarrow> string \<Rightarrow> deployment \<Rightarrow> pod list \<Rightarrow> ('s, go_error option) state" where
  "updateStatus steps r svc runtimeName dep pods =
     (let ob = observeBackend dep pods; phase = observed_phase svc dep pods;
          degraded = degraded_condition svc phase ob;
          svc = observed_service (r_Lib r) svc runtimeName dep pods
      in do {
        (err, previous, changed, svc) \<leftarrow> updateStatusWithRetry steps r svc (svc_Status svc);
        (case err of
           Some e \<Rightarrow> ret (Some e)
         | None \<Rightarrow>
             if changed then do {
               _ \<leftarrow> reportBackendTransition r svc
                 (Option.bind previous (\<lambda>st. FindStatusCondition (r_Lib r) (st_Conditions st) conditionDegraded)) degraded;
               ret None
             } else ret None)
      })"

subsection \<open>Failures\<close>

definition failed_service :: "kube_lib \<Rightarrow> LLMService \<Rightarrow> string \<Rightarrow> go_error \<Rightarrow> bool \<Rightarrow> LLMService" where
  "failed_service lib svc reason err autoscalingApplied =
     (let svc = svc\<lparr>svc_Status := (svc_Status svc)\<lparr>st_Phase := PhaseDegraded\<rparr>\<rparr>;
          svc = set_condition lib (if autoscalingApplied then autoscaling_ready svc
                  else mk_condition conditionAutoscalingReady svc ConditionFalse reason (err_text err)) svc;
          svc = set_condition lib (mk_condition conditionReady svc ConditionFalse reason (err_text err)) svc
      in set_condition lib (mk_condition conditionDegraded svc ConditionTrue reason (err_text err)) svc)"

definition failWithAutoscaling ::
  "nat \<Rightarrow> 's LLMServiceReconciler \<Rightarrow> LLMService \<Rightarrow> string \<Rightarrow> go_error \<Rightarrow> bool \<Rightarrow> ('s, go_error option) state" where
  "failWithAutoscaling steps r svc reason err autoscalingApplied =
     (let svc = failed_service (r_Lib r) svc reason err autoscalingApplied in do {
        (updateErr, _) \<leftarrow> updateStatusWithRetry steps r svc (svc_Status svc);
        ret (case updateErr of Some e \<Rightarrow> Some e | None \<Rightarrow> Some err)
      })"

definition fail :: "nat \<Rightarrow> 's LLMServiceReconciler \<Rightarrow> LLMService \<Rightarrow> string \<Rightarrow> go_error \<Rightarrow> ('s, go_error option) state" where
  "fail steps r svc reason err = failWithAutoscaling steps r svc reason err False"

definition failAfterAutoscaling ::
  "nat \<Rightarrow> 's LLMServiceReconciler \<Rightarrow> LLMService \<Rightarrow> string \<Rightarrow> go_error \<Rightarrow> ('s, go_error option) state" where
  "failAfterAutoscaling steps r svc reason err = failWithAutoscaling steps r svc reason err True"

subsection \<open>Conditions\<close>

lemma condition_lawD:
  assumes "condition_law lib"
  shows "t \<noteq> cond_Type c \<Longrightarrow> FindStatusCondition lib (SetStatusCondition lib cs c) t = FindStatusCondition lib cs t"
    and "\<exists>c'. FindStatusCondition lib (SetStatusCondition lib cs c) (cond_Type c) = Some c' \<and> same_condition c' c"
  using assms unfolding condition_law_def by metis+

text \<open>The condition of a type in a status, and that it is a given one but for its time.\<close>

definition has_condition :: "kube_lib \<Rightarrow> LLMService \<Rightarrow> condition \<Rightarrow> bool" where
  "has_condition lib svc c \<longleftrightarrow>
     (case FindStatusCondition lib (st_Conditions (svc_Status svc)) (cond_Type c) of
        Some c' \<Rightarrow> same_condition c' c
      | None \<Rightarrow> False)"

lemma has_condition_set: "condition_law lib \<Longrightarrow> has_condition lib (set_condition lib c svc) c"
  using condition_lawD(2) [of lib "st_Conditions (svc_Status svc)" c]
  by (auto simp: has_condition_def set_condition_def)

lemma has_condition_other:
  "condition_law lib \<Longrightarrow> cond_Type c \<noteq> cond_Type d \<Longrightarrow> has_condition lib svc c \<Longrightarrow> has_condition lib (set_condition lib d svc) c"
  by (simp add: has_condition_def set_condition_def condition_lawD(1))

lemma set_condition_simps [simp]:
  "svc_Meta (set_condition lib c svc) = svc_Meta svc" "svc_Spec (set_condition lib c svc) = svc_Spec svc"
  "st_Phase (svc_Status (set_condition lib c svc)) = st_Phase (svc_Status svc)"
  "st_ResolvedRuntime (svc_Status (set_condition lib c svc)) = st_ResolvedRuntime (svc_Status svc)"
  "st_Replicas (svc_Status (set_condition lib c svc)) = st_Replicas (svc_Status svc)"
  by (simp_all add: set_condition_def)

lemma mk_condition_simps [simp]:
  "cond_Type (mk_condition t svc st re me) = t" "cond_Status (mk_condition t svc st re me) = st"
  "cond_Reason (mk_condition t svc st re me) = re"
  "cond_ObservedGeneration (mk_condition t svc st re me) = om_Generation (svc_Meta svc)"
  by (simp_all add: mk_condition_def)

lemma condition_cong:
  assumes "svc_Meta a = svc_Meta b"
  shows "mk_condition t a st re me = mk_condition t b st re me" "autoscaling_ready a = autoscaling_ready b"
    "ready_condition a ph ob = ready_condition b ph ob" "degraded_condition a ph ob = degraded_condition b ph ob"
  using assms
  by (simp_all add: mk_condition_def autoscaling_ready_def ready_condition_def degraded_condition_def
      split: LLMServicePhase.split)

lemma condition_types [simp]:
  "cond_Type (autoscaling_ready svc) = conditionAutoscalingReady"
  "cond_Type (ready_condition svc ph ob) = conditionReady" "cond_Type (degraded_condition svc ph ob) = conditionDegraded"
  by (simp_all add: autoscaling_ready_def ready_condition_def degraded_condition_def split: LLMServicePhase.split)

lemma ready_condition_status: "cond_Status (ready_condition svc ph ob) = (if ph = PhaseReady then ConditionTrue else ConditionFalse)"
  by (simp add: ready_condition_def split: LLMServicePhase.split)

lemma degraded_condition_status: "cond_Status (degraded_condition svc ph ob) = (if ob_degraded ob then ConditionTrue else ConditionFalse)"
  by (simp add: degraded_condition_def)

lemma observed_service_conditions:
  fixes svc :: LLMService and dep :: deployment and pods :: "pod list"
  assumes "condition_law lib"
  defines "ob \<equiv> observeBackend dep pods" and "ph \<equiv> observed_phase svc dep pods"
  shows "has_condition lib (observed_service lib svc rn dep pods) (autoscaling_ready svc)
    \<and> has_condition lib (observed_service lib svc rn dep pods) (ready_condition svc ph ob)
    \<and> has_condition lib (observed_service lib svc rn dep pods) (degraded_condition svc ph ob)"
proof -
  define s0 where "s0 = svc\<lparr>svc_Status := (svc_Status svc)\<lparr>st_Phase := ph, st_ResolvedRuntime := rn,
      st_Replicas := ds_ReadyReplicas (dep_Status dep), st_EndpointURL := ''http://'' @ svc_Name svc @ ''.'' @ svc_Namespace svc @ ''.svc/v1''\<rparr>\<rparr>"
  have m: "svc_Meta s0 = svc_Meta svc" by (simp add: s0_def)
  have "observed_service lib svc rn dep pods =
      set_condition lib (degraded_condition svc ph ob) (set_condition lib (ready_condition svc ph ob)
        (set_condition lib (autoscaling_ready svc) s0))"
    unfolding observed_service_def Let_def ob_def [symmetric] ph_def [symmetric] s0_def [symmetric]
    using condition_cong [of s0 svc] condition_cong [of "set_condition lib (autoscaling_ready svc) s0" svc]
      condition_cong [of "set_condition lib (ready_condition svc ph ob) (set_condition lib (autoscaling_ready svc) s0)" svc] m
    by simp
  then show ?thesis using assms(1) by (simp add: has_condition_set has_condition_other)
qed

text \<open>
  C16. The reported status agrees with what is observed and with itself: the service is \<open>Ready\<close> exactly
  with a ready replica, \<open>Degraded\<close> only with an observed failure and no ready replica, \<open>ScaledToZero\<close> only
  when the backend has neither replicas nor active pods and the minimum is zero; the condition
  \<open>Ready\<close> is true exactly in the phase \<open>Ready\<close>, the condition \<open>Degraded\<close> exactly for an observed failure,
  also beside a ready replica, and both are of the current generation.
\<close>

theorem status_consistent:
  assumes "condition_law lib"
  shows "let svc' = observed_service lib svc rn dep pods; st = svc_Status svc'; fails = ob_degraded (observeBackend dep pods);
             cond = (\<lambda>t b. \<exists>c. FindStatusCondition lib (st_Conditions st) t = Some c
               \<and> cond_Status c = (if b then ConditionTrue else ConditionFalse) \<and> cond_ObservedGeneration c = om_Generation (svc_Meta svc))
         in (st_Phase st = PhaseReady \<longleftrightarrow> ds_ReadyReplicas (dep_Status dep) > 0)
          \<and> (st_Phase st = PhaseDegraded \<longleftrightarrow> fails \<and> ds_ReadyReplicas (dep_Status dep) \<le> 0)
          \<and> (st_Phase st = PhaseScaledToZero \<longrightarrow> ds_Replicas (dep_Status dep) \<le> 0 \<and> \<not> hasActiveBackendPod pods \<and> sc_Min (sp_Scaling (svc_Spec svc)) = 0)
          \<and> cond conditionAutoscalingReady True \<and> cond conditionReady (st_Phase st = PhaseReady) \<and> cond conditionDegraded fails
          \<and> st_ResolvedRuntime st = rn \<and> st_Replicas st = ds_ReadyReplicas (dep_Status dep)"
proof -
  let ?s = "observed_service lib svc rn dep pods"
  let ?ph = "observed_phase svc dep pods" and ?ob = "observeBackend dep pods"
  have ph: "st_Phase (svc_Status ?s) = ?ph" "st_ResolvedRuntime (svc_Status ?s) = rn"
    "st_Replicas (svc_Status ?s) = ds_ReadyReplicas (dep_Status dep)"
    by (simp_all add: observed_service_def Let_def)
  have find: "\<exists>c'. FindStatusCondition lib (st_Conditions (svc_Status ?s)) (cond_Type c) = Some c'
      \<and> cond_Status c' = cond_Status c \<and> cond_ObservedGeneration c' = cond_ObservedGeneration c" if "has_condition lib ?s c" for c
    using that by (auto simp: has_condition_def same_condition_def split: option.splits)
  have gen: "cond_ObservedGeneration (ready_condition svc ?ph ?ob) = om_Generation (svc_Meta svc)"
    "cond_ObservedGeneration (degraded_condition svc ?ph ?ob) = om_Generation (svc_Meta svc)"
    "cond_ObservedGeneration (autoscaling_ready svc) = om_Generation (svc_Meta svc)"
    "cond_Status (autoscaling_ready svc) = ConditionTrue"
    by (simp_all add: ready_condition_def degraded_condition_def autoscaling_ready_def split: LLMServicePhase.split)
  note C = observed_service_conditions [OF assms, of svc rn dep pods]
  have phases: "(?ph = PhaseReady \<longleftrightarrow> ds_ReadyReplicas (dep_Status dep) > 0)
      \<and> (?ph = PhaseDegraded \<longleftrightarrow> ob_degraded ?ob \<and> ds_ReadyReplicas (dep_Status dep) \<le> 0)
      \<and> (?ph = PhaseScaledToZero \<longrightarrow> ds_Replicas (dep_Status dep) \<le> 0 \<and> \<not> hasActiveBackendPod pods \<and> sc_Min (sp_Scaling (svc_Spec svc)) = 0)"
    by (auto simp: observed_phase_def)
  show ?thesis
    unfolding Let_def ph using phases C find [of "autoscaling_ready svc"] find [of "ready_condition svc ?ph ?ob"]
      find [of "degraded_condition svc ?ph ?ob"] by (simp add: gen ready_condition_status degraded_condition_status)
qed

theorem status_consistent_witness:
  "st_Phase (svc_Status (observed_service memory_lib example_svc ''vllm'' example_live [example_pod ''a'' (Some ''OOMKilled'')])) = PhaseDegraded"
proof -
  have deg: "ob_degraded (observeBackend example_live [example_pod ''a'' (Some ''OOMKilled'')])"
    by (simp add: observeBackend_def deploymentProgressDeadlineExceeded_def example_live_def example_pod_simps SortFunc_def Let_def)
  have "ds_ReadyReplicas (dep_Status example_live) \<le> 0" by (simp add: example_live_def)
  with status_consistent [OF memory_condition_law, of example_svc "''vllm''" example_live "[example_pod ''a'' (Some ''OOMKilled'')]"] deg
  show ?thesis by (simp add: Let_def)
qed

subsection \<open>Retries\<close>

definition is_write :: "LLMServiceStatus \<Rightarrow> api_call \<times> go_error option \<Rightarrow> bool" where
  "is_write desired entry \<longleftrightarrow> (\<exists>x. fst entry = StatusUpdated x \<and> svc_Status x = desired)"

definition conflicted :: "api_call \<times> go_error option \<Rightarrow> bool" where
  "conflicted entry \<longleftrightarrow> (\<exists>e. snd entry = Some e \<and> IsConflict e)"

text \<open>An attempt writes at most once, and its error is the outcome of the write.\<close>

lemma update_attempt_log:
  assumes "run_state (update_attempt (recording r) desired (pv, False, svc)) (s, l0) = ((err, pv', ch', svc'), s', l1)"
  obtains "l1 = l0" and "\<not> ch'"
  | entry where "l1 = l0 @ [entry]" and "is_write desired entry" and "snd entry = err" and "ch' \<longleftrightarrow> err = None"
  using assms
  by (auto simp: update_attempt_def is_write_def sum_error_def Let_def split: prod.splits sum.splits if_splits)

lemma retry_log:
  "run_state (RetryOnConflict n (update_attempt (recording r) desired) (pv, False, svc)) (s, l0) = ((err, pv', ch', svc'), s', l1) \<Longrightarrow>
   \<exists>l. l1 = l0 @ l \<and> length l \<le> n \<and> list_all (is_write desired) l \<and> list_all conflicted (butlast l)
     \<and> (ch' \<longleftrightarrow> l \<noteq> [] \<and> snd (last l) = None) \<and> (l \<noteq> [] \<and> \<not> conflicted (last l) \<longrightarrow> snd (last l) = err)"
proof (induction n arbitrary: pv svc s l0)
  case (Suc n)
  obtain err1 pv1 ch1 svc1 s1 m1 where a:
    "run_state (update_attempt (recording r) desired (pv, False, svc)) (s, l0) = ((err1, pv1, ch1, svc1), s1, m1)"
    by (metis prod.exhaust)
  obtain la where la: "m1 = l0 @ la" "length la \<le> 1" "list_all (is_write desired) la" "\<forall>x \<in> set la. snd x = err1"
    "ch1 \<longleftrightarrow> la \<noteq> [] \<and> err1 = None"
  proof (rule update_attempt_log [OF a], goal_cases)
    case 1
    then show ?thesis using that [of "[]"] by simp
  next
    case (2 entry)
    then show ?thesis using that [of "[entry]"] by simp
  qed
  show ?case
  proof (cases "\<exists>e. err1 = Some e \<and> IsConflict e \<and> n \<noteq> 0")
    case True
    then have "\<not> ch1" using la(5) by auto
    then have "run_state (RetryOnConflict n (update_attempt (recording r) desired) (pv1, False, svc1)) (s1, m1) = ((err, pv', ch', svc'), s', l1)"
      using Suc.prems a True by auto
    from Suc.IH [OF this] obtain lb where lb: "l1 = m1 @ lb" "length lb \<le> n" "list_all (is_write desired) lb"
      "list_all conflicted (butlast lb)" "ch' \<longleftrightarrow> lb \<noteq> [] \<and> snd (last lb) = None"
      "lb \<noteq> [] \<and> \<not> conflicted (last lb) \<longrightarrow> snd (last lb) = err" by blast
    have "list_all conflicted la" using la(4) True by (auto simp: conflicted_def list_all_iff)
    then show ?thesis
      using la lb True by (intro exI [of _ "la @ lb"]) (cases "lb = []"; cases la; auto simp: butlast_append list_all_iff)
  next
    case False
    then have "(err, pv', ch', svc') = (err1, pv1, ch1, svc1)" "l1 = m1"
      using Suc.prems a by (auto split: option.splits if_splits)
    then show ?thesis using la by (intro exI [of _ la]) (cases la; auto)
  qed
qed auto

text \<open>
  Writing a status terminates and never overwrites blindly: the update makes at most the allowed
  number of attempts, every write carries exactly the desired status on the object read just before it,
  all writes but the last met a conflict, the status counts as changed exactly if the last write was
  accepted, and otherwise the error of that write is returned.
\<close>

theorem status_retry_bounded:
  assumes "run_state (updateStatusWithRetry steps (recording r) svc desired) (s, []) = ((err, previous, changed, svc'), s', l)"
  shows "length l \<le> steps \<and> list_all (is_write desired) l \<and> list_all conflicted (butlast l)
    \<and> (changed \<longleftrightarrow> l \<noteq> [] \<and> snd (last l) = None)
    \<and> (l \<noteq> [] \<and> \<not> conflicted (last l) \<longrightarrow> snd (last l) = err)"
  using retry_log [OF assms [unfolded updateStatusWithRetry_def]] by auto

definition memory_reconciler :: "memory LLMServiceReconciler" where
  "memory_reconciler =
     \<lparr>r_Client = memory_client, r_Lib = memory_lib, r_Backends = registry_New plain_text, r_GatewayImage = ''gw:1'',
      r_GatewayReplicas = 3, r_Recorder = True\<rparr>"

definition example_memory :: memory where
  "example_memory = \<lparr>mem_services = [example_svc], mem_runtimes = [example_rt], mem_objects = [], mem_pods = [], mem_events = []\<rparr>"

theorem status_retry_bounded_witness:
  "\<exists>err previous changed svc' s' l.
     run_state (updateStatusWithRetry 5 (recording memory_reconciler) example_svc ((svc_Status example_svc)\<lparr>st_Phase := PhaseReady\<rparr>))
       (example_memory, []) = ((err, previous, changed, svc'), s', l)
     \<and> changed \<and> length l \<le> 5"
proof -
  have ne: "(svc_Status example_svc)\<lparr>st_Phase := PhaseReady\<rparr> \<noteq> svc_Status example_svc" by (simp add: example_svc_def)
  obtain err previous changed svc' s' l where run:
    "run_state (updateStatusWithRetry 5 (recording memory_reconciler) example_svc ((svc_Status example_svc)\<lparr>st_Phase := PhaseReady\<rparr>))
       (example_memory, []) = ((err, previous, changed, svc'), s', l)" by (metis prod.exhaust)
  moreover have changed
    using run ne
    by (auto simp: updateStatusWithRetry_def update_attempt_def memory_reconciler_def memory_client_def memory_lib_def
        example_memory_def or_not_found_def Let_def eval_nat_numeral)
  ultimately show ?thesis using status_retry_bounded [OF run] by blast
qed

subsection \<open>Events\<close>

text \<open>
  A failure of the backend is reported once: given the status that was written for an earlier
  observation, an update with a new observation sends a warning exactly if it is a failure of another
  class than the one recorded or the first one, sends the recovery exactly when a recorded failure is
  gone, and is silent otherwise.
\<close>

theorem failure_reported_once:
  assumes "condition_law (r_Lib r)" and "r_Recorder r"
    and "observeBackend dep pods = ob" and "observeBackend dep' pods' = ob'"
  shows "reportBackendTransition r svc'
      (FindStatusCondition (r_Lib r) (st_Conditions (svc_Status (observed_service (r_Lib r) svc rn dep pods))) conditionDegraded)
      (degraded_condition svc' (observed_phase svc' dep' pods') ob') =
    (if ob_degraded ob' \<and> \<not> (ob_degraded ob \<and> ob_reason ob = ob_reason ob')
     then cl_Eventf (r_Client r) svc'
       \<lparr>ev_Type = Warning, ev_Reason = ob_reason ob', ev_Action = ''ObserveBackendFailure'', ev_Note = ob_message ob'\<rparr>
     else if ob_degraded ob \<and> \<not> ob_degraded ob' then cl_Eventf (r_Client r) svc' recovery_event
     else ret ())"
proof -
  let ?d = "degraded_condition svc (observed_phase svc dep pods) ob"
  have "has_condition (r_Lib r) (observed_service (r_Lib r) svc rn dep pods) ?d"
    using observed_service_conditions [OF assms(1), of svc rn dep pods] assms(3) by simp
  then obtain c where c: "FindStatusCondition (r_Lib r) (st_Conditions (svc_Status (observed_service (r_Lib r) svc rn dep pods))) conditionDegraded = Some c"
    "same_condition c ?d"
    by (auto simp: has_condition_def split: option.splits)
  then have st: "cond_Status c = (if ob_degraded ob then ConditionTrue else ConditionFalse)"
    "ob_degraded ob \<Longrightarrow> cond_Reason c = ob_reason ob"
    by (simp_all add: same_condition_def degraded_condition_status) (simp add: degraded_condition_def)
  have st': "ob_degraded ob' \<Longrightarrow> degraded_condition svc' p ob' = mk_condition conditionDegraded svc' ConditionTrue (ob_reason ob') (ob_message ob')" for p
    by (simp add: degraded_condition_def)
  show ?thesis
    using st st' assms(2) unfolding c(1)
    by (auto simp: reportBackendTransition_def degraded_condition_status failure_event_def mk_condition_def)
qed

theorem failure_reported_once_witness:
  "\<exists>ob. observeBackend example_live [example_pod ''a'' (Some ''OOMKilled'')] = ob \<and> ob_degraded ob \<and>
     reportBackendTransition memory_reconciler example_svc
       (FindStatusCondition memory_lib (st_Conditions (svc_Status (observed_service memory_lib example_svc ''vllm'' example_live
          [example_pod ''a'' (Some ''OOMKilled'')]))) conditionDegraded)
       (degraded_condition example_svc (observed_phase example_svc example_live [example_pod ''a'' (Some ''OOMKilled'')]) ob) = ret ()"
proof -
  let ?ob = "observeBackend example_live [example_pod ''a'' (Some ''OOMKilled'')]"
  have deg: "ob_degraded ?ob"
    by (simp add: observeBackend_def deploymentProgressDeadlineExceeded_def example_live_def example_pod_simps SortFunc_def Let_def)
  have lib: "r_Lib memory_reconciler = memory_lib" "r_Recorder memory_reconciler" by (simp_all add: memory_reconciler_def)
  from failure_reported_once [of memory_reconciler, unfolded lib(1), OF memory_condition_law lib(2) refl refl] deg
  show ?thesis by simp
qed

end
