(* ===== verification/Lifecycle.thy ===== *)
theory Lifecycle
  imports Autoscaling Status
begin

section \<open>Rendering and applying the resources of a service\<close>

text \<open>
  \<open>internal/controller/llmservice/lifecycle.go\<close>: all resources of a service are rendered before the
  first one is written, then applied in a fixed order with the autoscaler first. The parameters of the
  builders are collected in \<open>build_env\<close>. \<open>on_error\<close> is the Go idiom of an early return on an error.
\<close>

record build_env =
  be_digest :: spec_digest
  be_duration :: "duration \<Rightarrow> string"
  be_rand :: "string + string"
  be_dns :: "string \<Rightarrow> bool"
  be_steps :: nat

record desiredResources =
  d_scaledObject :: scaledObject
  d_backendDeployment :: deployment
  d_backendService :: service
  d_gatewayDeployment :: deployment
  d_gatewayService :: service
  d_gatewayPDB :: "podDisruptionBudget option"
  d_scalerDeployment :: "deployment option"
  d_scalerService :: service
  d_cachePVC :: "persistentVolumeClaim option"
  d_prewarmJob :: "job option"
  d_demandSecret :: "secret option"

definition renderDesired ::
  "build_env \<Rightarrow> 's LLMServiceReconciler \<Rightarrow> LLMService \<Rightarrow> InferenceRuntime \<Rightarrow> BackendAdapter \<Rightarrow> ResolvedModel \<Rightarrow>
     (string \<times> string) + desiredResources" where
  "renderDesired be r svc rt adapter model =
     (case BuildScaledObject svc of
        Inl err \<Rightarrow> Inl (''ScaledObject'', err)
      | Inr scaledObject \<Rightarrow>
     (case BuildBackendDeployment (be_digest be) adapter svc rt model of
        Inl err \<Rightarrow> Inl (''Render'', err)
      | Inr backendDeployment \<Rightarrow>
     (case BuildGatewayDeployment (be_duration be) svc (r_GatewayImage r) (r_GatewayReplicas r) of
        Inl err \<Rightarrow> Inl (''GatewayConfig'', err)
      | Inr gatewayDeployment \<Rightarrow>
     (case BuildCachePVC (be_digest be) svc of
        Inl err \<Rightarrow> Inl (''Cache'', err)
      | Inr pvc \<Rightarrow>
     (case BuildPrewarmJob (be_digest be) svc rt model of
        Inl err \<Rightarrow> Inl (''Prewarm'', err)
      | Inr prewarmJob \<Rightarrow>
     (case BuildDemandAuthSecret (be_rand be) svc (r_GatewayReplicas r) of
        Inl err \<Rightarrow> Inl (''DemandAuthentication'', err)
      | Inr demandSecret \<Rightarrow>
          Inr \<lparr>d_scaledObject = scaledObject, d_backendDeployment = backendDeployment,
               d_backendService = BuildBackendService svc rt, d_gatewayDeployment = gatewayDeployment,
               d_gatewayService = BuildGatewayService svc,
               d_gatewayPDB = BuildGatewayPodDisruptionBudget svc (r_GatewayReplicas r),
               d_scalerDeployment = BuildGatewayScalerDeployment svc (r_GatewayImage r) (r_GatewayReplicas r),
               d_scalerService = BuildGatewayScalerService svc (r_GatewayReplicas r), d_cachePVC = pvc,
               d_prewarmJob = prewarmJob, d_demandSecret = demandSecret\<rparr>))))))"

type_synonym apply_result = "string \<times> bool \<times> go_error option"

definition on_error ::
  "('s, go_error option) state \<Rightarrow> (go_error \<Rightarrow> 'r) \<Rightarrow> ('s, 'r) state \<Rightarrow> ('s, 'r) state" where
  "on_error act failed rest = do { err \<leftarrow> act; (case err of Some e \<Rightarrow> ret (failed e) | None \<Rightarrow> rest) }"

definition created :: "('s, go_error + kobject) state \<Rightarrow> ('s, go_error option) state" where
  "created act = do { res \<leftarrow> act; ret (sum_error res) }"

text \<open>The variable that \<open>ensureCreated\<close> overwrites has the type of a Secret.\<close>

definition as_secret :: "secret \<Rightarrow> kobject \<Rightarrow> secret" where
  "as_secret want obj = (case obj of KSecret found \<Rightarrow> found | _ \<Rightarrow> want)"

definition deleteObsoleteScaler :: "'s LLMServiceReconciler \<Rightarrow> LLMService \<Rightarrow> ('s, string \<times> go_error option) state" where
  "deleteObsoleteScaler r svc =
     on_error (deleteOwned r svc DeploymentKind (svc_Namespace svc, GatewayScalerServiceName svc)) (\<lambda>e. (''DeleteGatewayScaler'', Some e))
    (on_error (deleteOwned r svc SecretKind (svc_Namespace svc, DemandAuthSecretName svc)) (\<lambda>e. (''DeleteDemandAuthentication'', Some e))
    (ret ([], None)))"

definition ensure_secret ::
  "'s LLMServiceReconciler \<Rightarrow> LLMService \<Rightarrow> secret option \<Rightarrow> ('s, apply_result) state \<Rightarrow> ('s, apply_result) state" where
  "ensure_secret r svc demandSecret rest =
     (case demandSecret of
        None \<Rightarrow> rest
      | Some sec \<Rightarrow> do {
          res \<leftarrow> ensureCreated r svc (KSecret sec);
          (case res of
             Inl e \<Rightarrow> ret (''ApplyDemandAuthentication'', True, Some e)
           | Inr obj \<Rightarrow>
               (case ValidateDemandAuthSecret (as_secret sec obj) of
                  Some e \<Rightarrow> ret (''DemandAuthentication'', True, Some (Errorf e))
                | None \<Rightarrow> rest))
        })"

definition ensure_optional ::
  "'s LLMServiceReconciler \<Rightarrow> LLMService \<Rightarrow> string \<Rightarrow> kobject option \<Rightarrow> ('s, apply_result) state \<Rightarrow> ('s, apply_result) state" where
  "ensure_optional r svc reason obj rest =
     (case obj of
        None \<Rightarrow> rest
      | Some obj \<Rightarrow> on_error (created (ensureCreated r svc obj)) (\<lambda>e. (reason, True, Some e)) rest)"

definition apply_pdb ::
  "'s LLMServiceReconciler \<Rightarrow> LLMService \<Rightarrow> podDisruptionBudget option \<Rightarrow> ('s, apply_result) state \<Rightarrow> ('s, apply_result) state" where
  "apply_pdb r svc pdb rest =
     (case pdb of
        Some p \<Rightarrow> on_error (apply_object r svc (KPodDisruptionBudget p)) (\<lambda>e. (''ApplyGatewayPodDisruptionBudget'', True, Some e)) rest
      | None \<Rightarrow>
          on_error (deleteOwned r svc PodDisruptionBudgetKind (svc_Namespace svc, svc_Name svc @ ''-gateway''))
            (\<lambda>e. (''DeleteGatewayPodDisruptionBudget'', True, Some e)) rest)"

definition apply_scaler ::
  "'s LLMServiceReconciler \<Rightarrow> LLMService \<Rightarrow> deployment option \<Rightarrow> ('s, apply_result) state \<Rightarrow> ('s, apply_result) state" where
  "apply_scaler r svc scalerDeployment rest =
     (case scalerDeployment of
        Some d \<Rightarrow> on_error (apply_object r svc (KDeployment d)) (\<lambda>e. (''ApplyGatewayScaler'', True, Some e)) rest
      | None \<Rightarrow> rest)"

definition delete_scaler ::
  "'s LLMServiceReconciler \<Rightarrow> LLMService \<Rightarrow> deployment option \<Rightarrow> ('s, apply_result) state" where
  "delete_scaler r svc scalerDeployment =
     (case scalerDeployment of
        Some _ \<Rightarrow> ret ([], True, None)
      | None \<Rightarrow> do {
          (reason, err) \<leftarrow> deleteObsoleteScaler r svc;
          ret (case err of Some e \<Rightarrow> (reason, True, Some e) | None \<Rightarrow> ([], True, None))
        })"

definition apply_workloads :: "'s LLMServiceReconciler \<Rightarrow> LLMService \<Rightarrow> desiredResources \<Rightarrow> ('s, apply_result) state" where
  "apply_workloads r svc desired =
     on_error (apply_object r svc (KDeployment (d_backendDeployment desired))) (\<lambda>e. (''ApplyDeployment'', True, Some e))
    (on_error (apply_object r svc (KService (d_backendService desired))) (\<lambda>e. (''ApplyBackendService'', True, Some e))
    (on_error (apply_object r svc (KDeployment (d_gatewayDeployment desired))) (\<lambda>e. (''ApplyGateway'', True, Some e))
    (on_error (apply_object r svc (KService (d_gatewayService desired))) (\<lambda>e. (''ApplyGatewayService'', True, Some e))
    (apply_pdb r svc (d_gatewayPDB desired)
    (apply_scaler r svc (d_scalerDeployment desired)
    (on_error (apply_object r svc (KService (d_scalerService desired))) (\<lambda>e. (''ApplyGatewayScalerService'', True, Some e))
    (delete_scaler r svc (d_scalerDeployment desired))))))))"

definition IsNoMatchError :: "go_error \<Rightarrow> bool" where "IsNoMatchError e \<longleftrightarrow> err_class e = NoMatch"

definition applyDesired :: "'s LLMServiceReconciler \<Rightarrow> LLMService \<Rightarrow> desiredResources \<Rightarrow> ('s, apply_result) state" where
  "applyDesired r svc desired =
     on_error (apply_object r svc (KScaledObject (d_scaledObject desired)))
       (\<lambda>e. if IsNoMatchError e
            then (''AutoscalingUnavailable'', False,
                  Some (wrap_error ''KEDA ScaledObject CRD is required before deploying an LLMService'' e))
            else (''ApplyScaledObject'', False, Some e))
    (ensure_secret r svc (d_demandSecret desired)
    (ensure_optional r svc ''ApplyCachePVC'' (map_option KPersistentVolumeClaim (d_cachePVC desired))
    (ensure_optional r svc ''ApplyPrewarmJob'' (map_option KJob (d_prewarmJob desired))
    (apply_workloads r svc desired))))"

subsection \<open>The order of changes\<close>

text \<open>The object a call changes, and the addresses in the order in which they are visited.\<close>

fun call_address :: "api_call \<Rightarrow> (kind \<times> object_key) option" where
  "call_address (Applied obj) = Some (address obj)"
| "call_address (Created obj) = Some (address obj)"
| "call_address (Deleted obj) = Some (address obj)"
| "call_address (StatusUpdated svc) = None"
| "call_address (Recorded ev) = None"

definition owned_address :: "LLMService \<Rightarrow> kind \<times> string \<Rightarrow> kind \<times> object_key" where
  "owned_address svc = (\<lambda>(kd, suf). (kd, svc_Namespace svc, svc_Name svc @ suf))"

definition setup_plan :: "(kind \<times> string) list" where
  "setup_plan = [(PersistentVolumeClaimKind, ''-cache''), (JobKind, ''-prewarm''), (DeploymentKind, []), (ServiceKind, ''-backend''),
     (DeploymentKind, ''-gateway''), (ServiceKind, []), (PodDisruptionBudgetKind, ''-gateway'')]"

definition plan_addresses :: "LLMService \<Rightarrow> int \<Rightarrow> (kind \<times> object_key) list" where
  "plan_addresses svc replicas = map (owned_address svc)
     (if replicas > 1
      then [(ScaledObjectKind, []), (SecretKind, ''-demand-auth'')] @ setup_plan @ [(DeploymentKind, ''-scaler''), (ServiceKind, ''-scaler'')]
      else [(ScaledObjectKind, [])] @ setup_plan
        @ [(ServiceKind, ''-scaler''), (DeploymentKind, ''-scaler''), (SecretKind, ''-demand-auth'')])"

lemma plan_distinct: "distinct (plan_addresses svc replicas)"
  by (simp add: plan_addresses_def setup_plan_def owned_address_def)

text \<open>\<open>follows A f\<close>: the calls of \<open>f\<close> change objects of \<open>A\<close>, each at most once and in that order.\<close>

definition follows :: "(kind \<times> object_key) list \<Rightarrow> ('s \<times> api_log, 'r) state \<Rightarrow> bool" where
  "follows A f \<longleftrightarrow> (\<forall>s l. \<exists>l'. snd (snd (run_state f (s, l))) = l @ l' \<and> subseq (map (call_address \<circ> fst) l') (map Some A))"

lemma follows_return: "follows A (ret x)"
  by (auto simp: follows_def)

lemma follows_bind:
  assumes "follows A f" and "\<And>r. follows B (g r)"
  shows "follows (A @ B) (f \<bind> g)"
proof -
  have "\<exists>l'. snd (snd (run_state (f \<bind> g) (s, l))) = l @ l' \<and> subseq (map (call_address \<circ> fst) l') (map Some (A @ B))" for s l
  proof -
    obtain r s' l1 where f: "run_state f (s, l) = (r, s', l @ l1)" "subseq (map (call_address \<circ> fst) l1) (map Some A)"
      using assms(1) unfolding follows_def by (metis prod.collapse)
    obtain l2 where g: "snd (snd (run_state (g r) (s', l @ l1))) = (l @ l1) @ l2" "subseq (map (call_address \<circ> fst) l2) (map Some B)"
      using assms(2) [of r] unfolding follows_def by blast
    then show ?thesis using f list_emb_append_mono by (intro exI [of _ "l1 @ l2"]) (simp; blast)
  qed
  then show ?thesis by (simp add: follows_def)
qed

lemma follows_mono: "follows A f \<Longrightarrow> subseq A B \<Longrightarrow> follows B f"
  unfolding follows_def using subseq_map [of A B Some] subseq_order.trans by blast

lemma follows_read: "follows [] (passing f)"
  by (auto simp: follows_def split: prod.splits)

lemma follows_logging: "call_address call = Some a \<Longrightarrow> follows [a] (logging out call f)"
  by (auto simp: follows_def split: prod.splits)

lemma follows_on_error: "follows [a] act \<Longrightarrow> follows B rest \<Longrightarrow> follows (a # B) (on_error act failed rest)"
  unfolding on_error_def
  by (rule follows_bind [of "[a]" _ B, simplified]) (auto intro: follows_return split: option.split)

lemma follows_created: "follows A act \<Longrightarrow> follows A (created act)"
  unfolding created_def by (rule follows_bind [of A _ "[]", simplified]) (auto intro: follows_return)

lemma follows_skip: "follows A f \<Longrightarrow> follows (a # A) f"
  by (erule follows_mono) (simp add: list_emb_Cons)

lemma follows_apply:
  assumes "reference_law (r_Lib r)"
  shows "follows [address obj] (apply_object (recording r) owner obj)"
proof (cases "SetControllerReference (r_Lib r) owner obj")
  case (Inr obj1)
  show ?thesis
  proof (cases "ToUnstructured (r_Lib r) obj1")
    case (Inr obj2)
    have "address obj2 = address obj"
      using assms \<open>SetControllerReference (r_Lib r) owner obj = Inr obj1\<close> Inr unfolding reference_law_def by metis
    then show ?thesis
      using \<open>SetControllerReference (r_Lib r) owner obj = Inr obj1\<close> Inr by (simp add: apply_object_def follows_logging)
  qed (use Inr in \<open>simp add: apply_object_def follows_return\<close>)
qed (simp add: apply_object_def follows_return)

lemma follows_ensure:
  assumes "reference_law (r_Lib r)"
  shows "follows [address obj] (ensureCreated (recording r) owner obj)"
proof (cases "SetControllerReference (r_Lib r) owner obj")
  case (Inr obj1)
  have "address obj1 = address obj" using assms Inr unfolding reference_law_def by metis
  then have create: "follows [address obj] (logging sum_error (Created obj1) (cl_Create (r_Client r) obj1))"
    by (simp add: follows_logging)
  show ?thesis unfolding ensureCreated_def Let_def Inr sum.case recording_simps logged_fields
    by (rule follows_bind [OF create, of "[]", simplified])
      (auto split: sum.split intro!: follows_return follows_bind [OF follows_read, of "[]", simplified])
qed (simp add: ensureCreated_def follows_return Let_def)

lemma follows_delete:
  assumes "get_law (r_Client r)"
  shows "follows [(kd, key)] (deleteOwned (recording r) owner kd key)"
proof -
  have "\<exists>l'. snd (snd (run_state (deleteOwned (recording r) owner kd key) (s, l))) = l @ l'
      \<and> subseq (map (call_address \<circ> fst) l') [Some (kd, key)]" for s l
    using get_lawD [OF assms, of kd key s]
    by (auto simp: deleteOwned_def split: prod.splits sum.splits)
  then show ?thesis by (simp add: follows_def)
qed

subsection \<open>Rendered addresses\<close>

lemmas name_defs = ScaledObjectName_def DemandAuthSecretName_def demandAuthSecretSuffix_def CachePVCName_def PrewarmJobName_def
  BackendServiceName_def backendSvcSuffix_def GatewayServiceName_def GatewayScalerServiceName_def gatewayScalerSvcSuffix_def

lemma BuildScaledObject_address:
  "BuildScaledObject svc = Inr so \<Longrightarrow> address (KScaledObject so) = owned_address svc (ScaledObjectKind, [])"
  by (auto simp: BuildScaledObject_def Let_def address_def key_of_def owned_address_def name_defs split: if_splits option.splits)

lemma BuildBackendDeployment_address:
  "BuildBackendDeployment sd a svc rt model = Inr d \<Longrightarrow> address (KDeployment d) = owned_address svc (DeploymentKind, [])"
  by (auto simp: BuildBackendDeployment_def address_def key_of_def owned_address_def split: sum.splits)

lemma BuildGatewayDeployment_address:
  "BuildGatewayDeployment ds svc img n = Inr d \<Longrightarrow> address (KDeployment d) = owned_address svc (DeploymentKind, ''-gateway'')"
  by (auto simp: BuildGatewayDeployment_def noctaya_deployment_def address_def key_of_def owned_address_def Let_def
      split: if_splits option.splits)

lemma BuildCachePVC_address:
  "BuildCachePVC sd svc = Inr (Some p) \<Longrightarrow> address (KPersistentVolumeClaim p) = owned_address svc (PersistentVolumeClaimKind, ''-cache'')"
  by (auto simp: BuildCachePVC_def planCache_def cachePVC_def annotateCreateOnce_def artifacts0_def address_def key_of_def
      owned_address_def name_defs Let_def split: if_splits sum.splits)

lemma BuildPrewarmJob_address:
  "BuildPrewarmJob sd svc rt model = Inr (Some j) \<Longrightarrow> address (KJob j) = owned_address svc (JobKind, ''-prewarm'')"
  by (auto simp: BuildPrewarmJob_def prewarm_job_def annotateCreateOnce_def address_def key_of_def owned_address_def name_defs Let_def
      split: if_splits sum.splits option.splits)

lemma BuildDemandAuthSecret_address:
  "BuildDemandAuthSecret rand svc n = Inr sec \<Longrightarrow>
     if n > 1 then \<exists>x. sec = Some x \<and> address (KSecret x) = owned_address svc (SecretKind, ''-demand-auth'') else sec = None"
  by (auto simp: BuildDemandAuthSecret_def address_def key_of_def owned_address_def name_defs split: if_splits sum.splits)

lemma Build_addresses:
  "address (KService (BuildBackendService svc rt)) = owned_address svc (ServiceKind, ''-backend'')"
  "address (KService (BuildGatewayService svc)) = owned_address svc (ServiceKind, [])"
  "address (KService (BuildGatewayScalerService svc n)) = owned_address svc (ServiceKind, ''-scaler'')"
  "BuildGatewayPodDisruptionBudget svc n = Some pdb \<Longrightarrow> address (KPodDisruptionBudget pdb) = owned_address svc (PodDisruptionBudgetKind, ''-gateway'')"
  "BuildGatewayScalerDeployment svc img n = Some d \<Longrightarrow> address (KDeployment d) = owned_address svc (DeploymentKind, ''-scaler'')"
  by (auto simp: BuildBackendService_def BuildGatewayService_def BuildGatewayScalerService_def BuildGatewayPodDisruptionBudget_def
      BuildGatewayScalerDeployment_def noctaya_deployment_def address_def key_of_def owned_address_def name_defs split: if_splits)

text \<open>What rendering promises about the addresses of the resources.\<close>

definition well_addressed :: "LLMService \<Rightarrow> int \<Rightarrow> desiredResources \<Rightarrow> bool" where
  "well_addressed svc n d \<longleftrightarrow>
     address (KScaledObject (d_scaledObject d)) = owned_address svc (ScaledObjectKind, [])
     \<and> address (KDeployment (d_backendDeployment d)) = owned_address svc (DeploymentKind, [])
     \<and> address (KService (d_backendService d)) = owned_address svc (ServiceKind, ''-backend'')
     \<and> address (KDeployment (d_gatewayDeployment d)) = owned_address svc (DeploymentKind, ''-gateway'')
     \<and> address (KService (d_gatewayService d)) = owned_address svc (ServiceKind, [])
     \<and> (\<forall>p. d_gatewayPDB d = Some p \<longrightarrow> address (KPodDisruptionBudget p) = owned_address svc (PodDisruptionBudgetKind, ''-gateway''))
     \<and> (\<forall>p. d_scalerDeployment d = Some p \<longrightarrow> address (KDeployment p) = owned_address svc (DeploymentKind, ''-scaler''))
     \<and> address (KService (d_scalerService d)) = owned_address svc (ServiceKind, ''-scaler'')
     \<and> (\<forall>p. d_cachePVC d = Some p \<longrightarrow> address (KPersistentVolumeClaim p) = owned_address svc (PersistentVolumeClaimKind, ''-cache''))
     \<and> (\<forall>p. d_prewarmJob d = Some p \<longrightarrow> address (KJob p) = owned_address svc (JobKind, ''-prewarm''))
     \<and> (\<forall>p. d_demandSecret d = Some p \<longrightarrow> address (KSecret p) = owned_address svc (SecretKind, ''-demand-auth''))
     \<and> (d_scalerDeployment d = None \<longleftrightarrow> n \<le> 1) \<and> (d_demandSecret d = None \<longleftrightarrow> n \<le> 1)"

lemma renderDesired_addresses:
  assumes "renderDesired be r svc rt adapter model = Inr d"
  shows "well_addressed svc (r_GatewayReplicas r) d"
proof -
  obtain so bd gd pvc pj ds where *: "BuildScaledObject svc = Inr so" "BuildBackendDeployment (be_digest be) adapter svc rt model = Inr bd"
    "BuildGatewayDeployment (be_duration be) svc (r_GatewayImage r) (r_GatewayReplicas r) = Inr gd"
    "BuildCachePVC (be_digest be) svc = Inr pvc" "BuildPrewarmJob (be_digest be) svc rt model = Inr pj"
    "BuildDemandAuthSecret (be_rand be) svc (r_GatewayReplicas r) = Inr ds"
    "d = \<lparr>d_scaledObject = so, d_backendDeployment = bd, d_backendService = BuildBackendService svc rt, d_gatewayDeployment = gd,
       d_gatewayService = BuildGatewayService svc, d_gatewayPDB = BuildGatewayPodDisruptionBudget svc (r_GatewayReplicas r),
       d_scalerDeployment = BuildGatewayScalerDeployment svc (r_GatewayImage r) (r_GatewayReplicas r),
       d_scalerService = BuildGatewayScalerService svc (r_GatewayReplicas r), d_cachePVC = pvc, d_prewarmJob = pj, d_demandSecret = ds\<rparr>"
    using assms by (auto simp: renderDesired_def split: sum.splits)
  have "BuildGatewayScalerDeployment svc (r_GatewayImage r) (r_GatewayReplicas r) = None \<longleftrightarrow> r_GatewayReplicas r \<le> 1"
    by (simp add: BuildGatewayScalerDeployment_def)
  with * show ?thesis
    using BuildScaledObject_address [OF *(1)] BuildBackendDeployment_address [OF *(2)] BuildGatewayDeployment_address [OF *(3)]
      BuildCachePVC_address BuildPrewarmJob_address BuildDemandAuthSecret_address [OF *(6)] Build_addresses
    by (auto simp: well_addressed_def split: if_splits)
qed

subsection \<open>The order of the calls\<close>

lemma follows_optional:
  assumes "reference_law (r_Lib r)" and "\<And>x. obj = Some x \<Longrightarrow> address x = a" and "follows A rest"
  shows "follows (a # A) (ensure_optional (recording r) svc reason obj rest)"
proof (cases obj)
  case (Some x)
  then have "follows [a] (ensureCreated (recording r) svc x)" using follows_ensure [OF assms(1), of x svc] assms(2) by simp
  with Some assms(3) show ?thesis by (simp add: ensure_optional_def follows_on_error follows_created)
qed (use assms in \<open>simp add: ensure_optional_def follows_skip\<close>)

lemma follows_secret:
  assumes "reference_law (r_Lib r)" and "address (KSecret x) = a" and "follows A rest"
  shows "follows (a # A) (ensure_secret (recording r) svc (Some x) rest)"
proof -
  have "follows [a] (ensureCreated (recording r) svc (KSecret x))" using follows_ensure [OF assms(1), of "KSecret x" svc] assms(2) by simp
  from follows_bind [OF this, of A, unfolded append_Cons append_Nil] show ?thesis
    unfolding ensure_secret_def option.case
    by (rule meta_mp) (use assms(3) in \<open>auto intro: follows_return split: sum.split option.split\<close>)
qed

lemma follows_pdb:
  assumes "reference_law (r_Lib r)" and "get_law (r_Client r)" and "\<And>x. pdb = Some x \<Longrightarrow> address (KPodDisruptionBudget x) = a"
    and "a = (PodDisruptionBudgetKind, svc_Namespace svc, svc_Name svc @ ''-gateway'')" and "follows A rest"
  shows "follows (a # A) (apply_pdb (recording r) svc pdb rest)"
proof (cases pdb)
  case (Some x)
  then have "follows [a] (apply_object (recording r) svc (KPodDisruptionBudget x))"
    using follows_apply [OF assms(1), of "KPodDisruptionBudget x" svc] assms(3) by simp
  with Some assms(5) show ?thesis by (simp add: apply_pdb_def follows_on_error)
next
  case None
  then show ?thesis using follows_delete [OF assms(2)] assms(4,5) by (simp add: apply_pdb_def follows_on_error)
qed

lemma follows_deletes:
  assumes "get_law (r_Client r)"
  shows "follows [owned_address svc (DeploymentKind, ''-scaler''), owned_address svc (SecretKind, ''-demand-auth'')]
    (delete_scaler (recording r) svc None)"
proof -
  have "follows [owned_address svc (DeploymentKind, ''-scaler''), owned_address svc (SecretKind, ''-demand-auth'')]
      (deleteObsoleteScaler (recording r) svc)"
    unfolding deleteObsoleteScaler_def owned_address_def prod.case name_defs
    by (intro follows_on_error follows_delete [OF assms] follows_return)
  from follows_bind [OF this, of "[]", unfolded append_Nil2] show ?thesis
    unfolding delete_scaler_def option.case by (rule meta_mp) (auto intro: follows_return)
qed

lemma follows_workloads:
  assumes "reference_law (r_Lib r)" and "get_law (r_Client r)" and "well_addressed svc n d"
  shows "follows (map (owned_address svc) ([(DeploymentKind, []), (ServiceKind, ''-backend''), (DeploymentKind, ''-gateway''),
      (ServiceKind, []), (PodDisruptionBudgetKind, ''-gateway'')]
      @ (if n > 1 then [(DeploymentKind, ''-scaler''), (ServiceKind, ''-scaler'')]
         else [(ServiceKind, ''-scaler''), (DeploymentKind, ''-scaler''), (SecretKind, ''-demand-auth'')])))
    (apply_workloads (recording r) svc d)"
proof -
  note app = follows_apply [OF assms(1), where owner = svc]
  have tail: "follows (map (owned_address svc) (if n > 1 then [(DeploymentKind, ''-scaler''), (ServiceKind, ''-scaler'')]
         else [(ServiceKind, ''-scaler''), (DeploymentKind, ''-scaler''), (SecretKind, ''-demand-auth'')]))
      (apply_scaler (recording r) svc (d_scalerDeployment d)
        (on_error (apply_object (recording r) svc (KService (d_scalerService d))) (\<lambda>e. (''ApplyGatewayScalerService'', True, Some e))
          (delete_scaler (recording r) svc (d_scalerDeployment d))))"
  proof (cases "d_scalerDeployment d")
    case None
    then show ?thesis
      using assms(3) app [of "KService (d_scalerService d)"] follows_deletes [OF assms(2), of svc]
      by (simp add: well_addressed_def apply_scaler_def follows_on_error)
  next
    case (Some x)
    then show ?thesis
      using assms(3) app [of "KService (d_scalerService d)"] app [of "KDeployment x"]
      by (simp add: well_addressed_def apply_scaler_def delete_scaler_def follows_on_error follows_return)
  qed
  have pdb: "owned_address svc (PodDisruptionBudgetKind, ''-gateway'') = (PodDisruptionBudgetKind, svc_Namespace svc, svc_Name svc @ ''-gateway'')"
    by (simp add: owned_address_def)
  show ?thesis
    unfolding apply_workloads_def map_append list.map append_Cons append_Nil
    using assms(3) app [of "KDeployment (d_backendDeployment d)"] app [of "KService (d_backendService d)"]
      app [of "KDeployment (d_gatewayDeployment d)"] app [of "KService (d_gatewayService d)"]
    by (intro follows_on_error follows_pdb [OF assms(1,2) _ pdb] tail) (simp_all add: well_addressed_def)
qed

definition after_autoscaler :: "'s LLMServiceReconciler \<Rightarrow> LLMService \<Rightarrow> desiredResources \<Rightarrow> ('s, apply_result) state" where
  "after_autoscaler r svc desired =
     ensure_secret r svc (d_demandSecret desired)
    (ensure_optional r svc ''ApplyCachePVC'' (map_option KPersistentVolumeClaim (d_cachePVC desired))
    (ensure_optional r svc ''ApplyPrewarmJob'' (map_option KJob (d_prewarmJob desired))
    (apply_workloads r svc desired)))"

lemma follows_after_autoscaler:
  assumes "reference_law (r_Lib r)" and "get_law (r_Client r)" and "well_addressed svc n d"
  shows "follows (tl (plan_addresses svc n)) (after_autoscaler (recording r) svc d)"
proof -
  have base: "follows (owned_address svc (PersistentVolumeClaimKind, ''-cache'') # owned_address svc (JobKind, ''-prewarm'') #
      map (owned_address svc) ([(DeploymentKind, []), (ServiceKind, ''-backend''), (DeploymentKind, ''-gateway''),
      (ServiceKind, []), (PodDisruptionBudgetKind, ''-gateway'')]
      @ (if n > 1 then [(DeploymentKind, ''-scaler''), (ServiceKind, ''-scaler'')]
         else [(ServiceKind, ''-scaler''), (DeploymentKind, ''-scaler''), (SecretKind, ''-demand-auth'')])))
    (ensure_optional (recording r) svc ''ApplyCachePVC'' (map_option KPersistentVolumeClaim (d_cachePVC d))
      (ensure_optional (recording r) svc ''ApplyPrewarmJob'' (map_option KJob (d_prewarmJob d)) (apply_workloads (recording r) svc d)))"
    by (intro follows_optional [OF assms(1)] follows_workloads [OF assms]) (use assms(3) in \<open>auto simp: well_addressed_def\<close>)
  show ?thesis
  proof (cases "d_demandSecret d")
    case None
    with base assms(3) show ?thesis
      by (simp add: after_autoscaler_def ensure_secret_def plan_addresses_def setup_plan_def well_addressed_def)
  next
    case (Some x)
    have "address (KSecret x) = owned_address svc (SecretKind, ''-demand-auth'')" "n > 1"
      using Some assms(3) by (auto simp: well_addressed_def)
    with follows_secret [OF assms(1) this(1) base] Some show ?thesis
      by (simp add: after_autoscaler_def plan_addresses_def setup_plan_def)
  qed
qed

lemma applyDesired_split:
  "applyDesired r svc d =
     on_error (apply_object r svc (KScaledObject (d_scaledObject d)))
       (\<lambda>e. if IsNoMatchError e
            then (''AutoscalingUnavailable'', False,
                  Some (wrap_error ''KEDA ScaledObject CRD is required before deploying an LLMService'' e))
            else (''ApplyScaledObject'', False, Some e))
       (after_autoscaler r svc d)"
  by (simp add: applyDesired_def after_autoscaler_def)

lemma distinct_subseq: "subseq xs ys \<Longrightarrow> distinct ys \<Longrightarrow> distinct xs"
  by (induction xs ys rule: list_emb.induct) (auto dest: list_emb_set)

lemma plan_Some_distinct: "distinct (map Some (plan_addresses svc n))"
  using plan_distinct [of svc n] by (simp add: distinct_map)

subsection \<open>The first error ends a pass\<close>

text \<open>
  The errors of a call after which a pass goes on: an object to be created exists already, and an object to
  be deleted is gone.
\<close>

fun tolerated :: "api_call \<times> go_error option \<Rightarrow> bool" where
  "tolerated (call, None) = True"
| "tolerated (Created obj, Some e) = IsAlreadyExists e"
| "tolerated (Deleted obj, Some e) = IsNotFound e"
| "tolerated (call, Some e) = False"

text \<open>
  \<open>stops failed f\<close>: a call of \<open>f\<close> that ends in another error is the last one, and then the result of \<open>f\<close> is a
  failure.
\<close>

definition stops :: "('r \<Rightarrow> bool) \<Rightarrow> ('s \<times> api_log, 'r) state \<Rightarrow> bool" where
  "stops failed f \<longleftrightarrow> (\<forall>s l. \<exists>l'. snd (snd (run_state f (s, l))) = l @ l' \<and> list_all tolerated (butlast l')
     \<and> (\<not> failed (fst (run_state f (s, l))) \<longrightarrow> list_all tolerated l'))"

named_theorems stop_intros \<open>operations that end at the first error\<close>

lemma stops_return [stop_intros]: "stops failed (ret x)"
  by (auto simp: stops_def)

lemma stops_read [stop_intros]: "stops failed (passing f)"
  by (auto simp: stops_def split: prod.splits)

lemma stops_logging: "(\<And>r. \<not> failed r \<Longrightarrow> tolerated (call, out r)) \<Longrightarrow> stops failed (logging out call f)"
  by (auto simp: stops_def split: prod.splits)

lemma stops_bind:
  assumes "stops failed f" and "\<And>r. \<not> failed r \<Longrightarrow> stops failed' (g r)" and "\<And>r. failed r \<Longrightarrow> \<exists>x. g r = ret x \<and> failed' x"
  shows "stops failed' (f \<bind> g)"
proof -
  have "\<exists>l'. snd (snd (run_state (f \<bind> g) (s, l))) = l @ l' \<and> list_all tolerated (butlast l')
      \<and> (\<not> failed' (fst (run_state (f \<bind> g) (s, l))) \<longrightarrow> list_all tolerated l')" for s l
  proof -
    obtain r s' l1 where f: "run_state f (s, l) = (r, s', l @ l1)" "list_all tolerated (butlast l1)"
      "\<not> failed r \<Longrightarrow> list_all tolerated l1"
      using assms(1) unfolding stops_def by (metis prod.collapse)
    show ?thesis
    proof (cases "failed r")
      case True
      then show ?thesis using assms(3) f by force
    next
      case False
      obtain l2 where "snd (snd (run_state (g r) (s', l @ l1))) = (l @ l1) @ l2" "list_all tolerated (butlast l2)"
        "\<not> failed' (fst (run_state (g r) (s', l @ l1))) \<Longrightarrow> list_all tolerated l2"
        using assms(2) [OF False] unfolding stops_def by blast
      then show ?thesis using f False by (intro exI [of _ "l1 @ l2"]) (auto simp: butlast_append)
    qed
  qed
  then show ?thesis by (simp add: stops_def)
qed

lemma stops_on_error [stop_intros]:
  assumes "stops (\<lambda>e. e \<noteq> None) act" and "\<And>e. failed' (out e)" and "stops failed' rest"
  shows "stops failed' (on_error act out rest)"
  unfolding on_error_def by (rule stops_bind [OF assms(1)]) (use assms(2,3) in auto)

lemma stops_apply [stop_intros]: "stops (\<lambda>e. e \<noteq> None) (apply_object (recording r) owner obj)"
  by (auto simp: apply_object_def split: sum.split intro: stops_return stops_logging)

lemma stops_ensure: "stops (\<lambda>res. \<exists>e. res = Inl e) (ensureCreated (recording r) owner obj)"
proof (cases "SetControllerReference (r_Lib r) owner obj")
  case (Inr obj1)
  let ?failed = "\<lambda>res. \<exists>e. res = Inl e \<and> \<not> IsAlreadyExists e"
  have create: "stops ?failed (logging sum_error (Created obj1) (cl_Create (r_Client r) obj1))"
    by (rule stops_logging) (auto simp: sum_error_def split: sum.splits)
  have get: "stops failed (passing f \<bind> (\<lambda>res. ret (h res)))" for failed f h
    by (rule stops_bind [OF stops_read, where failed = "\<lambda>_. False"]) (simp_all add: stops_return)
  show ?thesis unfolding ensureCreated_def Let_def Inr sum.case recording_simps logged_fields
    by (rule stops_bind [OF create]) (auto split: sum.split intro!: get stops_return)
qed (simp add: ensureCreated_def stops_return Let_def)

lemma stops_created [stop_intros]: "stops (\<lambda>e. e \<noteq> None) (created (ensureCreated (recording r) owner obj))"
  unfolding created_def by (rule stops_bind [OF stops_ensure]) (auto simp: sum_error_def split: sum.splits intro!: stops_return)

lemma stops_delete [stop_intros]: "stops (\<lambda>e. e \<noteq> None) (deleteOwned (recording r) owner kd key)"
proof -
  have del: "stops (\<lambda>e. IgnoreNotFound e \<noteq> None) (logging (\<lambda>e. e) (Deleted obj) (cl_Delete (r_Client r) obj))" for obj
    by (rule stops_logging) (auto simp: IgnoreNotFound_def split: option.splits if_splits)
  have "stops (\<lambda>e. e \<noteq> None) (logging (\<lambda>e. e) (Deleted obj) (cl_Delete (r_Client r) obj) \<bind> (\<lambda>err. ret (IgnoreNotFound err)))" for obj
    by (rule stops_bind [OF del]) (auto intro: stops_return)
  then show ?thesis unfolding deleteOwned_def recording_simps logged_fields
    by (intro stops_bind [OF stops_read, where failed = "\<lambda>_. False"]) (auto split: sum.split intro: stops_return)
qed

definition fails :: "apply_result \<Rightarrow> bool" where "fails res \<longleftrightarrow> snd (snd res) \<noteq> None"

lemma fails_error [simp]: "fails (reason, applied, Some e)"
  by (simp add: fails_def)

lemma failing_return: "fails x \<Longrightarrow> \<exists>y. ret x = ret y \<and> fails y"
  by blast

lemma stops_optional [stop_intros]: "stops fails rest \<Longrightarrow> stops fails (ensure_optional (recording r) svc reason obj rest)"
  by (auto simp: ensure_optional_def split: option.split intro!: stop_intros)

lemma stops_secret [stop_intros]:
  assumes "stops fails rest"
  shows "stops fails (ensure_secret (recording r) svc sec rest)"
proof (cases sec)
  case (Some x)
  show ?thesis unfolding ensure_secret_def Some option.case
    by (rule stops_bind [OF stops_ensure]) (use assms in \<open>auto simp del: split_paired_Ex split: sum.split option.split intro: stops_return failing_return\<close>)
qed (use assms in \<open>simp add: ensure_secret_def\<close>)

lemma stops_pdb [stop_intros]: "stops fails rest \<Longrightarrow> stops fails (apply_pdb (recording r) svc pdb rest)"
  by (auto simp: apply_pdb_def split: option.split intro!: stop_intros)

lemma stops_scaler [stop_intros]: "stops fails rest \<Longrightarrow> stops fails (apply_scaler (recording r) svc d rest)"
  by (auto simp: apply_scaler_def split: option.split intro!: stop_intros)

lemma stops_delete_scaler [stop_intros]: "stops fails (delete_scaler (recording r) svc d)"
proof (cases d)
  case None
  have "stops (\<lambda>res. snd res \<noteq> None) (deleteObsoleteScaler (recording r) svc)"
    unfolding deleteObsoleteScaler_def by (intro stop_intros) simp_all
  then show ?thesis unfolding delete_scaler_def None option.case
    by (rule stops_bind) (auto simp del: split_paired_Ex split: option.split intro: stops_return failing_return)
qed (simp add: delete_scaler_def stops_return)

lemma applyDesired_stops: "stops fails (applyDesired (recording r) svc d)"
  unfolding applyDesired_split after_autoscaler_def apply_workloads_def by (intro stop_intros) simp_all

text \<open>
  C14. One pass changes each resource of a service at most once and in the planned order: the
  autoscaler, the shared secret, the cache and its Job, the backend before the gateway that needs it,
  the gateway before the scaler that reads from it, and last what is no longer needed. Nothing outside
  the plan changes, whatever the API server answers. The first changing call that ends in an error is the last one of
  the pass, and the pass then reports a failure; only creating an object that exists already and deleting
  one that is gone do not count as errors.
\<close>

theorem applied_in_order:
  assumes "reference_law (r_Lib r)" and "get_law (r_Client r)"
    and "renderDesired be r svc rt adapter model = Inr desired"
    and "run_state (applyDesired (recording r) svc desired) (s, []) = ((reason, applied, err), s', l)"
  shows "subseq (map (call_address \<circ> fst) l) (map Some (plan_addresses svc (r_GatewayReplicas r)))
    \<and> distinct (map (call_address \<circ> fst) l) \<and> list_all tolerated (butlast l) \<and> (err = None \<longrightarrow> list_all tolerated l)"
proof -
  note wa = renderDesired_addresses [OF assms(3)]
  have "address (KScaledObject (d_scaledObject desired)) = hd (plan_addresses svc (r_GatewayReplicas r))"
    using wa by (simp add: well_addressed_def plan_addresses_def)
  with follows_apply [OF assms(1), of "KScaledObject (d_scaledObject desired)" svc]
  have "follows (hd (plan_addresses svc (r_GatewayReplicas r)) # tl (plan_addresses svc (r_GatewayReplicas r)))
      (applyDesired (recording r) svc desired)"
    unfolding applyDesired_split by (intro follows_on_error follows_after_autoscaler [OF assms(1,2) wa]) simp
  moreover have "plan_addresses svc (r_GatewayReplicas r) \<noteq> []" by (simp add: plan_addresses_def)
  ultimately have "follows (plan_addresses svc (r_GatewayReplicas r)) (applyDesired (recording r) svc desired)" by simp
  then obtain l' where "l = [] @ l'" "subseq (map (call_address \<circ> fst) l') (map Some (plan_addresses svc (r_GatewayReplicas r)))"
    unfolding follows_def using assms(4) by (metis snd_conv)
  moreover obtain l'' where "l = [] @ l''" "list_all tolerated (butlast l'')" "err = None \<longrightarrow> list_all tolerated l''"
    using applyDesired_stops [of r svc desired] assms(4) unfolding stops_def fails_def by (metis fst_conv snd_conv)
  ultimately show ?thesis using distinct_subseq [OF _ plan_Some_distinct] by auto
qed

definition example_build :: build_env where
  "example_build = \<lparr>be_digest = example_digest, be_duration = (\<lambda>_. ''5m''), be_rand = Inr (replicate 32 CHR ''x''), be_dns = (\<lambda>_. True), be_steps = 5\<rparr>"

lemma example_rendered:
  "\<exists>d. renderDesired example_build memory_reconciler example_svc example_rt (nvidia_New plain_text) example_model = Inr d"
proof -
  obtain so where "BuildScaledObject example_svc = Inr so" using example_scaled_object by blast
  moreover obtain bd where "BuildBackendDeployment example_digest (nvidia_New plain_text) example_svc example_rt example_model = Inr bd"
    using example_deployment by blast
  moreover obtain gd where "BuildGatewayDeployment (\<lambda>_. ''5m'') example_svc ''gw:1'' 3 = Inr gd"
    using example_gateway_deployment [of 3] by auto
  moreover obtain pv where "planCache example_digest example_svc = Inr pv" using example_plan by blast
  ultimately show ?thesis
    by (auto simp: renderDesired_def example_build_def memory_reconciler_def BuildCachePVC_def BuildPrewarmJob_def
        BuildDemandAuthSecret_def example_model_def modelSourceOCI_def split: sum.splits option.splits)
qed

lemma memory_reconciler_simps [simp]: "r_Lib memory_reconciler = memory_lib" "r_Client memory_reconciler = memory_client"
  by (simp_all add: memory_reconciler_def)

theorem applied_in_order_witness:
  "\<exists>d reason applied err s' l. renderDesired example_build memory_reconciler example_svc example_rt (nvidia_New plain_text) example_model = Inr d
     \<and> run_state (applyDesired (recording memory_reconciler) example_svc d) (example_memory, []) = ((reason, applied, err), s', l)
     \<and> distinct (map (call_address \<circ> fst) l) \<and> list_all tolerated (butlast l)"
proof -
  obtain d where d: "renderDesired example_build memory_reconciler example_svc example_rt (nvidia_New plain_text) example_model = Inr d"
    using example_rendered by blast
  obtain reason applied err s' l where run:
    "run_state (applyDesired (recording memory_reconciler) example_svc d) (example_memory, []) = ((reason, applied, err), s', l)"
    by (metis prod.exhaust)
  have "reference_law (r_Lib memory_reconciler)" "get_law (r_Client memory_reconciler)"
    by (simp_all add: memory_reference_law memory_get_law)
  from applied_in_order [OF this d run] d run show ?thesis by blast
qed

subsection \<open>The autoscaler comes first\<close>

text \<open>Every result after the autoscaler says that it was applied.\<close>

definition claims_applied :: "('s, apply_result) state \<Rightarrow> bool" where
  "claims_applied f \<longleftrightarrow> (\<forall>s. fst (snd (fst (run_state f s))))"

lemma claims_return: "claims_applied (ret (x, True, y))"
  by (simp add: claims_applied_def)

lemma claims_bind: "(\<And>x. claims_applied (g x)) \<Longrightarrow> claims_applied (f \<bind> g)"
  by (auto simp: claims_applied_def split: prod.split)

lemma claims_on_error: "claims_applied rest \<Longrightarrow> claims_applied (on_error act (\<lambda>e. (reason, True, Some e)) rest)"
  unfolding on_error_def by (rule claims_bind) (auto intro: claims_return split: option.split)

lemma claims_delete: "claims_applied (delete_scaler r svc x)"
  by (cases x) (auto simp: delete_scaler_def intro!: claims_return claims_bind split: prod.split option.split)

lemma claims_scaler: "claims_applied rest \<Longrightarrow> claims_applied (apply_scaler r svc x rest)"
  by (cases x) (auto simp: apply_scaler_def intro: claims_on_error)

lemma claims_pdb: "claims_applied rest \<Longrightarrow> claims_applied (apply_pdb r svc x rest)"
  by (cases x) (auto simp: apply_pdb_def intro: claims_on_error)

lemma claims_optional: "claims_applied rest \<Longrightarrow> claims_applied (ensure_optional r svc reason x rest)"
  by (cases x) (auto simp: ensure_optional_def intro: claims_on_error)

lemma claims_secret: "claims_applied rest \<Longrightarrow> claims_applied (ensure_secret r svc x rest)"
  by (cases x) (auto simp: ensure_secret_def intro!: claims_return claims_bind split: sum.split option.split)

lemma claims_after_autoscaler: "claims_applied (after_autoscaler r svc d)"
  unfolding after_autoscaler_def apply_workloads_def
  by (intro claims_secret claims_optional claims_on_error claims_pdb claims_scaler claims_delete)

text \<open>An apply fails before it calls the API server, or its error is the outcome of the call.\<close>

lemma apply_log:
  assumes "reference_law (r_Lib r)" and "run_state (apply_object (recording r) owner obj) (s, l) = (err, s', l')"
  obtains "l' = l" and "err \<noteq> None"
  | obj' where "l' = l @ [(Applied obj', err)]" and "address obj' = address obj"
  using assms unfolding reference_law_def
  by (auto simp: apply_object_def split: sum.splits prod.splits)

text \<open>
  C26. No workload without its autoscaler: a pass first applies the ScaledObject. If that fails, for
  instance because KEDA is not installed, nothing else is changed and the failure is reported as
  unapplied; otherwise every later failure is reported with the autoscaler applied.
\<close>

theorem autoscaler_first:
  assumes "reference_law (r_Lib r)" and "get_law (r_Client r)"
    and "renderDesired be r svc rt adapter model = Inr desired"
    and "run_state (applyDesired (recording r) svc desired) (s, []) = ((reason, applied, err), s', l)"
  shows "(\<not> applied \<longrightarrow> err \<noteq> None \<and> list_all (\<lambda>(call, out). out \<noteq> None
        \<and> call_address call = Some (ScaledObjectKind, svc_Namespace svc, svc_Name svc)) l \<and> length l \<le> 1)
    \<and> (applied \<longrightarrow> l \<noteq> [] \<and> snd (hd l) = None \<and> call_address (fst (hd l)) = Some (ScaledObjectKind, svc_Namespace svc, svc_Name svc))"
proof -
  note wa = renderDesired_addresses [OF assms(3)]
  let ?so = "KScaledObject (d_scaledObject desired)"
  have addr: "address ?so = (ScaledObjectKind, svc_Namespace svc, svc_Name svc)"
    using wa by (simp add: well_addressed_def owned_address_def)
  obtain e s1 l1 where run: "run_state (apply_object (recording r) svc ?so) (s, []) = (e, s1, l1)" by (metis prod.exhaust)
  show ?thesis
  proof (cases e)
    case (Some x)
    then have res: "\<not> applied" "err \<noteq> None" "l = l1"
      using assms(4) run unfolding applyDesired_split on_error_def by (auto split: if_splits)
    show ?thesis using apply_log [OF assms(1) run] by cases (use res Some addr in auto)
  next
    case None
    then obtain obj' where l1: "l1 = [(Applied obj', None)]" "address obj' = address ?so"
      using apply_log [OF assms(1) run] by (metis append_Nil)
    have rest: "run_state (after_autoscaler (recording r) svc desired) (s1, l1) = ((reason, applied, err), s', l)"
      using assms(4) run None unfolding applyDesired_split on_error_def by simp
    then have "applied" using claims_after_autoscaler [of "recording r" svc desired] unfolding claims_applied_def by (metis fst_conv snd_conv)
    moreover obtain l2 where "l = l1 @ l2"
      using follows_after_autoscaler [OF assms(1,2) wa] rest unfolding follows_def by (metis snd_conv)
    ultimately show ?thesis using l1 addr by simp
  qed
qed

theorem autoscaler_first_witness:
  "\<exists>d reason applied err s' l.
     run_state (applyDesired (recording memory_reconciler) example_svc d) (example_memory, []) = ((reason, applied, err), s', l)
     \<and> applied \<and> l \<noteq> [] \<and> call_address (fst (hd l)) = Some (ScaledObjectKind, ''ai'', ''qwen'')"
proof -
  obtain d where d: "renderDesired example_build memory_reconciler example_svc example_rt (nvidia_New plain_text) example_model = Inr d"
    using example_rendered by blast
  obtain reason applied err s' l where run:
    "run_state (applyDesired (recording memory_reconciler) example_svc d) (example_memory, []) = ((reason, applied, err), s', l)"
    by (metis prod.exhaust)
  have laws: "reference_law (r_Lib memory_reconciler)" "get_law (r_Client memory_reconciler)"
    by (simp_all add: memory_reference_law memory_get_law)
  obtain s1 l1 where ap:
    "run_state (apply_object (recording memory_reconciler) example_svc (KScaledObject (d_scaledObject d))) (example_memory, []) = (None, s1, l1)"
    by (simp add: apply_object_def memory_lib_def memory_client_def)
  have "run_state (after_autoscaler (recording memory_reconciler) example_svc d) (s1, l1) = ((reason, applied, err), s', l)"
    using run ap unfolding applyDesired_split on_error_def by simp
  then have applied
    using claims_after_autoscaler [of "recording memory_reconciler" example_svc d] unfolding claims_applied_def
    by (metis fst_conv snd_conv)
  moreover have "svc_Namespace example_svc = ''ai''" "svc_Name example_svc = ''qwen''" by (simp_all add: example_svc_def)
  ultimately have "l \<noteq> [] \<and> call_address (fst (hd l)) = Some (ScaledObjectKind, ''ai'', ''qwen'')"
    using autoscaler_first [OF laws d run] by simp
  with run \<open>applied\<close> show ?thesis by blast
qed

end
