(* ===== verification/Controller.thy ===== *)
theory Controller
  imports Lifecycle
begin

section \<open>Reconciliation\<close>

text \<open>
  \<open>internal/controller/llmservice/controller.go\<close>: one reconciliation of a service, from the request to
  the reported status, and the passive controller of runtimes. The result of a reconciliation is
  always the empty \<open>ctrl.Result\<close>, so a definition returns the error alone. The registration with the
  manager (\<open>SetupWithManager\<close>) is in \<^verbatim>\<open>Operator_Process\<close>, the mapping functions of its watches in
  \<^verbatim>\<open>Selection\<close>.
\<close>

definition backend_labels :: "LLMService \<Rightarrow> InferenceRuntime \<Rightarrow> (string, string) gomap" where
  "backend_labels svc rt =
     [(Selection.managedByLabel, Selection.managedByValue), (Selection.llmServiceLabel, svc_Name svc),
      (Selection.runtimeLabel, rt_Name rt)]"

text \<open>The first condition that reports the failure of the Job.\<close>

fun job_failure :: "statusCondition list \<Rightarrow> string option" where
  "job_failure [] = None"
| "job_failure (c # cs) =
     (if kc_Type c = ''Failed'' \<and> kc_Status c = ConditionTrue then Some (kc_Message c) else job_failure cs)"

definition as_job :: "job \<Rightarrow> kobject \<Rightarrow> job" where
  "as_job want obj = (case obj of KJob found \<Rightarrow> found | _ \<Rightarrow> want)"

definition as_deployment :: "deployment \<Rightarrow> kobject \<Rightarrow> deployment" where
  "as_deployment want obj = (case obj of KDeployment found \<Rightarrow> found | _ \<Rightarrow> want)"

definition observe_workload ::
  "build_env \<Rightarrow> 's LLMServiceReconciler \<Rightarrow> LLMService \<Rightarrow> InferenceRuntime \<Rightarrow> desiredResources \<Rightarrow> ('s, go_error option) state" where
  "observe_workload be r svc rt desired = do {
     res \<leftarrow> cl_Get (r_Client r) DeploymentKind (key_of (KDeployment (d_backendDeployment desired)));
     (case res of
        Inl e \<Rightarrow> failAfterAutoscaling (be_steps be) r svc ''ObserveBackendDeployment'' e
      | Inr obj \<Rightarrow> do {
          pods \<leftarrow> cl_ListPods (r_Client r) (svc_Namespace svc) (backend_labels svc rt);
          (case pods of
             Inl e \<Rightarrow> failAfterAutoscaling (be_steps be) r svc ''ObserveBackendPods'' e
           | Inr pods \<Rightarrow>
               updateStatus (be_steps be) r svc (rt_Name rt) (as_deployment (d_backendDeployment desired) obj) pods)
        })
   }"

definition observe_prewarm ::
  "build_env \<Rightarrow> 's LLMServiceReconciler \<Rightarrow> LLMService \<Rightarrow> InferenceRuntime \<Rightarrow> desiredResources \<Rightarrow> ('s, go_error option) state" where
  "observe_prewarm be r svc rt desired =
     (case d_prewarmJob desired of
        None \<Rightarrow> observe_workload be r svc rt desired
      | Some j \<Rightarrow> do {
          res \<leftarrow> cl_Get (r_Client r) JobKind (key_of (KJob j));
          (case res of
             Inl e \<Rightarrow> failAfterAutoscaling (be_steps be) r svc ''ObservePrewarmJob'' e
           | Inr obj \<Rightarrow>
               let prewarm = as_job j obj in
               (case job_failure (job_Conditions prewarm) of
                  Some message \<Rightarrow>
                    failAfterAutoscaling (be_steps be) r svc ''PrewarmFailed''
                      (Errorf (''prewarm Job '' @ om_Name (job_Meta prewarm) @ '' failed: '' @ message))
                | None \<Rightarrow> observe_workload be r svc rt desired))
        })"

definition reconcile_rendered ::
  "build_env \<Rightarrow> 's LLMServiceReconciler \<Rightarrow> LLMService \<Rightarrow> InferenceRuntime \<Rightarrow> desiredResources \<Rightarrow> ('s, go_error option) state" where
  "reconcile_rendered be r svc rt desired = do {
     (reason, autoscalingApplied, err) \<leftarrow> applyDesired r svc desired;
     (case err of
        Some e \<Rightarrow>
          if autoscalingApplied then failAfterAutoscaling (be_steps be) r svc reason e
          else fail (be_steps be) r svc reason e
      | None \<Rightarrow> observe_prewarm be r svc rt desired)
   }"

definition reconcile_service :: "build_env \<Rightarrow> 's LLMServiceReconciler \<Rightarrow> LLMService \<Rightarrow> ('s, go_error option) state" where
  "reconcile_service be r svc = do {
     rt \<leftarrow> resolveRuntime (r_Client r) svc;
     (case rt of
        Inl e \<Rightarrow> fail (be_steps be) r svc ''RuntimeResolution'' e
      | Inr rt \<Rightarrow>
          (case registry_Get (r_Backends r) (ir_Vendor (rt_Spec rt)) of
             None \<Rightarrow> fail (be_steps be) r svc ''UnsupportedVendor''
               (Errorf (''no backend adapter registered for vendor '' @ Quote (ir_Vendor (rt_Spec rt))))
           | Some adapter \<Rightarrow>
               (case Resolve (be_dns be) (sp_Model (svc_Spec svc)) of
                  Inl e \<Rightarrow> fail (be_steps be) r svc ''ModelResolution'' (Errorf e)
                | Inr resolved \<Rightarrow>
                    (case renderDesired be r svc rt adapter resolved of
                       Inl (reason, e) \<Rightarrow> fail (be_steps be) r svc reason (Errorf e)
                     | Inr desired \<Rightarrow> reconcile_rendered be r svc rt desired))))
   }"

definition Reconcile :: "build_env \<Rightarrow> 's LLMServiceReconciler \<Rightarrow> object_key \<Rightarrow> ('s, go_error option) state" where
  "Reconcile be r req = do {
     res \<leftarrow> cl_GetLLMService (r_Client r) req;
     (case res of
        Inl e \<Rightarrow> ret (IgnoreNotFound (Some e))
      | Inr svc \<Rightarrow> reconcile_service be r svc)
   }"

text \<open>\<open>internal/controller/inferenceruntime/controller.go\<close>: runtimes are only read.\<close>

definition InferenceRuntime_Reconcile :: "object_key \<Rightarrow> ('s, go_error option) state" where
  "InferenceRuntime_Reconcile req = ret None"

subsection \<open>Calls of a reconciliation\<close>

definition service_law :: "'s client \<Rightarrow> bool" where
  "service_law c \<longleftrightarrow>
     (\<forall>key s svc s'. run_state (cl_GetLLMService c key) s = (Inr svc, s') \<longrightarrow> (svc_Namespace svc, svc_Name svc) = key)"

lemma service_lawD: "service_law c \<Longrightarrow> run_state (cl_GetLLMService c key) s = (Inr svc, s') \<Longrightarrow> (svc_Namespace svc, svc_Name svc) = key"
  unfolding service_law_def by blast

lemma owned_permits: "permits lib svc UNIV (owned_call lib svc)"
  by (simp add: permits_def)

lemma emits_on_error:
  assumes "emits P (\<lambda>_. True) act" and "emits P (\<lambda>_. True) rest"
  shows "emits P (\<lambda>_. True) (on_error act failed rest)"
  unfolding on_error_def by (rule emits_bind [OF assms(1)]) (auto intro: emits_return assms(2) split: option.split)

lemma emits_created: "emits P (\<lambda>_. True) act \<Longrightarrow> emits P (\<lambda>_. True) (created act)"
  unfolding created_def by (erule emits_bind) (simp add: emits_return)

text \<open>The owned calls of the stages of a pass.\<close>

lemma emits_owned:
  assumes "reference_law (r_Lib r)" and "get_law (r_Client r)"
  shows "emits (owned_call (r_Lib r) svc) (\<lambda>_. True) (apply_object (recording r) svc obj)"
    and "emits (owned_call (r_Lib r) svc) (\<lambda>_. True) (ensureCreated (recording r) svc obj)"
    and "emits (owned_call (r_Lib r) svc) (\<lambda>_. True) (deleteOwned (recording r) svc kd key)"
  using emits_apply [OF assms(1) owned_permits] emits_ensureCreated [OF assms(1) owned_permits]
    emits_deleteOwned [OF assms(2) owned_permits] by simp_all

lemma emits_applyDesired:
  assumes "reference_law (r_Lib r)" and "get_law (r_Client r)"
  shows "emits (owned_call (r_Lib r) svc) (\<lambda>_. True) (applyDesired (recording r) svc d)"
proof -
  note own = emits_owned [OF assms, of svc]
  have del: "emits (owned_call (r_Lib r) svc) (\<lambda>_. True) (delete_scaler (recording r) svc x)" for x
  proof (cases x)
    case None
    have "emits (owned_call (r_Lib r) svc) (\<lambda>_. True) (deleteObsoleteScaler (recording r) svc)"
      unfolding deleteObsoleteScaler_def by (intro emits_on_error own emits_return) simp
    then show ?thesis unfolding delete_scaler_def None option.case
      by (rule emits_bind) (auto intro: emits_return)
  qed (simp add: delete_scaler_def emits_return)
  have scaler: "emits (owned_call (r_Lib r) svc) (\<lambda>_. True) (apply_scaler (recording r) svc x rest)"
    if "emits (owned_call (r_Lib r) svc) (\<lambda>_. True) rest" for x rest
    using that by (cases x) (simp_all add: apply_scaler_def emits_on_error own)
  have pdb: "emits (owned_call (r_Lib r) svc) (\<lambda>_. True) (apply_pdb (recording r) svc x rest)"
    if "emits (owned_call (r_Lib r) svc) (\<lambda>_. True) rest" for x rest
    using that by (cases x) (simp_all add: apply_pdb_def emits_on_error own)
  have opt: "emits (owned_call (r_Lib r) svc) (\<lambda>_. True) (ensure_optional (recording r) svc reason x rest)"
    if "emits (owned_call (r_Lib r) svc) (\<lambda>_. True) rest" for reason x rest
    using that by (cases x) (simp_all add: ensure_optional_def emits_on_error emits_created own)
  have sec: "emits (owned_call (r_Lib r) svc) (\<lambda>_. True) (ensure_secret (recording r) svc x rest)"
    if "emits (owned_call (r_Lib r) svc) (\<lambda>_. True) rest" for x rest
    using that unfolding ensure_secret_def
    by (cases x) (auto intro!: emits_bind [OF own(2)] emits_return split: sum.split option.split)
  show ?thesis unfolding applyDesired_def apply_workloads_def
    by (intro emits_on_error own sec opt pdb scaler del)
qed

definition names :: "LLMService \<Rightarrow> LLMService \<Rightarrow> bool" where
  "names owner svc \<longleftrightarrow> svc_Namespace svc = svc_Namespace owner \<and> svc_Name svc = svc_Name owner"

lemma emits_update_attempt:
  assumes "service_law (r_Client r)" and "names owner svc"
  shows "emits (owned_call (r_Lib r) owner) (\<lambda>(err, pv, ch, svc'). names owner svc') (update_attempt (recording r) desired (pv, ch, svc))"
proof -
  have "emits (owned_call (r_Lib r) owner) (\<lambda>res. \<forall>x. res = Inr x \<longrightarrow> names owner x)
      (passing (cl_GetLLMService (r_Client r) (svc_Namespace svc, svc_Name svc)))"
    by (rule emits_passing) (use service_lawD [OF assms(1)] assms(2) in \<open>fastforce simp: names_def\<close>)
  then show ?thesis unfolding update_attempt_def prod.case recording_simps logged_fields
  proof (rule emits_bind)
    fix res :: "go_error + LLMService"
    assume res: "\<forall>x. res = Inr x \<longrightarrow> names owner x"
    show "emits (owned_call (r_Lib r) owner) (\<lambda>(err, pv, ch, svc'). names owner svc')
      (case res of
         Inl err \<Rightarrow> ret (Some err, pv, ch, svc)
       | Inr latest \<Rightarrow>
           let previous = svc_Status latest in
           if SemanticDeepEqual (r_Lib r) previous desired
           then ret (None, Some previous, ch,
                     svc\<lparr>svc_Status := desired,
                         svc_Meta := (svc_Meta svc)\<lparr>om_ResourceVersion := om_ResourceVersion (svc_Meta latest)\<rparr>\<rparr>)
           else do {
             res \<leftarrow> logging sum_error (StatusUpdated (latest\<lparr>svc_Status := desired\<rparr>)) (cl_UpdateStatus (r_Client r) (latest\<lparr>svc_Status := desired\<rparr>));
             ret (case res of
                    Inl err \<Rightarrow> (Some err, Some previous, ch, svc)
                  | Inr latest \<Rightarrow>
                      (None, Some previous, True,
                       svc\<lparr>svc_Status := svc_Status latest,
                           svc_Meta := (svc_Meta svc)\<lparr>om_ResourceVersion := om_ResourceVersion (svc_Meta latest)\<rparr>\<rparr>))
           })"
    proof (cases res)
      case (Inr latest)
      then have wr: "owned_call (r_Lib r) owner (StatusUpdated (latest\<lparr>svc_Status := desired\<rparr>))"
        using res by (simp add: names_def)
      then have log: "emits (owned_call (r_Lib r) owner) (\<lambda>_. True)
          (logging sum_error (StatusUpdated (latest\<lparr>svc_Status := desired\<rparr>)) (cl_UpdateStatus (r_Client r) (latest\<lparr>svc_Status := desired\<rparr>)))"
        by (rule emits_logging)
      show ?thesis unfolding Inr sum.case Let_def
        using assms(2)
        by (auto intro!: emits_return emits_bind [OF log] simp: names_def split: sum.splits)
    qed (use assms(2) in \<open>simp add: emits_return\<close>)
  qed
qed

lemma emits_retry:
  assumes "\<And>v. I v \<Longrightarrow> emits P (\<lambda>(err, v). I v) (fn v)" and "I v"
  shows "emits P (\<lambda>(err, v). I v) (RetryOnConflict n fn v)"
  using assms(2)
proof (induction n arbitrary: v)
  case (Suc n)
  show ?case unfolding RetryOnConflict.simps
    by (rule emits_bind [OF assms(1) [OF Suc.prems]])
      (auto intro: emits_return Suc.IH split: option.split)
qed (simp add: emits_return)

lemma emits_updateStatusWithRetry:
  assumes "service_law (r_Client r)" and "names owner svc"
  shows "emits (owned_call (r_Lib r) owner) (\<lambda>_. True) (updateStatusWithRetry n (recording r) svc desired)"
proof -
  have "emits (owned_call (r_Lib r) owner) (\<lambda>(err, v). names owner (snd (snd v))) (update_attempt (recording r) desired v)"
    if "names owner (snd (snd v))" for v
    using that emits_update_attempt [OF assms(1), of owner] by (cases v) (simp add: case_prod_unfold)
  then have "emits (owned_call (r_Lib r) owner) (\<lambda>(err, v). names owner (snd (snd v))) (updateStatusWithRetry n (recording r) svc desired)"
    unfolding updateStatusWithRetry_def by (rule emits_retry) (simp_all add: assms(2))
  then show ?thesis by (rule emits_weaken) simp
qed

lemma emits_fail:
  assumes "service_law (r_Client r)"
  shows "emits (owned_call (r_Lib r) svc) (\<lambda>_. True) (failWithAutoscaling n (recording r) svc reason e b)"
proof -
  have "names svc (failed_service (r_Lib r) svc reason e b)" by (simp add: names_def failed_service_def Let_def)
  then show ?thesis unfolding failWithAutoscaling_def Let_def recording_simps
    by (intro emits_bind [OF emits_updateStatusWithRetry [OF assms]]) (auto intro: emits_return)
qed

lemma emits_report: "emits (owned_call lib svc) (\<lambda>_. True) (reportBackendTransition (recording r) svc' previous current)"
  unfolding reportBackendTransition_def recording_simps logged_fields
  by (auto intro!: emits_return emits_logging)

lemma emits_updateStatus:
  assumes "service_law (r_Client r)"
  shows "emits (owned_call (r_Lib r) svc) (\<lambda>_. True) (updateStatus n (recording r) svc rn dep pods)"
proof -
  have "names svc (observed_service (r_Lib r) svc rn dep pods)" by (simp add: names_def observed_service_def Let_def)
  then show ?thesis unfolding updateStatus_def Let_def recording_simps
    by (intro emits_bind [OF emits_updateStatusWithRetry [OF assms]])
      (auto intro!: emits_return emits_bind [OF emits_report] split: option.split)
qed

lemma emits_observe:
  assumes "service_law (r_Client r)"
  shows "emits (owned_call (r_Lib r) svc) (\<lambda>_. True) (observe_prewarm be (recording r) svc rt d)"
proof -
  have w: "emits (owned_call (r_Lib r) svc) (\<lambda>_. True) (observe_workload be (recording r) svc rt d)"
    unfolding observe_workload_def failAfterAutoscaling_def recording_simps logged_fields
    by (auto intro!: emits_bind [OF emits_read] emits_fail [OF assms] emits_updateStatus [OF assms] split: sum.split)
  then show ?thesis
    unfolding observe_prewarm_def failAfterAutoscaling_def recording_simps logged_fields Let_def
    by (auto intro!: emits_bind [OF emits_read] emits_fail [OF assms] split: sum.split option.split)
qed

lemma emits_resolve: "emits P (\<lambda>_. True) (resolveRuntime (logged c) svc)"
  unfolding resolveRuntime_def Let_def logged_fields
  by (auto intro!: emits_return emits_bind [OF emits_read] split: option.split)

lemma emits_reconcile:
  assumes "reference_law (r_Lib r)" and "get_law (r_Client r)" and "service_law (r_Client r)"
  shows "emits (owned_call (r_Lib r) svc) (\<lambda>_. True) (reconcile_service be (recording r) svc)"
proof -
  note fl = emits_fail [OF assms(3), where svc = svc]
  have "emits (owned_call (r_Lib r) svc) (\<lambda>_. True) (reconcile_rendered be (recording r) svc rt d)" for rt d
    unfolding reconcile_rendered_def fail_def failAfterAutoscaling_def
    by (rule emits_bind [OF emits_applyDesired [OF assms(1,2)]])
      (auto intro: fl emits_observe [OF assms(3)] split: option.split)
  then show ?thesis unfolding reconcile_service_def fail_def recording_simps
    by (intro emits_bind [OF emits_resolve]) (auto intro: fl split: sum.split option.split)
qed

subsection \<open>Properties\<close>

text \<open>
  C4. A reconciliation changes nothing that does not belong to its service: whatever the API server
  holds and answers, every object that is applied, created or deleted has the service as its
  controller, every status written is that of the service, and a request for a service that cannot be
  read changes nothing at all.
\<close>

theorem reconcile_changes_only_owned:
  assumes "reference_law (r_Lib r)" and "get_law (r_Client r)" and "service_law (r_Client r)"
    and "run_state (Reconcile be (recording r) req) (s, []) = (err, s', l)"
  shows "case fst (run_state (cl_GetLLMService (r_Client r) req) s) of
      Inl e \<Rightarrow> l = [] \<and> err = (if IsNotFound e then None else Some e)
    | Inr svc \<Rightarrow> (svc_Namespace svc, svc_Name svc) = req \<and> list_all (\<lambda>(call, _). owned_call (r_Lib r) svc call) l"
proof -
  obtain res s1 where get: "run_state (cl_GetLLMService (r_Client r) req) s = (res, s1)" by fastforce
  show ?thesis
  proof (cases res)
    case (Inl e)
    with get assms(4) show ?thesis by (auto simp: Reconcile_def IgnoreNotFound_def)
  next
    case (Inr svc)
    then have "run_state (reconcile_service be (recording r) svc) (s1, []) = (err, s', l)"
      using get assms(4) by (simp add: Reconcile_def)
    then have "list_all (\<lambda>(call, _). owned_call (r_Lib r) svc call) l"
      using emits_reconcile [OF assms(1-3), of svc be] unfolding emits_def by (metis append_Nil snd_conv)
    with get Inr service_lawD [OF assms(3) get [unfolded Inr]] show ?thesis by simp
  qed
qed

lemma memory_service_law: "service_law memory_client"
  by (auto simp: service_law_def memory_client_def or_not_found_def find_Some_iff split: option.splits)

theorem reconcile_changes_only_owned_witness:
  "\<exists>err s' l. run_state (Reconcile example_build (recording memory_reconciler) (''ai'', ''qwen'')) (example_memory, []) = (err, s', l)
     \<and> list_all (\<lambda>(call, _). owned_call memory_lib example_svc call) l"
proof -
  obtain err s' l where run: "run_state (Reconcile example_build (recording memory_reconciler) (''ai'', ''qwen'')) (example_memory, []) = (err, s', l)"
    by (metis prod.exhaust)
  have laws: "reference_law (r_Lib memory_reconciler)" "get_law (r_Client memory_reconciler)" "service_law (r_Client memory_reconciler)"
    by (simp_all add: memory_reference_law memory_get_law memory_service_law)
  have "fst (run_state (cl_GetLLMService memory_client (''ai'', ''qwen'')) example_memory) = Inr example_svc"
    by (simp add: memory_client_def example_memory_def or_not_found_def) (simp add: example_svc_def)
  with reconcile_changes_only_owned [OF laws run] run show ?thesis by simp
qed

end
