(* ===== verification/Convergence.thy ===== *)
theory Convergence
  imports Controller
begin

section \<open>The cluster after a pass\<close>

text \<open>
  What a successful pass of \<open>applyDesired\<close> leaves in the cluster, for every API server that stores what
  it is told: the objects of the service are there under its control, the disruption budget, the aggregator and the
  shared Secret that are not rendered have been deleted as far as the client sees them, and
  nothing else has changed. \<open>held s\<close> is the content of the API server in the state \<open>s\<close> by kind
  and key, and \<open>carries x obj\<close> says that the stored object \<open>x\<close> has the fields of \<open>obj\<close>, beside those that
  defaulting and other field managers add.
\<close>

type_synonym store = "kind \<times> object_key \<Rightarrow> kobject option"

subsection \<open>Documented behaviour of the API server\<close>

text \<open>
  What the client makes of the cluster: \<open>sees\<close> holds of the objects that its reads return, for the manager
  those in its cache, and \<open>ending\<close> of the objects that have been deleted and wait for their finalizers.
\<close>

record view =
  sees :: "kobject \<Rightarrow> bool"
  ending :: "kobject \<Rightarrow> bool"

text \<open>
  \<open>Get\<close> reads the stored object if the client sees it, and otherwise finds nothing: the cache has caught up
  with the API server. A successful \<open>Apply\<close> leaves an object that carries the configuration
  applied, a successful \<open>Create\<close> one that carries the object, and an object that exists is not created.
  After a \<open>Delete\<close> that succeeds or finds nothing the object is gone or ending, and deleting an object that is ending
  already changes nothing. No call touches another object.
\<close>

definition get_stores :: "('s \<Rightarrow> store) \<Rightarrow> view \<Rightarrow> 's client \<Rightarrow> bool" where
  "get_stores held vw c \<longleftrightarrow>
     (\<forall>kd k s res s'. run_state (cl_Get c kd k) s = (res, s') \<longrightarrow> held s' = held s
        \<and> (case res of
             Inr obj \<Rightarrow> held s (kd, k) = Some obj \<and> sees vw obj
           | Inl e \<Rightarrow> IsNotFound e \<longrightarrow> (\<forall>x. held s (kd, k) = Some x \<longrightarrow> \<not> sees vw x)))"

definition apply_stores :: "('s \<Rightarrow> store) \<Rightarrow> (kobject \<Rightarrow> kobject \<Rightarrow> bool) \<Rightarrow> 's client \<Rightarrow> bool" where
  "apply_stores held carries c \<longleftrightarrow>
     (\<forall>obj s err s'. run_state (cl_Apply c obj) s = (err, s') \<longrightarrow> (\<forall>a. a \<noteq> address obj \<longrightarrow> held s' a = held s a)
        \<and> (err = None \<longrightarrow> (\<exists>x. held s' (address obj) = Some x \<and> carries x obj)))"

definition create_stores :: "('s \<Rightarrow> store) \<Rightarrow> (kobject \<Rightarrow> kobject \<Rightarrow> bool) \<Rightarrow> 's client \<Rightarrow> bool" where
  "create_stores held carries c \<longleftrightarrow>
     (\<forall>obj s res s'. run_state (cl_Create c obj) s = (res, s') \<longrightarrow> (\<forall>a. a \<noteq> address obj \<longrightarrow> held s' a = held s a)
        \<and> (case res of
             Inr x \<Rightarrow> held s (address obj) = None \<and> held s' (address obj) = Some x \<and> carries x obj
           | Inl e \<Rightarrow> (IsAlreadyExists e \<longrightarrow> held s' = held s) \<and> (held s (address obj) \<noteq> None \<longrightarrow> held s' = held s)))"

definition delete_stores :: "('s \<Rightarrow> store) \<Rightarrow> view \<Rightarrow> 's client \<Rightarrow> bool" where
  "delete_stores held vw c \<longleftrightarrow>
     (\<forall>obj s err s'. run_state (cl_Delete c obj) s = (err, s') \<longrightarrow> (\<forall>a. a \<noteq> address obj \<longrightarrow> held s' a = held s a)
        \<and> (IgnoreNotFound err = None \<longrightarrow> (\<forall>x. held s' (address obj) = Some x \<longrightarrow> ending vw x))
        \<and> (\<forall>x. held s (address obj) = Some x \<longrightarrow> ending vw x \<longrightarrow> held s' = held s))"

definition store_law :: "('s \<Rightarrow> store) \<Rightarrow> view \<Rightarrow> (kobject \<Rightarrow> kobject \<Rightarrow> bool) \<Rightarrow> 's client \<Rightarrow> bool" where
  "store_law held vw carries c \<longleftrightarrow> get_stores held vw c \<and> apply_stores held carries c \<and> create_stores held carries c
     \<and> delete_stores held vw c \<and> (\<forall>s a x. held s a = Some x \<longrightarrow> address x = a)"

text \<open>
  An object that carries another has its controller and its create-once hash; \<open>SetControllerReference\<close>
  keeps the annotations.
\<close>

definition carries_law :: "kube_lib \<Rightarrow> (kobject \<Rightarrow> kobject \<Rightarrow> bool) \<Rightarrow> bool" where
  "carries_law lib carries \<longleftrightarrow>
     (\<forall>x obj owner. carries x obj \<longrightarrow> IsControlledBy lib obj owner \<longrightarrow> IsControlledBy lib x owner)
     \<and> (\<forall>x obj. carries x obj \<longrightarrow> create_hash obj \<noteq> [] \<longrightarrow> create_hash x = create_hash obj)
     \<and> (\<forall>owner obj obj'. SetControllerReference lib owner obj = Inr obj' \<longrightarrow> create_hash obj' = create_hash obj)"

subsection \<open>Goals of a pass\<close>

text \<open>The configuration that \<open>apply_object\<close> sends for an object.\<close>

definition configuration :: "kube_lib \<Rightarrow> LLMService \<Rightarrow> kobject \<Rightarrow> kobject option" where
  "configuration lib owner obj =
     (case SetControllerReference lib owner obj of
        Inl _ \<Rightarrow> None
      | Inr obj \<Rightarrow> (case ToUnstructured lib obj of Inl _ \<Rightarrow> None | Inr conf \<Rightarrow> Some conf))"

definition applied_goal ::
  "kube_lib \<Rightarrow> (kobject \<Rightarrow> kobject \<Rightarrow> bool) \<Rightarrow> LLMService \<Rightarrow> kobject \<Rightarrow> kobject option \<Rightarrow> bool" where
  "applied_goal lib carries owner obj v \<longleftrightarrow>
     (\<exists>x conf. v = Some x \<and> configuration lib owner obj = Some conf \<and> carries x conf \<and> IsControlledBy lib x owner)"

definition created_goal :: "kube_lib \<Rightarrow> LLMService \<Rightarrow> kobject \<Rightarrow> kobject option \<Rightarrow> bool" where
  "created_goal lib owner obj v \<longleftrightarrow>
     (\<exists>x. v = Some x \<and> IsControlledBy lib x owner \<and> (create_hash obj \<noteq> [] \<longrightarrow> create_hash x = create_hash obj))"

definition secret_goal :: "kube_lib \<Rightarrow> LLMService \<Rightarrow> kobject option \<Rightarrow> bool" where
  "secret_goal lib owner v \<longleftrightarrow>
     (\<exists>x. v = Some (KSecret x) \<and> IsControlledBy lib (KSecret x) owner \<and> ValidateDemandAuthSecret x = None)"

definition seen_goal :: "(kobject \<Rightarrow> bool) \<Rightarrow> (kobject option \<Rightarrow> bool) \<Rightarrow> kobject option \<Rightarrow> bool" where
  "seen_goal seen goal v \<longleftrightarrow> goal v \<and> (\<exists>x. v = Some x \<and> seen x)"

definition seen_law ::
  "kube_lib \<Rightarrow> (kobject \<Rightarrow> kobject \<Rightarrow> bool) \<Rightarrow> view \<Rightarrow> (kobject \<Rightarrow> bool) \<Rightarrow> LLMService \<Rightarrow> secret option \<Rightarrow> bool" where
  "seen_law lib carries vw seen owner sec \<longleftrightarrow> (\<forall>x. sees vw x \<longrightarrow> seen x)
     \<and> (\<forall>y obj x. sec = Some y \<longrightarrow> SetControllerReference lib owner (KSecret y) = Inr obj \<longrightarrow> carries x obj \<longrightarrow> seen x)"

lemma seen_law_all [simp]: "seen_law lib carries vw (\<lambda>_. True) owner sec"
  by (simp add: seen_law_def)

definition deleted_goal :: "kube_lib \<Rightarrow> view \<Rightarrow> LLMService \<Rightarrow> kobject option \<Rightarrow> bool" where
  "deleted_goal lib vw owner v \<longleftrightarrow> (\<forall>x. v = Some x \<longrightarrow> sees vw x \<longrightarrow> IsControlledBy lib x owner \<longrightarrow> ending vw x)"

text \<open>
  \<open>secures held G ok f\<close>: \<open>f\<close> changes only the addresses of \<open>G\<close>, and with a result that is \<open>ok\<close> it
  reaches the goal of each.
\<close>

type_synonym goal = "(kind \<times> object_key) \<times> (kobject option \<Rightarrow> bool)"

definition secures :: "('s \<Rightarrow> store) \<Rightarrow> goal list \<Rightarrow> ('r \<Rightarrow> bool) \<Rightarrow> ('s, 'r) state \<Rightarrow> bool" where
  "secures held G ok f \<longleftrightarrow>
     (\<forall>s r s'. run_state f s = (r, s') \<longrightarrow> (\<forall>a. a \<notin> fst ` set G \<longrightarrow> held s' a = held s a)
        \<and> (ok r \<longrightarrow> list_all (\<lambda>(a, goal). goal (held s' a)) G))"

lemma securesI:
  assumes "\<And>s r s' a. run_state f s = (r, s') \<Longrightarrow> a \<notin> fst ` set G \<Longrightarrow> held s' a = held s a"
    and "\<And>s r s' a goal. run_state f s = (r, s') \<Longrightarrow> ok r \<Longrightarrow> (a, goal) \<in> set G \<Longrightarrow> goal (held s' a)"
  shows "secures held G ok f"
  using assms unfolding secures_def list_all_iff by blast

lemma secures_frame: "secures held G ok f \<Longrightarrow> run_state f s = (r, s') \<Longrightarrow> a \<notin> fst ` set G \<Longrightarrow> held s' a = held s a"
  unfolding secures_def by blast

lemma secures_goal: "secures held G ok f \<Longrightarrow> run_state f s = (r, s') \<Longrightarrow> ok r \<Longrightarrow> (a, goal) \<in> set G \<Longrightarrow> goal (held s' a)"
  unfolding secures_def list_all_iff by blast

lemma secures_return: "secures held [] ok (ret x)"
  by (simp add: secures_def)

text \<open>The rule for the sequences of a pass: the first goal is reached and the rest of the pass leaves it alone.\<close>

lemma secures_bind:
  assumes "secures held [(a, goal)] ok1 f" and "a \<notin> fst ` set G"
    and "\<And>x. ok1 x \<Longrightarrow> secures held G ok (g x)"
    and "\<And>x s r s'. \<not> ok1 x \<Longrightarrow> run_state (g x) s = (r, s') \<Longrightarrow> s' = s \<and> \<not> ok r"
  shows "secures held ((a, goal) # G) ok (f \<bind> g)"
proof (rule securesI)
  fix s r s' b
  assume run: "run_state (f \<bind> g) s = (r, s')"
  then obtain x s1 where f: "run_state f s = (x, s1)" and g: "run_state (g x) s1 = (r, s')" by (auto split: prod.splits)
  show "held s' b = held s b" if "b \<notin> fst ` set ((a, goal) # G)"
    using that secures_frame [OF assms(1) f, of b] secures_frame [OF assms(3) g, of b] assms(4) [OF _ g] by (cases "ok1 x") auto
  show "h (held s' b)" if "ok r" and "(b, h) \<in> set ((a, goal) # G)" for h
  proof -
    have ok1: "ok1 x" using assms(4) [OF _ g] that(1) by blast
    have "held s' a = held s1 a" by (rule secures_frame [OF assms(3) [OF ok1] g assms(2)])
    with secures_goal [OF assms(1) f ok1, of a goal] secures_goal [OF assms(3) [OF ok1] g that(1), of b h] that(2)
    show ?thesis by auto
  qed
qed

lemma secures_on_error:
  assumes "secures held [(a, goal)] (\<lambda>e. e = None) act" and "secures held G ok rest" and "a \<notin> fst ` set G"
    and "\<And>e. \<not> ok (failed e)"
  shows "secures held ((a, goal) # G) ok (on_error act failed rest)"
  unfolding on_error_def
  by (rule secures_bind [OF assms(1,3)]) (use assms(2,4) in \<open>auto split: option.splits\<close>)

subsection \<open>The operations reach their goals\<close>

lemma apply_storesD:
  assumes "apply_stores held carries c" and "run_state (cl_Apply c obj) s = (err, s')"
  shows "a \<noteq> address obj \<Longrightarrow> held s' a = held s a"
    and "err = None \<Longrightarrow> \<exists>x. held s' (address obj) = Some x \<and> carries x obj"
  using assms unfolding apply_stores_def by blast+

lemma create_storesD:
  assumes "create_stores held carries c" and "run_state (cl_Create c obj) s = (res, s')"
  shows "a \<noteq> address obj \<Longrightarrow> held s' a = held s a"
    and "res = Inr x \<Longrightarrow> held s' (address obj) = Some x \<and> carries x obj"
    and "res = Inl e \<Longrightarrow> IsAlreadyExists e \<Longrightarrow> held s' = held s"
    and "held s (address obj) \<noteq> None \<Longrightarrow> \<exists>e. res = Inl e \<and> held s' = held s"
proof -
  have "(\<forall>a. a \<noteq> address obj \<longrightarrow> held s' a = held s a) \<and> (case res of
      Inr x \<Rightarrow> held s (address obj) = None \<and> held s' (address obj) = Some x \<and> carries x obj
    | Inl e \<Rightarrow> (IsAlreadyExists e \<longrightarrow> held s' = held s) \<and> (held s (address obj) \<noteq> None \<longrightarrow> held s' = held s))"
    using assms unfolding create_stores_def by blast
  then show "a \<noteq> address obj \<Longrightarrow> held s' a = held s a"
    and "res = Inr x \<Longrightarrow> held s' (address obj) = Some x \<and> carries x obj"
    and "res = Inl e \<Longrightarrow> IsAlreadyExists e \<Longrightarrow> held s' = held s"
    and "held s (address obj) \<noteq> None \<Longrightarrow> \<exists>e. res = Inl e \<and> held s' = held s"
    by (blast, simp_all split: sum.splits)
qed

lemma delete_storesD:
  assumes "delete_stores held vw c" and "run_state (cl_Delete c obj) s = (err, s')"
  shows "a \<noteq> address obj \<Longrightarrow> held s' a = held s a"
    and "IgnoreNotFound err = None \<Longrightarrow> held s' (address obj) = Some x \<Longrightarrow> ending vw x"
    and "held s (address obj) = Some x \<Longrightarrow> ending vw x \<Longrightarrow> held s' = held s"
  using assms unfolding delete_stores_def by blast+

lemma get_storesD:
  assumes "get_stores held vw c" and "run_state (cl_Get c kd k) s = (res, s')"
  shows "held s' = held s" and "res = Inr obj \<Longrightarrow> held s (kd, k) = Some obj" and "res = Inr obj \<Longrightarrow> sees vw obj"
    and "res = Inl e \<Longrightarrow> IsNotFound e \<Longrightarrow> held s (kd, k) = Some x \<Longrightarrow> \<not> sees vw x"
proof -
  have "held s' = held s \<and> (case res of Inr obj \<Rightarrow> held s (kd, k) = Some obj \<and> sees vw obj
    | Inl e \<Rightarrow> IsNotFound e \<longrightarrow> (\<forall>x. held s (kd, k) = Some x \<longrightarrow> \<not> sees vw x))"
    using assms unfolding get_stores_def by blast
  then show "held s' = held s" "res = Inr obj \<Longrightarrow> held s (kd, k) = Some obj" "res = Inr obj \<Longrightarrow> sees vw obj"
    "res = Inl e \<Longrightarrow> IsNotFound e \<Longrightarrow> held s (kd, k) = Some x \<Longrightarrow> \<not> sees vw x" by simp_all
qed

lemma store_lawD:
  assumes "store_law held vw carries c"
  shows "get_stores held vw c" "apply_stores held carries c" "create_stores held carries c" "delete_stores held vw c"
    "held s a = Some x \<Longrightarrow> address x = a"
  using assms unfolding store_law_def by blast+

lemma configuration_law:
  assumes "reference_law lib" and "configuration lib owner obj = Some conf"
  shows "address conf = address obj" and "IsControlledBy lib conf owner"
  using assms unfolding reference_law_def configuration_def by (auto split: sum.splits)

lemma apply_object_configuration:
  "apply_object r owner obj =
     (case configuration (r_Lib r) owner obj of
        Some conf \<Rightarrow> cl_Apply (r_Client r) conf
      | None \<Rightarrow> ret (Some (case SetControllerReference (r_Lib r) owner obj of Inl e \<Rightarrow> e | Inr o' \<Rightarrow> projl (ToUnstructured (r_Lib r) o'))))"
  by (auto simp: apply_object_def configuration_def split: sum.splits)

lemma secures_apply:
  assumes "reference_law (r_Lib r)" and "carries_law (r_Lib r) carries" and "store_law held vw carries (r_Client r)"
    and "address obj = a"
  shows "secures held [(a, applied_goal (r_Lib r) carries owner obj)] (\<lambda>e. e = None) (apply_object r owner obj)"
proof (cases "configuration (r_Lib r) owner obj")
  case None
  then show ?thesis by (auto simp: apply_object_configuration secures_def)
next
  case (Some conf)
  note conf = configuration_law [OF assms(1) Some] and law = apply_storesD [OF store_lawD(2) [OF assms(3)], of conf]
  show ?thesis
  proof (rule securesI)
    fix s err s' b
    assume run: "run_state (apply_object r owner obj) s = (err, s')"
    then have app: "run_state (cl_Apply (r_Client r) conf) s = (err, s')" by (simp add: apply_object_configuration Some)
    show "held s' b = held s b" if "b \<notin> fst ` set [(a, applied_goal (r_Lib r) carries owner obj)]"
      using law(1) [OF app] conf(1) assms(4) that by simp
    show "g (held s' b)" if ok: "err = None" and goal: "(b, g) \<in> set [(a, applied_goal (r_Lib r) carries owner obj)]" for g
    proof -
      obtain x where "held s' a = Some x" "carries x conf" using law(2) [OF app ok] conf(1) assms(4) by auto
      moreover from this have "IsControlledBy (r_Lib r) x owner" using assms(2) conf(2) unfolding carries_law_def by blast
      ultimately show ?thesis using goal Some by (simp add: applied_goal_def)
    qed
  qed
qed

text \<open>What \<open>ensureCreated\<close> returns is what the API server holds.\<close>

lemma ensureCreated_holds:
  assumes "reference_law (r_Lib r)" and "carries_law (r_Lib r) carries" and "store_law held vw carries (r_Client r)"
    and run: "run_state (ensureCreated r owner obj) s = (res, s')"
  shows "b \<noteq> address obj \<Longrightarrow> held s' b = held s b"
    and "res = Inr x \<Longrightarrow> held s' (address obj) = Some x \<and> IsControlledBy (r_Lib r) x owner
       \<and> (create_hash obj \<noteq> [] \<longrightarrow> create_hash x = create_hash obj)"
proof -
  have "(b \<noteq> address obj \<longrightarrow> held s' b = held s b) \<and> (res = Inr x \<longrightarrow> held s' (address obj) = Some x \<and> IsControlledBy (r_Lib r) x owner
       \<and> (create_hash obj \<noteq> [] \<longrightarrow> create_hash x = create_hash obj))"
  proof (cases "SetControllerReference (r_Lib r) owner obj")
    case (Inl e)
    with run show ?thesis by (auto simp: ensureCreated_def Let_def)
  next
    case (Inr obj1)
    have obj1: "address obj1 = address obj" "IsControlledBy (r_Lib r) obj1 owner" "create_hash obj1 = create_hash obj"
      using assms(1,2) Inr unfolding reference_law_def carries_law_def by blast+
    obtain res1 s1 where create: "run_state (cl_Create (r_Client r) obj1) s = (res1, s1)" by fastforce
    note law = create_storesD [OF store_lawD(3) [OF assms(3)] create]
    show ?thesis
    proof (cases res1)
      case new: (Inr y)
      then have "held s' (address obj) = Some y" "carries y obj1" "res = Inr y" "b \<noteq> address obj \<longrightarrow> held s' b = held s b"
        using run create Inr law(1) [of b] law(2) [of y] obj1(1) by (auto simp: ensureCreated_def Let_def)
      then show ?thesis using assms(2) obj1 unfolding carries_law_def by auto
    next
      case old: (Inl e)
      show ?thesis
      proof (cases "IsAlreadyExists e")
        case False
        with run create Inr old law(1) [of b] obj1(1) show ?thesis by (auto simp: ensureCreated_def Let_def)
      next
        case True
        obtain res2 s2 where get: "run_state (cl_Get (r_Client r) (kind_of obj1) (key_of obj1)) s1 = (res2, s2)" by fastforce
        note found = get_storesD [OF store_lawD(1) [OF assms(3)] get]
        have same: "held s' = held s"
          using run create Inr old True get law(3) [OF old True] found(1) by (auto simp: ensureCreated_def Let_def)
        have "res = Inr x \<Longrightarrow> res2 = Inr x \<and> IsControlledBy (r_Lib r) x owner \<and> (create_hash obj \<noteq> [] \<longrightarrow> create_hash x = create_hash obj)"
          using run create Inr old True get by (auto simp: ensureCreated_def Let_def split: sum.splits if_splits)
        with same show ?thesis
          using found(2) [of x] law(3) [OF old True] obj1(1) by (auto simp: address_def)
      qed
    qed
  qed
  then show "b \<noteq> address obj \<Longrightarrow> held s' b = held s b"
    and "res = Inr x \<Longrightarrow> held s' (address obj) = Some x \<and> IsControlledBy (r_Lib r) x owner
       \<and> (create_hash obj \<noteq> [] \<longrightarrow> create_hash x = create_hash obj)" by blast+
qed

lemma secures_created:
  assumes "reference_law (r_Lib r)" and "carries_law (r_Lib r) carries" and "store_law held vw carries (r_Client r)"
    and "address obj = a"
  shows "secures held [(a, created_goal (r_Lib r) owner obj)] (\<lambda>e. e = None) (created (ensureCreated r owner obj))"
proof -
  note holds = ensureCreated_holds [OF assms(1-3)]
  show ?thesis
    by (rule securesI)
      (auto simp: created_def sum_error_def created_goal_def assms(4) [symmetric] split: prod.splits sum.splits dest: holds)
qed

lemma secures_delete:
  assumes "store_law held vw carries (r_Client r)" and "(kd, key) = a"
  shows "secures held [(a, deleted_goal (r_Lib r) vw owner)] (\<lambda>e. e = None) (deleteOwned r owner kd key)"
proof (rule securesI)
  fix s err s' b
  assume run: "run_state (deleteOwned r owner kd key) s = (err, s')"
  obtain res s1 where get: "run_state (cl_Get (r_Client r) kd key) s = (res, s1)" by fastforce
  note found = get_storesD [OF store_lawD(1) [OF assms(1)] get]
  have both: "(b \<noteq> a \<longrightarrow> held s' b = held s b) \<and> (err = None \<longrightarrow> deleted_goal (r_Lib r) vw owner (held s' a))"
  proof (cases res)
    case (Inl e)
    with run get found(1) found(4) [of e] assms(2) show ?thesis
      by (auto simp: deleteOwned_def deleted_goal_def IgnoreNotFound_def split: if_splits)
  next
    case (Inr obj)
    have addr: "address obj = a" "held s a = Some obj" using found(2) [OF Inr] store_lawD(5) [OF assms(1)] assms(2) by auto
    show ?thesis
    proof (cases "IsControlledBy (r_Lib r) obj owner")
      case False
      with run get Inr found(1) addr show ?thesis by (auto simp: deleteOwned_def deleted_goal_def)
    next
      case True
      obtain err1 s2 where del: "run_state (cl_Delete (r_Client r) obj) s1 = (err1, s2)" by fastforce
      have "err = IgnoreNotFound err1" "s' = s2" using run get Inr True del by (auto simp: deleteOwned_def)
      with delete_storesD [OF store_lawD(4) [OF assms(1)] del] found(1) addr show ?thesis
        by (auto simp: deleted_goal_def)
    qed
  qed
  show "held s' b = held s b" if "b \<notin> fst ` set [(a, deleted_goal (r_Lib r) vw owner)]" using both that by simp
  show "g (held s' b)" if "err = None" and "(b, g) \<in> set [(a, deleted_goal (r_Lib r) vw owner)]" for g using both that by simp
qed

subsection \<open>The stages of a pass\<close>

definition succeeded :: "apply_result \<Rightarrow> bool" where "succeeded = (\<lambda>(reason, autoscalingApplied, err). err = None)"

lemma succeeded_simps [simp]: "succeeded (reason, b, err) \<longleftrightarrow> err = None"
  by (simp add: succeeded_def)

definition option_goal :: "kind \<times> object_key \<Rightarrow> ('a \<Rightarrow> kobject option \<Rightarrow> bool) \<Rightarrow> 'a option \<Rightarrow> goal list" where
  "option_goal a goal x = (case x of Some y \<Rightarrow> [(a, goal y)] | None \<Rightarrow> [])"

lemma option_goal_simps [simp]: "option_goal a goal (Some y) = [(a, goal y)]" "option_goal a goal None = []"
  by (simp_all add: option_goal_def)

text \<open>What \<open>ensureCreated\<close> returns for the Secret is seen.\<close>

lemma ensureCreated_seen:
  assumes "seen_law (r_Lib r) carries vw seen owner (Some y)" and "store_law held vw carries (r_Client r)"
    and run: "run_state (ensureCreated r owner (KSecret y)) s = (Inr x, s')"
  shows "seen x"
proof (cases "SetControllerReference (r_Lib r) owner (KSecret y)")
  case (Inr obj1)
  obtain res1 s1 where create: "run_state (cl_Create (r_Client r) obj1) s = (res1, s1)" by fastforce
  obtain res2 s2 where get: "run_state (cl_Get (r_Client r) (kind_of obj1) (key_of obj1)) s1 = (res2, s2)" by fastforce
  have "res1 = Inr x \<or> res2 = Inr x"
    using run create get Inr by (auto simp: ensureCreated_def Let_def split: sum.splits if_splits)
  then have "carries x obj1 \<or> sees vw x"
    using create_storesD(2) [OF store_lawD(3) [OF assms(2)] create, of x] get_storesD(3) [OF store_lawD(1) [OF assms(2)] get, of x] by blast
  then show ?thesis using assms(1) Inr unfolding seen_law_def by blast
qed (use run in \<open>simp add: ensureCreated_def Let_def\<close>)

lemma secures_secret:
  assumes "reference_law (r_Lib r)" and "carries_law (r_Lib r) carries" and "store_law held vw carries (r_Client r)"
    and "\<And>x. sec = Some x \<Longrightarrow> address (KSecret x) = a" and "secures held G succeeded rest" and "sec \<noteq> None \<Longrightarrow> a \<notin> fst ` set G"
    and "seen_law (r_Lib r) carries vw seen owner sec"
  shows "secures held (option_goal a (\<lambda>_. seen_goal seen (secret_goal (r_Lib r) owner)) sec @ G) succeeded (ensure_secret r owner sec rest)"
proof (cases sec)
  case None
  with assms(5) show ?thesis by (simp add: ensure_secret_def)
next
  case (Some x)
  let ?ok = "\<lambda>res. \<exists>y. res = Inr y \<and> ValidateDemandAuthSecret (as_secret x y) = None"
  let ?goal = "seen_goal seen (secret_goal (r_Lib r) owner)"
  note holds = ensureCreated_holds [OF assms(1-3)] and addr = assms(4) [OF Some]
  have first: "secures held [(a, ?goal)] ?ok (ensureCreated r owner (KSecret x))"
  proof (rule securesI)
    fix s res s' b
    assume run: "run_state (ensureCreated r owner (KSecret x)) s = (res, s')"
    show "held s' b = held s b" if "b \<notin> fst ` set [(a, ?goal)]" using holds(1) [OF run, of b] addr that by simp
    show "g (held s' b)" if ok: "?ok res" and goal: "(b, g) \<in> set [(a, ?goal)]" for g
    proof -
      obtain y where y: "res = Inr y" "ValidateDemandAuthSecret (as_secret x y) = None" using ok by blast
      have at: "held s' a = Some y" "IsControlledBy (r_Lib r) y owner" using holds(2) [OF run y(1)] addr by simp_all
      then have "address y = address (KSecret x)" using store_lawD(5) [OF assms(3)] addr by simp
      then obtain z where "y = KSecret z" by (cases y) (auto simp: address_def)
      moreover have "seen y" using ensureCreated_seen [OF assms(7) [unfolded Some] assms(3)] run y(1) by blast
      ultimately show ?thesis using at y(2) goal by (auto simp: seen_goal_def secret_goal_def as_secret_def)
    qed
  qed
  show ?thesis unfolding Some option_goal_simps append_Cons append_Nil ensure_secret_def option.case
    by (rule secures_bind [OF first]) (use assms(5,6) Some in \<open>auto split: sum.splits option.splits\<close>)
qed

lemma secures_optional:
  assumes "reference_law (r_Lib r)" and "carries_law (r_Lib r) carries" and "store_law held vw carries (r_Client r)"
    and "\<And>x. obj = Some x \<Longrightarrow> address x = a" and "secures held G succeeded rest" and "a \<notin> fst ` set G"
  shows "secures held (option_goal a (created_goal (r_Lib r) owner) obj @ G) succeeded (ensure_optional r owner reason obj rest)"
proof (cases obj)
  case (Some x)
  then show ?thesis
    using secures_on_error [OF secures_created [OF assms(1-3), of x a owner] assms(5,6)] assms(4)
    by (simp add: ensure_optional_def)
qed (use assms(5) in \<open>simp add: ensure_optional_def\<close>)

lemma secures_pdb:
  assumes "reference_law (r_Lib r)" and "carries_law (r_Lib r) carries" and "store_law held vw carries (r_Client r)"
    and "\<And>x. pdb = Some x \<Longrightarrow> address (KPodDisruptionBudget x) = a"
    and "(PodDisruptionBudgetKind, svc_Namespace owner, svc_Name owner @ ''-gateway'') = a"
    and "secures held G succeeded rest" and "a \<notin> fst ` set G"
  shows "secures held ((a, case pdb of Some x \<Rightarrow> applied_goal (r_Lib r) carries owner (KPodDisruptionBudget x)
      | None \<Rightarrow> deleted_goal (r_Lib r) vw owner) # G) succeeded (apply_pdb r owner pdb rest)"
proof (cases pdb)
  case (Some x)
  then show ?thesis
    using secures_on_error [OF secures_apply [OF assms(1-3), of _ a owner] assms(6,7)] assms(4)
    by (simp add: apply_pdb_def)
next
  case None
  then show ?thesis
    using secures_on_error [OF secures_delete [OF assms(3,5), of owner] assms(6,7)]
    by (simp add: apply_pdb_def)
qed

lemma secures_scaler:
  assumes "reference_law (r_Lib r)" and "carries_law (r_Lib r) carries" and "store_law held vw carries (r_Client r)"
    and "\<And>x. dep = Some x \<Longrightarrow> address (KDeployment x) = a" and "secures held G succeeded rest" and "dep \<noteq> None \<Longrightarrow> a \<notin> fst ` set G"
  shows "secures held (option_goal a (\<lambda>x. applied_goal (r_Lib r) carries owner (KDeployment x)) dep @ G) succeeded (apply_scaler r owner dep rest)"
proof (cases dep)
  case (Some x)
  then show ?thesis
    using secures_on_error [OF secures_apply [OF assms(1-3), of _ a owner] assms(5)] assms(4,6)
    by (simp add: apply_scaler_def)
qed (use assms(5) in \<open>simp add: apply_scaler_def\<close>)

lemma secures_deletes:
  assumes "store_law held vw carries (r_Client r)"
  shows "secures held (if dep = None then map (\<lambda>x. (owned_address owner x, deleted_goal (r_Lib r) vw owner))
      [(DeploymentKind, ''-scaler''), (SecretKind, ''-demand-auth'')] else []) succeeded (delete_scaler r owner dep)"
proof (cases dep)
  case None
  have "secures held (map (\<lambda>x. (owned_address owner x, deleted_goal (r_Lib r) vw owner))
      [(DeploymentKind, ''-scaler''), (SecretKind, ''-demand-auth'')]) (\<lambda>(reason, err). err = None) (deleteObsoleteScaler r owner)"
    unfolding deleteObsoleteScaler_def list.map
    by (intro secures_on_error secures_delete [OF assms] secures_return) (simp_all add: owned_address_def name_defs)
  then show ?thesis unfolding secures_def None delete_scaler_def option.case
    by (auto split: prod.splits option.splits)
qed (simp add: delete_scaler_def secures_return)

text \<open>
  The goals of a pass, in the order of its calls. The shared Secret satisfies \<open>seen\<close> besides, which all Secrets
  do that the client sees and that the API server stores for the rendered one.
\<close>

definition workload_goals ::
  "kube_lib \<Rightarrow> view \<Rightarrow> (kobject \<Rightarrow> kobject \<Rightarrow> bool) \<Rightarrow> LLMService \<Rightarrow> desiredResources \<Rightarrow> goal list" where
  "workload_goals lib vw carries svc d =
     (let place = owned_address svc; applied = applied_goal lib carries svc in
      [(place (DeploymentKind, []), applied (KDeployment (d_backendDeployment d))),
       (place (ServiceKind, ''-backend''), applied (KService (d_backendService d))),
       (place (DeploymentKind, ''-gateway''), applied (KDeployment (d_gatewayDeployment d))),
       (place (ServiceKind, []), applied (KService (d_gatewayService d))),
       (place (PodDisruptionBudgetKind, ''-gateway''),
        case d_gatewayPDB d of Some x \<Rightarrow> applied (KPodDisruptionBudget x) | None \<Rightarrow> deleted_goal lib vw svc)]
      @ option_goal (place (DeploymentKind, ''-scaler'')) (\<lambda>x. applied (KDeployment x)) (d_scalerDeployment d)
      @ (place (ServiceKind, ''-scaler''), applied (KService (d_scalerService d)))
      # (if d_scalerDeployment d = None then map (\<lambda>x. (place x, deleted_goal lib vw svc))
           [(DeploymentKind, ''-scaler''), (SecretKind, ''-demand-auth'')] else []))"

definition pass_goals ::
  "kube_lib \<Rightarrow> (kobject \<Rightarrow> bool) \<Rightarrow> view \<Rightarrow> (kobject \<Rightarrow> kobject \<Rightarrow> bool) \<Rightarrow> LLMService \<Rightarrow> desiredResources \<Rightarrow> goal list" where
  "pass_goals lib seen vw carries svc d =
     (let place = owned_address svc in
      (place (ScaledObjectKind, []), applied_goal lib carries svc (KScaledObject (d_scaledObject d)))
      # option_goal (place (SecretKind, ''-demand-auth'')) (\<lambda>_. seen_goal seen (secret_goal lib svc)) (d_demandSecret d)
      @ option_goal (place (PersistentVolumeClaimKind, ''-cache'')) (created_goal lib svc) (map_option KPersistentVolumeClaim (d_cachePVC d))
      @ option_goal (place (JobKind, ''-prewarm'')) (created_goal lib svc) (map_option KJob (d_prewarmJob d))
      @ workload_goals lib vw carries svc d)"

lemma secures_workloads:
  assumes "reference_law (r_Lib r)" and "carries_law (r_Lib r) carries" and "store_law held vw carries (r_Client r)"
    and "well_addressed svc n d"
  shows "secures held (workload_goals (r_Lib r) vw carries svc d) succeeded (apply_workloads r svc d)"
  unfolding workload_goals_def apply_workloads_def Let_def append_Cons append_Nil
  by (intro secures_on_error secures_apply [OF assms(1-3)] secures_pdb [OF assms(1-3)] secures_scaler [OF assms(1-3)]
      secures_deletes [OF assms(3)])
    (use assms(4) in \<open>auto simp: well_addressed_def owned_address_def option_goal_def split: option.splits\<close>)

lemma secures_pass:
  assumes "reference_law (r_Lib r)" and "carries_law (r_Lib r) carries" and "store_law held vw carries (r_Client r)"
    and "well_addressed svc n d" and "seen_law (r_Lib r) carries vw seen svc (d_demandSecret d)"
  shows "secures held (pass_goals (r_Lib r) seen vw carries svc d) succeeded (applyDesired r svc d)"
  unfolding pass_goals_def applyDesired_def Let_def
  by (intro secures_on_error secures_apply [OF assms(1-3)] secures_secret [OF assms(1-3)] secures_optional [OF assms(1-3)]
      secures_workloads [OF assms(1-4)] assms(5))
    (use assms(4) in \<open>auto simp: well_addressed_def owned_address_def workload_goals_def option_goal_def Let_def split: option.splits\<close>)

text \<open>The addresses of the goals are those of the plan.\<close>

lemma pass_goals_planned:
  assumes "well_addressed svc n d"
  shows "fst ` set (pass_goals lib seen vw carries svc d) \<subseteq> set (plan_addresses svc n)"
  using assms
  by (auto simp: pass_goals_def workload_goals_def option_goal_def plan_addresses_def setup_plan_def well_addressed_def Let_def
      split: option.splits if_splits)

definition option_list :: "'a option \<Rightarrow> 'a list" where
  "option_list x = (case x of Some y \<Rightarrow> [y] | None \<Rightarrow> [])"

definition applied_objects :: "desiredResources \<Rightarrow> kobject list" where
  "applied_objects d =
     [KScaledObject (d_scaledObject d), KDeployment (d_backendDeployment d), KService (d_backendService d),
      KDeployment (d_gatewayDeployment d), KService (d_gatewayService d), KService (d_scalerService d)]
     @ map KPodDisruptionBudget (option_list (d_gatewayPDB d)) @ map KDeployment (option_list (d_scalerDeployment d))"

definition created_objects :: "desiredResources \<Rightarrow> kobject list" where
  "created_objects d = map KSecret (option_list (d_demandSecret d)) @ map KPersistentVolumeClaim (option_list (d_cachePVC d)) @ map KJob (option_list (d_prewarmJob d))"

lemma applied_goals:
  assumes "well_addressed svc n d"
  shows "list_all (\<lambda>obj. (address obj, applied_goal lib carries svc obj) \<in> set (pass_goals lib seen vw carries svc d)) (applied_objects d)"
  using assms
  by (cases "d_gatewayPDB d"; cases "d_scalerDeployment d")
    (simp_all add: applied_objects_def option_list_def pass_goals_def workload_goals_def well_addressed_def Let_def)

text \<open>The rendered Secret has no create-once hash, so that one that exists is kept.\<close>

lemma demand_secret_unhashed:
  assumes "renderDesired be r svc rt adapter model = Inr d" and "d_demandSecret d = Some x"
  shows "create_hash (KSecret x) = []"
  using assms
  by (auto simp: renderDesired_def BuildDemandAuthSecret_def create_hash_def object_meta_def meta0_def lookup0_def split: sum.splits if_splits)

lemma created_goals:
  assumes "well_addressed svc n d" and "\<And>x. d_demandSecret d = Some x \<Longrightarrow> create_hash (KSecret x) = []"
    and "obj \<in> set (created_objects d)"
  shows "\<exists>goal. (address obj, goal) \<in> set (pass_goals lib seen vw carries svc d)
    \<and> (\<forall>v. goal v \<longrightarrow> created_goal lib svc obj v \<and> (\<forall>x. kind_of obj = SecretKind \<longrightarrow> v = Some x \<longrightarrow> seen x))"
proof -
  consider x where "d_demandSecret d = Some x" "obj = KSecret x" | x where "d_cachePVC d = Some x" "obj = KPersistentVolumeClaim x"
    | x where "d_prewarmJob d = Some x" "obj = KJob x"
    using assms(3) unfolding created_objects_def option_list_def
    by (cases "d_demandSecret d"; cases "d_cachePVC d"; cases "d_prewarmJob d") auto
  then show ?thesis
  proof cases
    case 1
    then show ?thesis using assms(1) assms(2) [OF 1(1)]
      by (intro exI [of _ "seen_goal seen (secret_goal lib svc)"])
         (auto simp: pass_goals_def well_addressed_def seen_goal_def secret_goal_def created_goal_def Let_def)
  qed (use assms(1) in \<open>auto simp: pass_goals_def well_addressed_def Let_def intro!: exI [of _ "created_goal lib svc obj"]\<close>)
qed

subsection \<open>A successful pass\<close>

text \<open>
  C2. A pass that reports no error, with reads from a cache that has caught up, has brought the cluster to the state the service asks for: every
  rendered resource is stored with the rendered configuration and the service as its controller, the Secret, the
  cache and its Job under its control and with the requested create-once configuration, and with several gateway
  replicas the shared Secret is valid. Without a disruption budget, and with one replica without aggregator
  and shared Secret, what is stored in their place is not under the control of the service, is ending, or cannot be seen by the client,
  such as a Secret without the label of the operator. Whether or not it succeeds,
  nothing outside the plan of the service has changed, nor have a cache claim and a prewarm Job that are not
  rendered: a pass never deletes those.
\<close>

theorem cluster_converges:
  assumes "reference_law (r_Lib r)" and "carries_law (r_Lib r) carries" and "store_law held vw carries (r_Client r)"
    and "renderDesired be r svc rt adapter model = Inr d"
    and "run_state (applyDesired r svc d) s = ((reason, applied, err), s')"
  shows "(\<forall>a. a \<notin> set (plan_addresses svc (r_GatewayReplicas r)) \<longrightarrow> held s' a = held s a)
    \<and> (d_cachePVC d = None \<longrightarrow> (let a = owned_address svc (PersistentVolumeClaimKind, ''-cache'') in held s' a = held s a))
    \<and> (d_prewarmJob d = None \<longrightarrow> (let a = owned_address svc (JobKind, ''-prewarm'') in held s' a = held s a))
    \<and> (err = None \<longrightarrow>
        list_all (\<lambda>obj. applied_goal (r_Lib r) carries svc obj (held s' (address obj))) (applied_objects d)
        \<and> list_all (\<lambda>obj. created_goal (r_Lib r) svc obj (held s' (address obj))) (created_objects d)
        \<and> (d_gatewayPDB d = None \<longrightarrow> deleted_goal (r_Lib r) vw svc (held s' (owned_address svc (PodDisruptionBudgetKind, ''-gateway''))))
        \<and> (if r_GatewayReplicas r > 1 then secret_goal (r_Lib r) svc (held s' (owned_address svc (SecretKind, ''-demand-auth'')))
           else deleted_goal (r_Lib r) vw svc (held s' (owned_address svc (SecretKind, ''-demand-auth'')))
             \<and> deleted_goal (r_Lib r) vw svc (held s' (owned_address svc (DeploymentKind, ''-scaler'')))))"
proof -
  note wa = renderDesired_addresses [OF assms(4)]
  note pass = secures_pass [OF assms(1-3) wa seen_law_all]
  let ?goals = "pass_goals (r_Lib r) (\<lambda>_. True) vw carries svc d"
  have frame: "held s' a = held s a" if "a \<notin> set (plan_addresses svc (r_GatewayReplicas r))" for a
    using secures_frame [OF pass assms(5)] pass_goals_planned [OF wa] that by blast
  have kept: "held s' (owned_address svc x) = held s (owned_address svc x)"
    if "x = (PersistentVolumeClaimKind, ''-cache'') \<and> d_cachePVC d = None \<or> x = (JobKind, ''-prewarm'') \<and> d_prewarmJob d = None" for x
    by (rule secures_frame [OF pass assms(5)])
       (use that in \<open>auto simp: pass_goals_def workload_goals_def option_goal_def owned_address_def Let_def split: option.splits if_splits\<close>)
  have goal: "g (held s' a)" if "err = None" and "(a, g) \<in> set ?goals" for a g
    using secures_goal [OF pass assms(5)] that by simp
  have "deleted_goal (r_Lib r) vw svc (held s' (owned_address svc (PodDisruptionBudgetKind, ''-gateway'')))"
    if "err = None" "d_gatewayPDB d = None"
    by (rule goal) (simp_all add: that pass_goals_def workload_goals_def Let_def)
  moreover have "secret_goal (r_Lib r) svc (held s' (owned_address svc (SecretKind, ''-demand-auth'')))"
    if "err = None" "r_GatewayReplicas r > 1"
  proof -
    have "seen_goal (\<lambda>_. True) (secret_goal (r_Lib r) svc) (held s' (owned_address svc (SecretKind, ''-demand-auth'')))"
      by (rule goal) (use that wa in \<open>auto simp: well_addressed_def pass_goals_def option_goal_def Let_def split: option.splits\<close>)
    then show ?thesis by (simp add: seen_goal_def)
  qed
  moreover have "deleted_goal (r_Lib r) vw svc (held s' (owned_address svc x))"
    if "err = None" "\<not> r_GatewayReplicas r > 1" "x \<in> {(SecretKind, ''-demand-auth''), (DeploymentKind, ''-scaler'')}" for x
    by (rule goal) (use that wa in \<open>auto simp: well_addressed_def pass_goals_def workload_goals_def Let_def\<close>)
  moreover have "list_all (\<lambda>obj. applied_goal (r_Lib r) carries svc obj (held s' (address obj))) (applied_objects d)" if "err = None"
    using applied_goals [OF wa] by (rule list.pred_mono_strong) (rule goal [OF that])
  moreover have "list_all (\<lambda>obj. created_goal (r_Lib r) svc obj (held s' (address obj))) (created_objects d)" if "err = None"
    using created_goals [OF wa demand_secret_unhashed [OF assms(4)]] goal [OF that] unfolding list_all_iff by blast
  ultimately show ?thesis using frame kept by simp
qed

text \<open>The API server in memory stores what it is told.\<close>

definition memory_held :: "memory \<Rightarrow> store" where
  "memory_held s a = find (\<lambda>v. address v = a) (mem_objects s)"

lemma find_other: "a \<noteq> b \<Longrightarrow> find (\<lambda>v. f v = a) (filter (\<lambda>v. f v \<noteq> b) xs) = find (\<lambda>v. f v = a) xs"
  by (induction xs) auto

lemma find_gone: "find (\<lambda>v. f v = a) (filter (\<lambda>v. f v \<noteq> a) xs) = None"
  by (induction xs) auto

definition memory_view :: view where
  "memory_view = \<lparr>sees = cached managerCacheOptions, ending = (\<lambda>_. False)\<rparr>"

lemma memory_get_stores: "get_stores memory_held memory_view memory_client"
  by (auto simp: get_stores_def memory_client_def memory_held_def memory_view_def or_not_found_def NotFoundError_def IsNotFound_def
      split: option.splits Option.bind_splits if_splits)

lemma memory_delete_stores: "delete_stores memory_held memory_view memory_client"
  by (auto simp: delete_stores_def memory_client_def memory_held_def memory_view_def find_other find_gone split: option.splits if_splits)

lemma memory_store_law: "store_law memory_held memory_view (=) memory_client"
proof -
  have "apply_stores memory_held (=) memory_client" "create_stores memory_held (=) memory_client"
    "memory_held s a = Some x \<Longrightarrow> address x = a" for s a x
    by (auto simp: apply_stores_def create_stores_def memory_client_def memory_held_def
        ExistsError_def IsAlreadyExists_def find_other find_gone find_None_iff find_Some_iff fun_eq_iff image_iff
        split: option.splits sum.splits if_splits)
  then show ?thesis using memory_get_stores memory_delete_stores unfolding store_law_def by blast
qed

lemma memory_carries_law: "carries_law memory_lib (=)"
proof -
  have "create_hash (set_controller u obj) = create_hash obj" for u obj by (cases obj) (simp_all add: create_hash_def)
  then show ?thesis by (auto simp: carries_law_def memory_lib_def)
qed

subsection \<open>The next pass\<close>

text \<open>
  Applying a configuration that the stored object already carries changes nothing. \<open>keeps held G f\<close>: in
  a cluster that satisfies the goals of \<open>G\<close>, \<open>f\<close> changes no object.
\<close>

definition idempotent_law :: "('s \<Rightarrow> store) \<Rightarrow> (kobject \<Rightarrow> kobject \<Rightarrow> bool) \<Rightarrow> 's client \<Rightarrow> bool" where
  "idempotent_law held carries c \<longleftrightarrow>
     (\<forall>obj x s err s'. run_state (cl_Apply c obj) s = (err, s') \<longrightarrow> held s (address obj) = Some x \<longrightarrow> carries x obj \<longrightarrow> held s' = held s)"

definition reached :: "('s \<Rightarrow> store) \<Rightarrow> goal list \<Rightarrow> 's \<Rightarrow> bool" where
  "reached held G s \<longleftrightarrow> list_all (\<lambda>(a, goal). goal (held s a)) G"

definition keeps :: "('s \<Rightarrow> store) \<Rightarrow> goal list \<Rightarrow> ('s, 'r) state \<Rightarrow> bool" where
  "keeps held G f \<longleftrightarrow> (\<forall>s r s'. reached held G s \<longrightarrow> run_state f s = (r, s') \<longrightarrow> held s' = held s)"

lemma keepsD: "keeps held G f \<Longrightarrow> reached held G s \<Longrightarrow> run_state f s = (r, s') \<Longrightarrow> held s' = held s"
  unfolding keeps_def by blast

lemma reached_simps [simp]:
  "reached held [] s" "reached held ((a, goal) # G) s \<longleftrightarrow> goal (held s a) \<and> reached held G s"
  "reached held (G @ H) s \<longleftrightarrow> reached held G s \<and> reached held H s"
  by (simp_all add: reached_def)

lemma reached_cong: "held s' = held s \<Longrightarrow> reached held G s' = reached held G s"
  by (simp add: reached_def)

lemma keeps_return: "keeps held G (ret x)"
  by (simp add: keeps_def)

lemma keeps_bind:
  assumes "keeps held G f" and "\<And>x. keeps held H (g x)"
  shows "keeps held (G @ H) (f \<bind> g)"
  unfolding keeps_def
proof (intro allI impI)
  fix s r s'
  assume at: "reached held (G @ H) s" and run: "run_state (f \<bind> g) s = (r, s')"
  obtain x s1 where f: "run_state f s = (x, s1)" and g: "run_state (g x) s1 = (r, s')" using run by (auto split: prod.splits)
  have "held s1 = held s" using keepsD [OF assms(1) _ f] at by simp
  moreover from this have "held s' = held s1" using keepsD [OF assms(2) _ g] at reached_cong [of held s1 s H] by simp
  ultimately show "held s' = held s" by simp
qed

lemma keeps_on_error:
  assumes "keeps held [(a, goal)] act" and "keeps held G rest"
  shows "keeps held ((a, goal) # G) (on_error act failed rest)"
  unfolding on_error_def
  by (rule keeps_bind [OF assms(1), of G, simplified]) (auto intro: keeps_return assms(2) split: option.splits)

lemma keeps_apply:
  assumes "reference_law (r_Lib r)" and "idempotent_law held carries (r_Client r)" and "address obj = a"
  shows "keeps held [(a, applied_goal (r_Lib r) carries owner obj)] (apply_object r owner obj)"
proof -
  have "held s' = held s" if x: "held s a = Some x" "configuration (r_Lib r) owner obj = Some conf" "carries x conf"
    and run: "run_state (apply_object r owner obj) s = (err, s')" for s err s' x conf
  proof -
    have "run_state (cl_Apply (r_Client r) conf) s = (err, s')" using run x(2) by (simp add: apply_object_configuration)
    with configuration_law(1) [OF assms(1) x(2)] assms(2,3) x(1,3) show ?thesis unfolding idempotent_law_def by metis
  qed
  then show ?thesis by (auto simp: keeps_def applied_goal_def)
qed

text \<open>An object that exists is not created again.\<close>

lemma keeps_ensureCreated:
  assumes "reference_law (r_Lib r)" and "store_law held vw carries (r_Client r)" and "address obj = a"
    and "\<And>v. goal v \<Longrightarrow> v \<noteq> None"
  shows "keeps held [(a, goal)] (ensureCreated r owner obj)"
proof -
  have "held s' = held s" if at: "held s a \<noteq> None" and run: "run_state (ensureCreated r owner obj) s = (res, s')" for s res s'
  proof (cases "SetControllerReference (r_Lib r) owner obj")
    case (Inl e)
    with run show ?thesis by (simp add: ensureCreated_def Let_def)
  next
    case (Inr obj1)
    have addr: "address obj1 = a" using assms(1,3) Inr unfolding reference_law_def by blast
    obtain res1 s1 where create: "run_state (cl_Create (r_Client r) obj1) s = (res1, s1)" by fastforce
    obtain e where law: "res1 = Inl e" "held s1 = held s"
      using create_storesD(4) [OF store_lawD(3) [OF assms(2)] create] at addr by blast
    obtain res2 s2 where get: "run_state (cl_Get (r_Client r) (kind_of obj1) (key_of obj1)) s1 = (res2, s2)" by fastforce
    have "s' = s1 \<or> s' = s2" using run create get Inr law(1) by (simp add: ensureCreated_def Let_def split: if_splits)
    with get_storesD(1) [OF store_lawD(1) [OF assms(2)] get] law(2) show ?thesis by auto
  qed
  then show ?thesis using assms(4) unfolding keeps_def reached_simps by blast
qed

lemma keeps_created: "keeps held G act \<Longrightarrow> keeps held G (created act)"
  unfolding created_def by (erule keeps_bind [of _ _ _ "[]", simplified]) (rule keeps_return)

lemma keeps_delete:
  assumes "store_law held vw carries (r_Client r)" and "(kd, key) = a"
  shows "keeps held [(a, deleted_goal (r_Lib r) vw owner)] (deleteOwned r owner kd key)"
proof -
  have "held s' = held s" if at: "deleted_goal (r_Lib r) vw owner (held s a)" and run: "run_state (deleteOwned r owner kd key) s = (err, s')" for s err s'
  proof -
    obtain res s1 where get: "run_state (cl_Get (r_Client r) kd key) s = (res, s1)" by fastforce
    note found = get_storesD [OF store_lawD(1) [OF assms(1)] get]
    show ?thesis
    proof (cases res)
      case (Inr obj)
      have obj: "held s a = Some obj" "address obj = a" "sees vw obj"
        using found(2,3) [OF Inr] store_lawD(5) [OF assms(1)] assms(2) by auto
      show ?thesis
      proof (cases "IsControlledBy (r_Lib r) obj owner")
        case False
        with run get Inr found(1) show ?thesis by (simp add: deleteOwned_def)
      next
        case True
        obtain err1 s2 where del: "run_state (cl_Delete (r_Client r) obj) s1 = (err1, s2)" by fastforce
        have "ending vw obj" using at obj(1,3) True by (simp add: deleted_goal_def)
        then have "held s2 = held s1"
          using delete_storesD(3) [OF store_lawD(4) [OF assms(1)] del] obj(1,2) found(1) by simp
        moreover have "s' = s2" using run get Inr True del by (simp add: deleteOwned_def)
        ultimately show ?thesis using found(1) by simp
      qed
    qed (use run get found(1) in \<open>simp add: deleteOwned_def\<close>)
  qed
  then show ?thesis by (auto simp: keeps_def)
qed

lemma keeps_skip: "keeps held G f \<Longrightarrow> keeps held (H @ G) f"
  by (simp add: keeps_def)

lemma keeps_secret:
  assumes "reference_law (r_Lib r)" and "store_law held vw carries (r_Client r)"
    and "\<And>x. sec = Some x \<Longrightarrow> address (KSecret x) = a" and "keeps held G rest"
  shows "keeps held (option_goal a (\<lambda>_. seen_goal seen (secret_goal (r_Lib r) owner)) sec @ G) (ensure_secret r owner sec rest)"
proof (cases sec)
  case (Some x)
  have "keeps held [(a, seen_goal seen (secret_goal (r_Lib r) owner))] (ensureCreated r owner (KSecret x))"
    by (rule keeps_ensureCreated [OF assms(1,2) assms(3) [OF Some]]) (auto simp: seen_goal_def)
  then show ?thesis unfolding Some option_goal_simps ensure_secret_def option.case
    by (rule keeps_bind) (auto intro: keeps_return assms(4) split: sum.splits option.splits)
qed (use assms(4) in \<open>simp add: ensure_secret_def\<close>)

lemma keeps_optional:
  assumes "reference_law (r_Lib r)" and "store_law held vw carries (r_Client r)"
    and "\<And>x. obj = Some x \<Longrightarrow> address x = a" and "keeps held G rest"
  shows "keeps held (option_goal a (created_goal (r_Lib r) owner) obj @ G) (ensure_optional r owner reason obj rest)"
proof (cases obj)
  case (Some x)
  have "keeps held [(a, created_goal (r_Lib r) owner x)] (created (ensureCreated r owner x))"
    by (rule keeps_created, rule keeps_ensureCreated [OF assms(1,2) assms(3) [OF Some]]) (auto simp: created_goal_def)
  with Some assms(4) show ?thesis by (simp add: ensure_optional_def keeps_on_error)
qed (use assms(4) in \<open>simp add: ensure_optional_def\<close>)

lemma keeps_workloads:
  assumes "reference_law (r_Lib r)" and "store_law held vw carries (r_Client r)" and "idempotent_law held carries (r_Client r)"
    and "well_addressed svc n d"
  shows "keeps held (workload_goals (r_Lib r) vw carries svc d) (apply_workloads r svc d)"
proof -
  note app = keeps_apply [OF assms(1,3)] and del = keeps_delete [OF assms(2)]
  have deletes: "keeps held (map (\<lambda>x. (owned_address svc x, deleted_goal (r_Lib r) vw svc))
      [(DeploymentKind, ''-scaler''), (SecretKind, ''-demand-auth'')]) (delete_scaler r svc None)"
    unfolding delete_scaler_def option.case deleteObsoleteScaler_def list.map
    by (rule keeps_bind [of _ _ _ "[]", unfolded append_Nil2], intro keeps_on_error del keeps_return)
      (auto simp: owned_address_def name_defs intro: keeps_return)
  have pdb: "keeps held ((owned_address svc (PodDisruptionBudgetKind, ''-gateway''),
      case d_gatewayPDB d of Some x \<Rightarrow> applied_goal (r_Lib r) carries svc (KPodDisruptionBudget x)
      | None \<Rightarrow> deleted_goal (r_Lib r) vw svc) # G) (apply_pdb r svc (d_gatewayPDB d) rest)" if "keeps held G rest" for G and rest :: "('a, apply_result) state"
    unfolding apply_pdb_def using that assms(4)
    by (cases "d_gatewayPDB d") (auto intro!: keeps_on_error app del simp: well_addressed_def owned_address_def)
  show ?thesis
  proof (cases "d_scalerDeployment d")
    case None
    show ?thesis unfolding workload_goals_def apply_workloads_def Let_def append_Cons append_Nil None option_goal_simps simp_thms if_True
        apply_scaler_def option.case
      by (intro keeps_on_error pdb app deletes) (use assms(4) in \<open>simp_all add: well_addressed_def\<close>)
  next
    case (Some x)
    show ?thesis unfolding workload_goals_def apply_workloads_def Let_def append_Cons append_Nil Some option_goal_simps
        option.distinct if_False apply_scaler_def option.case delete_scaler_def
      by (intro keeps_on_error pdb app keeps_return) (use assms(4) Some in \<open>simp_all add: well_addressed_def\<close>)
  qed
qed

lemma keeps_pass:
  assumes "reference_law (r_Lib r)" and "store_law held vw carries (r_Client r)" and "idempotent_law held carries (r_Client r)"
    and "well_addressed svc n d"
  shows "keeps held (pass_goals (r_Lib r) seen vw carries svc d) (applyDesired r svc d)"
  unfolding pass_goals_def applyDesired_def Let_def
  by (intro keeps_on_error keeps_apply [OF assms(1,3)] keeps_secret [OF assms(1,2)] keeps_optional [OF assms(1,2)] keeps_workloads [OF assms])
    (use assms(4) in \<open>auto simp: well_addressed_def\<close>)

text \<open>Rendering again differs in the generated Secret at most.\<close>

lemma renderDesired_again:
  assumes "renderDesired be r svc rt adapter model = Inr d" and "renderDesired (be\<lparr>be_rand := rand\<rparr>) r svc rt adapter model = Inr d'"
  shows "pass_goals lib seen vw carries svc d' = pass_goals lib seen vw carries svc d"
proof -
  have "d' = d\<lparr>d_demandSecret := d_demandSecret d'\<rparr>" "(d_demandSecret d' = None) = (d_demandSecret d = None)"
    using assms by (auto simp: renderDesired_def BuildDemandAuthSecret_def split: sum.splits if_splits)
  moreover have "pass_goals lib seen vw carries svc (d\<lparr>d_demandSecret := x\<rparr>) = pass_goals lib seen vw carries svc d"
    if "(x = None) = (d_demandSecret d = None)" for x
    using that by (cases x; cases "d_demandSecret d") (simp_all add: pass_goals_def workload_goals_def)
  ultimately show ?thesis by metis
qed

text \<open>
  C13. Reconciling a service whose resources are in place changes no object: after a successful pass, the
  next one finds every apply already carried out, creates nothing, deletes nothing, and keeps the
  shared Secret although every pass renders a fresh one, whatever the API server answers.
\<close>

theorem next_pass_changes_nothing:
  assumes "reference_law (r_Lib r)" and "carries_law (r_Lib r) carries" and "store_law held vw carries (r_Client r)"
    and "idempotent_law held carries (r_Client r)"
    and "renderDesired be r svc rt adapter model = Inr d" and "renderDesired (be\<lparr>be_rand := rand\<rparr>) r svc rt adapter model = Inr d'"
    and "run_state (applyDesired r svc d) s = ((reason, applied, None), s')"
    and "run_state (applyDesired r svc d') s' = (res, s'')"
  shows "held s'' = held s'"
proof -
  have "reached held (pass_goals (r_Lib r) (\<lambda>_. True) vw carries svc d) s'"
    using secures_goal [OF secures_pass [OF assms(1-3) renderDesired_addresses [OF assms(5)] seen_law_all] assms(7)]
    unfolding reached_def list_all_iff by auto
  then have "reached held (pass_goals (r_Lib r) (\<lambda>_. True) vw carries svc d') s'"
    using renderDesired_again [OF assms(5,6)] by metis
  then show ?thesis
    by (rule keepsD [OF keeps_pass [OF assms(1,3,4) renderDesired_addresses [OF assms(6)]] _ assms(8)])
qed

lemma memory_idempotent_law: "idempotent_law memory_held (=) memory_client"
  by (auto simp: idempotent_law_def memory_client_def memory_held_def fun_eq_iff find_other)

lemma renderDesired_rand:
  "renderDesired be r svc rt adapter model = Inr d \<Longrightarrow> \<exists>d'. renderDesired (be\<lparr>be_rand := Inr raw\<rparr>) r svc rt adapter model = Inr d'"
  by (auto simp: renderDesired_def BuildDemandAuthSecret_def split: sum.splits)

text \<open>In memory a pass succeeds unless what it creates exists: \<open>flows A f\<close> if \<open>A\<close> is what it creates.\<close>

definition flows :: "(kind \<times> object_key) set \<Rightarrow> (memory, apply_result) state \<Rightarrow> bool" where
  "flows A f \<longleftrightarrow> (\<forall>s. (\<forall>v\<in>set (mem_objects s). address v \<notin> A) \<longrightarrow> succeeded (fst (run_state f s)))"

lemma flows_apply:
  assumes "flows A rest" and "address obj \<notin> A"
  shows "flows A (on_error (apply_object memory_reconciler owner obj) failed rest)"
  using assms by (auto simp: flows_def on_error_def apply_object_def memory_lib_def memory_client_def)

lemma flows_delete:
  assumes "flows A rest"
  shows "flows A (on_error (deleteOwned memory_reconciler owner kd key) failed rest)"
  using assms
  by (auto simp: flows_def on_error_def deleteOwned_def memory_client_def or_not_found_def NotFoundError_def IgnoreNotFound_def
      IsNotFound_def split: option.splits)

lemma flows_create:
  assumes "flows A rest" and "address obj = a" and "a \<notin> A"
  shows "flows (insert a A) (ensure_optional memory_reconciler owner reason (Some obj) rest)"
  using assms
  by (auto simp: flows_def ensure_optional_def on_error_def created_def ensureCreated_def memory_lib_def memory_client_def Let_def sum_error_def)

lemma flows_mono: "flows A f \<Longrightarrow> A \<subseteq> B \<Longrightarrow> flows B f"
  unfolding flows_def by blast

lemma flows_optional:
  assumes "flows A rest" and "\<And>x. obj = Some x \<Longrightarrow> address x = a" and "a \<notin> A"
  shows "flows (insert a A) (ensure_optional memory_reconciler owner reason obj rest)"
proof (cases obj)
  case None
  with assms(1) show ?thesis by (auto simp: ensure_optional_def intro: flows_mono)
qed (use flows_create assms in simp)

lemma flows_secret:
  assumes "flows A rest" and "address (KSecret x) = a" and "a \<notin> A" and "ValidateDemandAuthSecret x = None"
  shows "flows (insert a A) (ensure_secret memory_reconciler owner (Some x) rest)"
proof -
  have "ValidateDemandAuthSecret (x\<lparr>sec_Meta := y\<rparr>) = None" for y
    using assms(4) by (auto simp: ValidateDemandAuthSecret_def split: option.splits)
  moreover have "address (KSecret (x\<lparr>sec_Meta := (sec_Meta x)\<lparr>om_Controller := u\<rparr>\<rparr>)) = a" for u
    using assms(2) by (simp add: address_def key_of_def)
  ultimately show ?thesis
    using assms by (auto simp: flows_def ensure_secret_def ensureCreated_def memory_lib_def memory_client_def as_secret_def Let_def)
qed

lemma memory_pass_succeeds:
  assumes "well_addressed svc n d" and "n > 1" and "mem_objects s = []"
    and "\<And>x. d_demandSecret d = Some x \<Longrightarrow> ValidateDemandAuthSecret x = None"
  shows "succeeded (fst (run_state (applyDesired memory_reconciler svc d) s))"
proof -
  obtain x dep where sec: "d_demandSecret d = Some x" "d_scalerDeployment d = Some dep" using assms(1,2) by (auto simp: well_addressed_def)
  have pdb: "flows {} (apply_pdb memory_reconciler svc (d_gatewayPDB d) rest)" if "flows {} rest" for rest
    using that by (cases "d_gatewayPDB d") (simp_all add: apply_pdb_def flows_apply flows_delete)
  have "flows {} (apply_workloads memory_reconciler svc d)"
    unfolding apply_workloads_def apply_scaler_def delete_scaler_def sec(2) option.case
    by (intro flows_apply pdb) (simp_all add: flows_def)
  then have "flows {owned_address svc (SecretKind, ''-demand-auth''), owned_address svc (PersistentVolumeClaimKind, ''-cache''),
      owned_address svc (JobKind, ''-prewarm'')} (applyDesired memory_reconciler svc d)"
    unfolding applyDesired_def sec(1)
    by (intro flows_apply flows_secret flows_optional)
      (use assms(1,4) sec(1) in \<open>auto simp: well_addressed_def owned_address_def\<close>)
  with assms(3) show ?thesis by (simp add: flows_def)
qed

lemmas memory_laws = memory_reference_law memory_carries_law memory_store_law memory_idempotent_law

lemma example_pass:
  obtains d reason applied s' where
    "renderDesired example_build memory_reconciler example_svc example_rt (nvidia_New plain_text) example_model = Inr d"
    and "run_state (applyDesired memory_reconciler example_svc d) example_memory = ((reason, applied, None), s')"
proof -
  obtain d where d: "renderDesired example_build memory_reconciler example_svc example_rt (nvidia_New plain_text) example_model = Inr d"
    using example_rendered by blast
  have wa: "well_addressed example_svc 3 d" using renderDesired_addresses [OF d] by (simp add: memory_reconciler_def)
  have "ValidateDemandAuthSecret x = None" if "d_demandSecret d = Some x" for x
    using d that
    by (auto simp: renderDesired_def example_build_def BuildDemandAuthSecret_def ValidateDemandAuthSecret_def ValidateAuthToken_def
        length_base64_raw_url base64_visible_trim memory_reconciler_def Let_def split: sum.splits)
  then have "succeeded (fst (run_state (applyDesired memory_reconciler example_svc d) example_memory))"
    by (intro memory_pass_succeeds [OF wa]) (simp_all add: example_memory_def)
  with d that show thesis by (metis succeeded_simps prod.exhaust fst_conv)
qed

theorem cluster_converges_witness:
  "\<exists>d s'. renderDesired example_build memory_reconciler example_svc example_rt (nvidia_New plain_text) example_model = Inr d
     \<and> snd (run_state (applyDesired memory_reconciler example_svc d) example_memory) = s'
     \<and> list_all (\<lambda>obj. applied_goal memory_lib (=) example_svc obj (memory_held s' (address obj))) (applied_objects d)
     \<and> secret_goal memory_lib example_svc (memory_held s' (owned_address example_svc (SecretKind, ''-demand-auth'')))"
proof -
  obtain d reason applied s' where run:
    "renderDesired example_build memory_reconciler example_svc example_rt (nvidia_New plain_text) example_model = Inr d"
    "run_state (applyDesired memory_reconciler example_svc d) example_memory = ((reason, applied, None), s')"
    by (rule example_pass)
  have "r_GatewayReplicas memory_reconciler = 3" by (simp add: memory_reconciler_def)
  with cluster_converges [of memory_reconciler "(=)" memory_held memory_view, OF _ _ _ run] run show ?thesis
    by (simp add: memory_laws)
qed

theorem next_pass_changes_nothing_witness:
  "\<exists>d d' s' res s''.
     renderDesired example_build memory_reconciler example_svc example_rt (nvidia_New plain_text) example_model = Inr d
     \<and> renderDesired (example_build\<lparr>be_rand := Inr (replicate 32 CHR ''y'')\<rparr>) memory_reconciler example_svc example_rt
         (nvidia_New plain_text) example_model = Inr d'
     \<and> snd (run_state (applyDesired memory_reconciler example_svc d) example_memory) = s'
     \<and> run_state (applyDesired memory_reconciler example_svc d') s' = (res, s'')
     \<and> memory_held s'' = memory_held s'"
proof -
  obtain d reason applied s' where run:
    "renderDesired example_build memory_reconciler example_svc example_rt (nvidia_New plain_text) example_model = Inr d"
    "run_state (applyDesired memory_reconciler example_svc d) example_memory = ((reason, applied, None), s')"
    by (rule example_pass)
  obtain d' where d': "renderDesired (example_build\<lparr>be_rand := Inr (replicate 32 CHR ''y'')\<rparr>) memory_reconciler example_svc example_rt
      (nvidia_New plain_text) example_model = Inr d'"
    using renderDesired_rand [OF run(1)] by blast
  obtain res s'' where run': "run_state (applyDesired memory_reconciler example_svc d') s' = (res, s'')" by fastforce
  have "memory_held s'' = memory_held s'"
    by (rule next_pass_changes_nothing [of memory_reconciler "(=)" memory_held memory_view, OF _ _ _ _ run(1) d' run(2) run'])
      (simp_all add: memory_laws)
  with run d' run' show ?thesis by (metis snd_conv)
qed

subsection \<open>The status settles\<close>

text \<open>
  Writing a status wakes the controller again, so a status that is up to date must not be written.
  \<open>SetStatusCondition\<close> leaves a list alone that already has the condition, and \<open>DeepEqual\<close> is reflexive.
\<close>

definition settled_law :: "kube_lib \<Rightarrow> bool" where
  "settled_law lib \<longleftrightarrow>
     (\<forall>cs c c'. FindStatusCondition lib cs (cond_Type c) = Some c' \<and> same_condition c' c \<longrightarrow> SetStatusCondition lib cs c = cs)
     \<and> (\<forall>st. SemanticDeepEqual lib st st)"

lemma set_condition_settled: "settled_law lib \<Longrightarrow> has_condition lib svc c \<Longrightarrow> set_condition lib c svc = svc"
  unfolding settled_law_def has_condition_def set_condition_def by (auto split: option.splits)

text \<open>The service as it is read after its observed status has been stored.\<close>

definition stored_service :: "kube_lib \<Rightarrow> LLMService \<Rightarrow> string \<Rightarrow> deployment \<Rightarrow> pod list \<Rightarrow> string \<Rightarrow> LLMService" where
  "stored_service lib svc rn dep pods version =
     svc\<lparr>svc_Status := svc_Status (observed_service lib svc rn dep pods),
         svc_Meta := (svc_Meta svc)\<lparr>om_ResourceVersion := version\<rparr>\<rparr>"

lemma stored_service_simps [simp]:
  "svc_Name (stored_service lib svc rn dep pods v) = svc_Name svc"
  "svc_Namespace (stored_service lib svc rn dep pods v) = svc_Namespace svc"
  "observed_phase (stored_service lib svc rn dep pods v) dep pods = observed_phase svc dep pods"
  "mk_condition t (stored_service lib svc rn dep pods v) st re me = mk_condition t svc st re me"
  by (simp_all add: stored_service_def observed_phase_def mk_condition_def)

lemma observed_fields:
  "st_Phase (svc_Status (observed_service lib svc rn dep pods)) = observed_phase svc dep pods"
  "st_ResolvedRuntime (svc_Status (observed_service lib svc rn dep pods)) = rn"
  "st_Replicas (svc_Status (observed_service lib svc rn dep pods)) = ds_ReadyReplicas (dep_Status dep)"
  "st_EndpointURL (svc_Status (observed_service lib svc rn dep pods)) = ''http://'' @ svc_Name svc @ ''.'' @ svc_Namespace svc @ ''.svc/v1''"
  by (simp_all add: observed_service_def set_condition_def Let_def)

lemma observed_again:
  assumes "condition_law lib" and "settled_law lib"
  shows "observed_service lib (stored_service lib svc rn dep pods v) rn dep pods = stored_service lib svc rn dep pods v"
proof -
  let ?t = "stored_service lib svc rn dep pods v" and ?ph = "observed_phase svc dep pods" and ?ob = "observeBackend dep pods"
  have st: "svc_Status ?t = svc_Status (observed_service lib svc rn dep pods)" by (simp add: stored_service_def)
  have has: "has_condition lib ?t c" if "has_condition lib (observed_service lib svc rn dep pods) c" for c
    using that by (simp add: has_condition_def st)
  have conds: "autoscaling_ready ?t = autoscaling_ready svc" "ready_condition ?t ?ph ?ob = ready_condition svc ?ph ?ob"
    "degraded_condition ?t ?ph ?ob = degraded_condition svc ?ph ?ob"
    by (simp_all add: autoscaling_ready_def ready_condition_def degraded_condition_def split: LLMServicePhase.split)
  have keep: "set_condition lib c ?t = ?t" if "c \<in> {autoscaling_ready ?t, ready_condition ?t ?ph ?ob, degraded_condition ?t ?ph ?ob}" for c
    using set_condition_settled [OF assms(2) has] observed_service_conditions [OF assms(1), of svc rn dep pods] that
    by (auto simp: conds)
  have "svc_Status ?t = (svc_Status ?t)\<lparr>st_Phase := ?ph, st_ResolvedRuntime := rn, st_Replicas := ds_ReadyReplicas (dep_Status dep),
      st_EndpointURL := ''http://'' @ svc_Name svc @ ''.'' @ svc_Namespace svc @ ''.svc/v1''\<rparr>"
    unfolding st using observed_fields [of lib svc rn dep pods] by (simp add: LLMServiceStatus.equality)
  then have "?t\<lparr>svc_Status := (svc_Status ?t)\<lparr>st_Phase := ?ph, st_ResolvedRuntime := rn, st_Replicas := ds_ReadyReplicas (dep_Status dep),
      st_EndpointURL := ''http://'' @ svc_Name svc @ ''.'' @ svc_Namespace svc @ ''.svc/v1''\<rparr>\<rparr> = ?t"
    by (metis LLMService.surjective LLMService.update_convs(3))
  then show ?thesis by (simp add: observed_service_def Let_def keep)
qed

text \<open>
  C17. The controller does not wake itself for ever: when the stored status of a service is the one that was
  observed, a further reconciliation that observes the same Deployment and pods neither writes the
  status nor sends an event, and succeeds.
\<close>

theorem status_settles:
  assumes "condition_law (r_Lib r)" and "settled_law (r_Lib r)" and "steps \<noteq> 0"
    and "run_state (cl_GetLLMService (r_Client r) (svc_Namespace svc, svc_Name svc)) s =
      (Inr (stored_service (r_Lib r) svc rn dep pods v), s1)"
    and "run_state (updateStatus steps (recording r) (stored_service (r_Lib r) svc rn dep pods v) rn dep pods) (s, []) = (err, s', l)"
  shows "l = [] \<and> err = None \<and> s' = s1"
proof -
  let ?t = "stored_service (r_Lib r) svc rn dep pods v"
  obtain n where n: "steps = Suc n" using assms(3) by (cases steps) auto
  have refl: "SemanticDeepEqual (r_Lib r) (svc_Status ?t) (svc_Status ?t)" using assms(2) by (simp add: settled_law_def)
  have "run_state (update_attempt (recording r) (svc_Status ?t) (None, False, ?t)) (s, []) =
      ((None, Some (svc_Status ?t), False, ?t\<lparr>svc_Status := svc_Status ?t,
         svc_Meta := (svc_Meta ?t)\<lparr>om_ResourceVersion := om_ResourceVersion (svc_Meta ?t)\<rparr>\<rparr>), s1, [])"
    using assms(4) refl by (simp add: update_attempt_def Let_def)
  then have "run_state (updateStatusWithRetry steps (recording r) ?t (svc_Status ?t)) (s, []) =
      ((None, Some (svc_Status ?t), False, ?t\<lparr>svc_Status := svc_Status ?t,
         svc_Meta := (svc_Meta ?t)\<lparr>om_ResourceVersion := om_ResourceVersion (svc_Meta ?t)\<rparr>\<rparr>), s1, [])"
    by (simp add: updateStatusWithRetry_def n)
  then show ?thesis
    using assms(5) observed_again [OF assms(1,2), of svc rn dep pods v] by (simp add: updateStatus_def Let_def)
qed

text \<open>Conditions that keep their place, as \<open>SetStatusCondition\<close> of apimachinery does.\<close>

definition placing_lib :: kube_lib where
  "placing_lib = memory_lib\<lparr>SetStatusCondition := (\<lambda>cs c.
     case find (\<lambda>x. cond_Type x = cond_Type c) cs of
       None \<Rightarrow> cs @ [c]
     | Some x \<Rightarrow> if same_condition x c then cs else map (\<lambda>x. if cond_Type x = cond_Type c then c else x) cs)\<rparr>"

lemma find_append_one: "find P (xs @ [x]) = (case find P xs of None \<Rightarrow> if P x then Some x else None | Some y \<Rightarrow> Some y)"
  by (induction xs) auto

lemma find_replace:
  "find (\<lambda>x. cond_Type x = t) (map (\<lambda>x. if cond_Type x = cond_Type c then c else x) cs) =
     (if t = cond_Type c then map_option (\<lambda>_. c) (find (\<lambda>x. cond_Type x = t) cs) else find (\<lambda>x. cond_Type x = t) cs)"
  by (induction cs) auto

lemma placing_laws: "condition_law placing_lib" "settled_law placing_lib"
  by (auto simp: condition_law_def settled_law_def placing_lib_def memory_lib_def find_append_one find_replace same_condition_def
      split: option.splits)

theorem status_settles_witness:
  "let t = stored_service placing_lib example_svc ''vllm'' example_live [] ''2'' in
   run_state (updateStatus 5 (recording (memory_reconciler\<lparr>r_Lib := placing_lib\<rparr>)) t ''vllm'' example_live [])
     (example_memory\<lparr>mem_services := [t]\<rparr>, []) = (None, example_memory\<lparr>mem_services := [t]\<rparr>, [])"
proof -
  let ?r = "memory_reconciler\<lparr>r_Lib := placing_lib\<rparr>"
  let ?t = "stored_service (r_Lib ?r) example_svc ''vllm'' example_live [] ''2''"
  let ?s = "example_memory\<lparr>mem_services := [?t]\<rparr>"
  obtain err s' l where run: "run_state (updateStatus 5 (recording ?r) ?t ''vllm'' example_live []) (?s, []) = (err, s', l)"
    by (metis prod.exhaust)
  have get: "run_state (cl_GetLLMService (r_Client ?r) (svc_Namespace example_svc, svc_Name example_svc)) ?s = (Inr ?t, ?s)"
    by (simp add: memory_reconciler_def memory_client_def or_not_found_def)
  have "l = [] \<and> err = None \<and> s' = ?s"
    by (rule status_settles [OF _ _ _ get run]) (simp_all add: placing_laws)
  with run show ?thesis by (simp add: Let_def)
qed

end
