(* ===== verification/Operator_Process.thy ===== *)
theory Operator_Process
  imports Convergence
begin

section \<open>The operator process\<close>

text \<open>
  \<open>cmd/main.go\<close> and the \<open>SetupWithManager\<close> methods of the two controllers: the flags of the operator, the
  options of its manager, the watches of its controllers, and the order in which the process sets them
  up, with the exit code of every failure. The manager of controller-runtime is a parameter, as are the
  flags that libraries register on the command line. \<open>flag.Parse\<close> and what it uses of \<open>strconv\<close> are written out.
\<close>

subsection \<open>Numbers and truth values of flags\<close>

definition lower :: "char \<Rightarrow> char" where
  "lower c = char_of ((of_char c :: nat) + (if CHR ''A'' \<le> c \<and> c \<le> CHR ''Z'' then 32 else 0))"

definition base_digit :: "char \<Rightarrow> nat option" where
  "base_digit c =
     (let l = lower c in
      if CHR ''0'' \<le> c \<and> c \<le> CHR ''9'' then Some (of_char c - 48)
      else if CHR ''a'' \<le> l \<and> l \<le> CHR ''z'' then Some (of_char l - 87)
      else None)"

text \<open>\<open>underscoreOK\<close>: an underscore stands between digits; the prefix of a base counts as a digit.\<close>

datatype underscore_state = Start | Digit | Underscore | Other

fun underscore_loop :: "bool \<Rightarrow> underscore_state \<Rightarrow> string \<Rightarrow> bool" where
  "underscore_loop hex st [] = (st \<noteq> Underscore)"
| "underscore_loop hex st (c # cs) =
     (if CHR ''0'' \<le> c \<and> c \<le> CHR ''9'' \<or> hex \<and> CHR ''a'' \<le> lower c \<and> lower c \<le> CHR ''f''
      then underscore_loop hex Digit cs
      else if c = CHR ''_'' then st = Digit \<and> underscore_loop hex Underscore cs
      else st \<noteq> Underscore \<and> underscore_loop hex Other cs)"

definition base_prefix :: "string \<Rightarrow> nat option" where
  "base_prefix s =
     (case s of
        z # b # _ \<Rightarrow>
          if z \<noteq> CHR ''0'' then None
          else if lower b = CHR ''b'' then Some 2
          else if lower b = CHR ''o'' then Some 8
          else if lower b = CHR ''x'' then Some 16
          else None
      | _ \<Rightarrow> None)"

definition underscoreOK :: "string \<Rightarrow> bool" where
  "underscoreOK s =
     (case base_prefix s of
        Some b \<Rightarrow> underscore_loop (b = 16) Digit (drop 2 s)
      | None \<Rightarrow> underscore_loop False Start s)"

fun digits_loop :: "nat \<Rightarrow> string \<Rightarrow> nat \<Rightarrow> nat option" where
  "digits_loop base [] n = Some n"
| "digits_loop base (c # cs) n =
     (if c = CHR ''_'' then digits_loop base cs n
      else case base_digit c of
        None \<Rightarrow> None
      | Some d \<Rightarrow> if d < base then digits_loop base cs (n * base + d) else None)"

text \<open>\<open>strconv.ParseUint\<close> in base 0, without its bound, and \<open>ParseInt\<close> for 64 bits.\<close>

definition ParseUint0 :: "string \<Rightarrow> nat option" where
  "ParseUint0 s =
     (if s = [] then None
      else let (base, t) =
          (if hd s \<noteq> CHR ''0'' then (10, s)
           else if length s \<ge> 3 \<and> base_prefix s \<noteq> None then (the (base_prefix s), drop 2 s)
           else (8, drop 1 s))
        in case digits_loop base t 0 of
          None \<Rightarrow> None
        | Some n \<Rightarrow> if CHR ''_'' \<in> set t \<and> \<not> underscoreOK s then None else Some n)"

definition ParseInt0 :: "string \<Rightarrow> int option" where
  "ParseInt0 s =
     (let neg = (s \<noteq> [] \<and> hd s = CHR ''-''); t = (if s \<noteq> [] \<and> hd s \<in> {CHR ''-'', CHR ''+''} then tl s else s) in
      case ParseUint0 t of
        None \<Rightarrow> None
      | Some n \<Rightarrow>
          if neg then if n > 2 ^ 63 then None else Some (- int n)
          else if n \<ge> 2 ^ 63 then None else Some (int n))"

definition ParseBool :: "string \<Rightarrow> bool option" where
  "ParseBool s =
     (if s \<in> {''1'', ''t'', ''T'', ''true'', ''TRUE'', ''True''} then Some True
      else if s \<in> {''0'', ''f'', ''F'', ''false'', ''FALSE'', ''False''} then Some False
      else None)"

subsection \<open>Flags\<close>

record operator_flags =
  f_showVersion :: bool
  f_metricsAddr :: string
  f_probeAddr :: string
  f_enableLeaderElection :: bool
  f_secureMetrics :: bool
  f_metricsCertPath :: string
  f_metricsCertName :: string
  f_metricsCertKey :: string
  f_enableHTTP2 :: bool
  f_gatewayImage :: string
  f_gatewayReplicas :: int

definition default_flags :: operator_flags where
  "default_flags =
     \<lparr>f_showVersion = False, f_metricsAddr = ''0'', f_probeAddr = '':8081'', f_enableLeaderElection = False, f_secureMetrics = True,
      f_metricsCertPath = [], f_metricsCertName = ''tls.crt'', f_metricsCertKey = ''tls.key'', f_enableHTTP2 = False,
      f_gatewayImage = ''ghcr.io/noctaya/noctaya-gateway:latest'', f_gatewayReplicas = 1\<rparr>"

datatype flag =
    BoolVar "bool \<Rightarrow> operator_flags \<Rightarrow> operator_flags"
  | StringVar "string \<Rightarrow> operator_flags \<Rightarrow> operator_flags"
  | IntVar "int \<Rightarrow> operator_flags \<Rightarrow> operator_flags"
  | LibraryVar bool "string \<Rightarrow> bool"

definition command_line :: "(string \<times> flag) list" where
  "command_line =
     [(''version'', BoolVar (\<lambda>v f. f\<lparr>f_showVersion := v\<rparr>)),
      (''metrics-bind-address'', StringVar (\<lambda>v f. f\<lparr>f_metricsAddr := v\<rparr>)),
      (''health-probe-bind-address'', StringVar (\<lambda>v f. f\<lparr>f_probeAddr := v\<rparr>)),
      (''leader-elect'', BoolVar (\<lambda>v f. f\<lparr>f_enableLeaderElection := v\<rparr>)),
      (''metrics-secure'', BoolVar (\<lambda>v f. f\<lparr>f_secureMetrics := v\<rparr>)),
      (''metrics-cert-path'', StringVar (\<lambda>v f. f\<lparr>f_metricsCertPath := v\<rparr>)),
      (''metrics-cert-name'', StringVar (\<lambda>v f. f\<lparr>f_metricsCertName := v\<rparr>)),
      (''metrics-cert-key'', StringVar (\<lambda>v f. f\<lparr>f_metricsCertKey := v\<rparr>)),
      (''enable-http2'', BoolVar (\<lambda>v f. f\<lparr>f_enableHTTP2 := v\<rparr>)),
      (''gateway-image'', StringVar (\<lambda>v f. f\<lparr>f_gatewayImage := v\<rparr>)),
      (''gateway-replicas'', IntVar (\<lambda>v f. f\<lparr>f_gatewayReplicas := v\<rparr>))]"

text \<open>The flags of libraries: whether they are Boolean, and which values they take.\<close>

type_synonym library_flags = "string \<Rightarrow> (bool \<times> (string \<Rightarrow> bool)) option"

definition lookup_flag :: "library_flags \<Rightarrow> string \<Rightarrow> flag option" where
  "lookup_flag lib name =
     (case map_of command_line name of
        Some v \<Rightarrow> Some v
      | None \<Rightarrow> map_option (\<lambda>(b, p). LibraryVar b p) (lib name))"

fun IsBoolFlag :: "flag \<Rightarrow> bool" where
  "IsBoolFlag (BoolVar _) = True"
| "IsBoolFlag (LibraryVar b _) = b"
| "IsBoolFlag _ = False"

fun set_flag :: "flag \<Rightarrow> string \<Rightarrow> operator_flags \<Rightarrow> operator_flags option" where
  "set_flag (BoolVar u) v f = map_option (\<lambda>b. u b f) (ParseBool v)"
| "set_flag (StringVar u) v f = Some (u v f)"
| "set_flag (IntVar u) v f = map_option (\<lambda>n. u n f) (ParseInt0 v)"
| "set_flag (LibraryVar _ p) v f = (if p v then Some f else None)"

datatype flag_error = HelpRequested | BadFlagSyntax string | FlagNotDefined string | FlagNeedsArgument string | InvalidValue string string

text \<open>\<open>flag.Parse\<close>: it stops at the first argument that is not a flag, and after \<open>--\<close>.\<close>

fun parse_flags :: "library_flags \<Rightarrow> string list \<Rightarrow> operator_flags \<Rightarrow> flag_error + operator_flags" where
  "parse_flags lib [] f = Inr f"
| "parse_flags lib (s # args) f =
     (if length s < 2 \<or> hd s \<noteq> CHR ''-'' \<or> s = ''--'' then Inr f
      else let (name, v, hasValue) = Cut (drop (if s ! 1 = CHR ''-'' then 2 else 1) s) ''='' in
        if name = [] \<or> hd name = CHR ''-'' then Inl (BadFlagSyntax s)
        else case lookup_flag lib name of
          None \<Rightarrow> Inl (if name = ''help'' \<or> name = ''h'' then HelpRequested else FlagNotDefined name)
        | Some fl \<Rightarrow>
            if IsBoolFlag fl \<or> hasValue then
              (let v = (if hasValue then v else ''true'') in
               case set_flag fl v f of None \<Rightarrow> Inl (InvalidValue name v) | Some f \<Rightarrow> parse_flags lib args f)
            else
              (case args of
                 [] \<Rightarrow> Inl (FlagNeedsArgument name)
               | v # args \<Rightarrow> (case set_flag fl v f of None \<Rightarrow> Inl (InvalidValue name v) | Some f \<Rightarrow> parse_flags lib args f)))"

subsection \<open>Options of the manager\<close>

datatype metrics_filter = WithAuthenticationAndAuthorization

record metrics_options =
  mo_BindAddress :: string
  mo_SecureServing :: bool
  mo_NextProtos :: "string list option"
  mo_FilterProvider :: "metrics_filter option"
  mo_CertDir :: string
  mo_CertName :: string
  mo_KeyName :: string

text \<open>\<open>TLSOpts\<close> has at most the one option that \<open>disableHTTP2\<close> adds; \<open>mo_NextProtos\<close> is what it sets.\<close>

definition metricsServerOptions :: "operator_flags \<Rightarrow> metrics_options" where
  "metricsServerOptions f =
     (let o1 = \<lparr>mo_BindAddress = f_metricsAddr f, mo_SecureServing = f_secureMetrics f,
                mo_NextProtos = (if \<not> f_enableHTTP2 f then Some [''http/1.1''] else None), mo_FilterProvider = None,
                mo_CertDir = [], mo_CertName = [], mo_KeyName = []\<rparr>;
          o2 = (if f_secureMetrics f then o1\<lparr>mo_FilterProvider := Some WithAuthenticationAndAuthorization\<rparr> else o1)
      in if length (f_metricsCertPath f) > 0
         then o2\<lparr>mo_CertDir := f_metricsCertPath f, mo_CertName := f_metricsCertName f, mo_KeyName := f_metricsCertKey f\<rparr>
         else o2)"

record manager_options =
  mg_Cache :: cache_options
  mg_Metrics :: metrics_options
  mg_HealthProbeBindAddress :: string
  mg_LeaderElection :: bool
  mg_LeaderElectionID :: string
  mg_LeaderElectionReleaseOnCancel :: bool

definition managerOptions :: "operator_flags \<Rightarrow> manager_options" where
  "managerOptions f =
     \<lparr>mg_Cache = managerCacheOptions, mg_Metrics = metricsServerOptions f, mg_HealthProbeBindAddress = f_probeAddr f,
      mg_LeaderElection = f_enableLeaderElection f, mg_LeaderElectionID = ''6d7012cb.noctaya.io'',
      mg_LeaderElectionReleaseOnCancel = True\<rparr>"

subsection \<open>Controllers\<close>

datatype watched = WatchedLLMService | WatchedInferenceRuntime | WatchedPod

datatype map_func = MapServicesForRuntime | MapServiceForBackendPod

text \<open>What a controller watches; the flag of an owned kind is the predicate \<open>GenerationChangedPredicate\<close>.\<close>

record controller =
  c_Name :: string
  c_For :: watched
  c_Watches :: "(watched \<times> map_func) list"
  c_Owns :: "(kind \<times> bool) list"

definition InferenceRuntime_SetupWithManager :: controller where
  "InferenceRuntime_SetupWithManager = \<lparr>c_Name = ''inferenceruntime'', c_For = WatchedInferenceRuntime, c_Watches = [], c_Owns = []\<rparr>"

text \<open>The fields of a reconciler before it is set up, where the registry and the recorder may be \<open>nil\<close>.\<close>

record 's reconciler_fields =
  rf_Client :: "'s client"
  rf_Lib :: kube_lib
  rf_Backends :: "registry option"
  rf_GatewayImage :: string
  rf_GatewayReplicas :: int
  rf_Recorder :: bool

definition SetupWithManager :: "template_parser \<Rightarrow> 's reconciler_fields \<Rightarrow> 's LLMServiceReconciler \<times> controller" where
  "SetupWithManager parse rf =
     (\<lparr>r_Client = rf_Client rf, r_Lib = rf_Lib rf,
       r_Backends = (case rf_Backends rf of None \<Rightarrow> registry_New parse | Some b \<Rightarrow> b),
       r_GatewayImage = rf_GatewayImage rf, r_GatewayReplicas = rf_GatewayReplicas rf,
       r_Recorder = (if \<not> rf_Recorder rf then True else rf_Recorder rf)\<rparr>,
      \<lparr>c_Name = ''llmservice'', c_For = WatchedLLMService,
       c_Watches = [(WatchedInferenceRuntime, MapServicesForRuntime), (WatchedPod, MapServiceForBackendPod)],
       c_Owns = [(DeploymentKind, False), (ServiceKind, False), (PersistentVolumeClaimKind, False), (SecretKind, False),
                 (JobKind, False), (PodDisruptionBudgetKind, False), (ScaledObjectKind, True)]\<rparr>)"

subsection \<open>The process\<close>

text \<open>
  The host: the configuration of the cluster, whose absence ends the process, the errors of the manager's
  methods, its client and its library. \<open>op_Start\<close> is what \<open>Start\<close> returns after a signal.
\<close>

record 's op_host =
  op_flags :: library_flags
  op_config :: bool
  op_NewManager :: "manager_options \<Rightarrow> string + 's client"
  op_Lib :: kube_lib
  op_parse :: template_parser
  op_Complete :: "controller \<Rightarrow> string option"
  op_AddHealthzCheck :: "string \<Rightarrow> string option"
  op_AddReadyzCheck :: "string \<Rightarrow> string option"
  op_Start :: "string option"

datatype 's op_event =
    PrintVersion
  | ErrorLogged string
  | ManagerCreated manager_options
  | ControllerAdded controller "'s LLMServiceReconciler option"
  | HealthzAdded string
  | ReadyzAdded string
  | ManagerStarted

type_synonym 's op_outcome = "'s op_event list \<times> nat"

definition or_exit :: "string option \<Rightarrow> string \<Rightarrow> 's op_outcome \<Rightarrow> 's op_outcome" where
  "or_exit err message rest = (case err of Some _ \<Rightarrow> ([ErrorLogged message], 1) | None \<Rightarrow> rest)"

definition then_do :: "'s op_event \<Rightarrow> 's op_outcome \<Rightarrow> 's op_outcome" where
  "then_do ev rest = (ev # fst rest, snd rest)"

text \<open>The conversion \<open>int32(gatewayReplicas)\<close>.\<close>

definition to_int32 :: "int \<Rightarrow> int" where
  "to_int32 n = sint (word_of_int n :: 32 word)"

definition run_manager :: "'s op_host \<Rightarrow> operator_flags \<Rightarrow> 's client \<Rightarrow> 's op_outcome" where
  "run_manager h f mgr =
     (let (r, ctrl) = SetupWithManager (op_parse h)
            \<lparr>rf_Client = mgr, rf_Lib = op_Lib h, rf_Backends = None, rf_GatewayImage = f_gatewayImage f,
             rf_GatewayReplicas = to_int32 (f_gatewayReplicas f), rf_Recorder = False\<rparr>
      in or_exit (op_Complete h InferenceRuntime_SetupWithManager) ''Failed to create controller''
        (then_do (ControllerAdded InferenceRuntime_SetupWithManager None)
        (or_exit (op_Complete h ctrl) ''Failed to create controller''
        (then_do (ControllerAdded ctrl (Some r))
        (or_exit (op_AddHealthzCheck h ''healthz'') ''Failed to set up health check''
        (then_do (HealthzAdded ''healthz'')
        (or_exit (op_AddReadyzCheck h ''readyz'') ''Failed to set up ready check''
        (then_do (ReadyzAdded ''readyz'')
        (then_do ManagerStarted
        (or_exit (op_Start h) ''Failed to run manager'' ([], 0)))))))))))"

definition run_operator :: "'s op_host \<Rightarrow> operator_flags \<Rightarrow> 's op_outcome" where
  "run_operator h f =
     (if f_showVersion f then ([PrintVersion], 0)
      else or_exit (ValidateGatewayReplicas (f_gatewayReplicas f)) ''Invalid gateway configuration''
        (if \<not> op_config h then ([], 1)
         else case op_NewManager h (managerOptions f) of
           Inl e \<Rightarrow> ([ErrorLogged ''Failed to start manager''], 1)
         | Inr mgr \<Rightarrow> then_do (ManagerCreated (managerOptions f)) (run_manager h f mgr)))"

definition operator_main :: "'s op_host \<Rightarrow> string list \<Rightarrow> 's op_outcome" where
  "operator_main h args =
     (case parse_flags (op_flags h) args default_flags of
        Inl HelpRequested \<Rightarrow> ([], 0)
      | Inl _ \<Rightarrow> ([], 2)
      | Inr f \<Rightarrow> run_operator h f)"

subsection \<open>Starting\<close>

lemma or_exit_started [simp]:
  "ManagerStarted \<in> set (fst (or_exit err message rest)) \<longleftrightarrow> err = None \<and> ManagerStarted \<in> set (fst rest)"
  "or_exit None message rest = rest" "or_exit (Some e) message rest = ([ErrorLogged message], 1)"
  by (auto simp: or_exit_def split: option.splits)

lemma or_exit_code [simp]: "snd (or_exit err message rest) = (if err = None then snd rest else 1)"
  by (auto simp: or_exit_def)

lemma then_do_simps [simp]: "fst (then_do ev rest) = ev # fst rest" "snd (then_do ev rest) = snd rest"
  by (simp_all add: then_do_def)

lemma to_int32_id: "- (2 ^ 31) \<le> n \<Longrightarrow> n < 2 ^ 31 \<Longrightarrow> to_int32 n = n"
  by (simp add: to_int32_def sint_sbintrunc' signed_take_bit_int_eq_self_iff)

lemma ValidateGatewayReplicas_None: "ValidateGatewayReplicas n = None \<longleftrightarrow> 1 \<le> n \<and> n < 2 ^ 31"
  by (auto simp: ValidateGatewayReplicas_def)

lemma run_manager_failed: "ManagerStarted \<notin> set (fst (run_manager h f mgr)) \<Longrightarrow> snd (run_manager h f mgr) = 1"
  by (auto simp: run_manager_def case_prod_unfold Let_def)

definition started_events :: "'s op_host \<Rightarrow> operator_flags \<Rightarrow> 's LLMServiceReconciler \<Rightarrow> controller \<Rightarrow> 's op_event list" where
  "started_events h f r ctrl =
     [ManagerCreated (managerOptions f), ControllerAdded InferenceRuntime_SetupWithManager None, ControllerAdded ctrl (Some r),
      HealthzAdded ''healthz'', ReadyzAdded ''readyz'', ManagerStarted]
     @ (if op_Start h = None then [] else [ErrorLogged ''Failed to run manager''])"

lemma run_operator_started:
  assumes "ManagerStarted \<in> set (fst (run_operator h f))"
  obtains mgr where "op_NewManager h (managerOptions f) = Inr mgr" and "1 \<le> f_gatewayReplicas f" and "f_gatewayReplicas f < 2 ^ 31"
    and "case SetupWithManager (op_parse h) \<lparr>rf_Client = mgr, rf_Lib = op_Lib h, rf_Backends = None, rf_GatewayImage = f_gatewayImage f,
             rf_GatewayReplicas = f_gatewayReplicas f, rf_Recorder = False\<rparr>
      of (r, ctrl) \<Rightarrow> run_operator h f = (started_events h f r ctrl, if op_Start h = None then 0 else 1)"
proof -
  have shown: "\<not> f_showVersion f" and valid: "ValidateGatewayReplicas (f_gatewayReplicas f) = None" and config: "op_config h"
    using assms by (auto simp: run_operator_def split: if_splits)
  from assms shown valid config obtain mgr where mgr: "op_NewManager h (managerOptions f) = Inr mgr"
    and run: "ManagerStarted \<in> set (fst (run_manager h f mgr))"
    by (auto simp: run_operator_def split: sum.splits)
  have n: "to_int32 (f_gatewayReplicas f) = f_gatewayReplicas f" "1 \<le> f_gatewayReplicas f" "f_gatewayReplicas f < 2 ^ 31"
    using valid by (simp_all add: to_int32_id ValidateGatewayReplicas_None)
  show thesis
    by (rule that [OF mgr n(2,3)])
      (use shown valid config mgr run n(1) in \<open>auto simp: run_operator_def run_manager_def started_events_def Let_def
        then_do_def SetupWithManager_def split: option.splits\<close>)
qed

text \<open>
  C20. The operator runs only fully set up: it starts its manager exactly after both controllers and both
  health checks were added to it, with a replica count that fits the 32 bits it is converted to, the
  adapters of both vendors and an event recorder. The gateway of every service is then rendered with
  exactly the replicas of the flag, unless the image is blank. Every other end of the process has done
  nothing but print its version or its usage, or has exit code 1 or 2.
\<close>

theorem operator_starts_set_up:
  fixes h :: "'s op_host"
  shows "(ManagerStarted \<in> set (fst (operator_main h args)) \<longrightarrow>
      (\<exists>f r ctrl. parse_flags (op_flags h) args default_flags = Inr f
         \<and> operator_main h args = (started_events h f r ctrl, if op_Start h = None then 0 else 1)
         \<and> r_Backends r = registry_New (op_parse h) \<and> r_Recorder r \<and> r_GatewayImage r = f_gatewayImage f
         \<and> r_GatewayReplicas r = f_gatewayReplicas f \<and> 1 \<le> f_gatewayReplicas f
         \<and> (TrimSpace (f_gatewayImage f) \<noteq> [] \<longrightarrow>
              (\<forall>ds svc. \<exists>dep. BuildGatewayDeployment ds svc (r_GatewayImage r) (r_GatewayReplicas r) = Inr dep
                 \<and> dep_Replicas dep = Some (f_gatewayReplicas f)))))
    \<and> (ManagerStarted \<notin> set (fst (operator_main h args)) \<longrightarrow>
        fst (operator_main h args) \<in> {[], [PrintVersion]} \<or> snd (operator_main h args) \<in> {1, 2})"
proof (cases "ManagerStarted \<in> set (fst (operator_main h args))")
  case True
  then obtain f where f: "parse_flags (op_flags h) args default_flags = Inr f" and run: "operator_main h args = run_operator h f"
    by (auto simp: operator_main_def split: sum.splits flag_error.splits)
  from True run obtain mgr where n: "1 \<le> f_gatewayReplicas f" "f_gatewayReplicas f < 2 ^ 31"
    and out: "case SetupWithManager (op_parse h) \<lparr>rf_Client = mgr, rf_Lib = op_Lib h, rf_Backends = None, rf_GatewayImage = f_gatewayImage f,
             rf_GatewayReplicas = f_gatewayReplicas f, rf_Recorder = False\<rparr>
      of (r, ctrl) \<Rightarrow> run_operator h f = (started_events h f r ctrl, if op_Start h = None then 0 else 1)"
    by (metis run_operator_started)
  have "\<exists>dep. BuildGatewayDeployment ds svc (f_gatewayImage f) (f_gatewayReplicas f) = Inr dep \<and> dep_Replicas dep = Some (f_gatewayReplicas f)"
    if "TrimSpace (f_gatewayImage f) \<noteq> []" for ds svc
    using n that ValidateGatewayReplicas_None [of "f_gatewayReplicas f"]
    by (auto simp: BuildGatewayDeployment_def noctaya_deployment_def Let_def)
  moreover obtain r ctrl where rc: "SetupWithManager (op_parse h) \<lparr>rf_Client = mgr, rf_Lib = op_Lib h, rf_Backends = None,
      rf_GatewayImage = f_gatewayImage f, rf_GatewayReplicas = f_gatewayReplicas f, rf_Recorder = False\<rparr> = (r, ctrl)"
    by fastforce
  moreover from this have "r_Backends r = registry_New (op_parse h)" "r_Recorder r" "r_GatewayImage r = f_gatewayImage f"
    "r_GatewayReplicas r = f_gatewayReplicas f"
    by (auto simp: SetupWithManager_def)
  ultimately have "\<exists>f r ctrl. parse_flags (op_flags h) args default_flags = Inr f
      \<and> operator_main h args = (started_events h f r ctrl, if op_Start h = None then 0 else 1)
      \<and> r_Backends r = registry_New (op_parse h) \<and> r_Recorder r \<and> r_GatewayImage r = f_gatewayImage f
      \<and> r_GatewayReplicas r = f_gatewayReplicas f \<and> 1 \<le> f_gatewayReplicas f
      \<and> (TrimSpace (f_gatewayImage f) \<noteq> [] \<longrightarrow>
           (\<forall>ds svc. \<exists>dep. BuildGatewayDeployment ds svc (r_GatewayImage r) (r_GatewayReplicas r) = Inr dep
              \<and> dep_Replicas dep = Some (f_gatewayReplicas f)))"
    using f run out n(1) by (intro exI [of _ f] exI [of _ r] exI [of _ ctrl]) simp
  with True show ?thesis by simp
next
  case False
  then have "fst (operator_main h args) \<in> {[], [PrintVersion]} \<or> snd (operator_main h args) \<in> {1, 2}"
    by (auto simp: operator_main_def run_operator_def run_manager_failed split: sum.splits flag_error.splits if_splits)
  with False show ?thesis by simp
qed

definition example_operator_host :: "memory op_host" where
  "example_operator_host =
     \<lparr>op_flags = (\<lambda>_. None), op_config = True, op_NewManager = (\<lambda>_. Inr memory_client), op_Lib = memory_lib, op_parse = plain_text,
      op_Complete = (\<lambda>_. None), op_AddHealthzCheck = (\<lambda>_. None), op_AddReadyzCheck = (\<lambda>_. None), op_Start = None\<rparr>"

lemma example_cuts:
  "Cut ''gateway-replicas=3'' ''='' = (''gateway-replicas'', ''3'', True)" "Cut ''leader-elect'' ''='' = (''leader-elect'', [], False)"
  by (simp_all add: Cut_def HasPrefix_def)

lemma example_values: "ParseInt0 ''3'' = Some 3" "ParseBool ''true'' = Some True"
  by (simp_all add: ParseInt0_def ParseUint0_def base_digit_def lower_def ParseBool_def)

lemma example_lookups:
  "lookup_flag lib ''gateway-replicas'' = Some (IntVar (\<lambda>v f. f\<lparr>f_gatewayReplicas := v\<rparr>))"
  "lookup_flag lib ''leader-elect'' = Some (BoolVar (\<lambda>v f. f\<lparr>f_enableLeaderElection := v\<rparr>))"
  by (simp_all add: lookup_flag_def command_line_def)

lemma example_args:
  "parse_flags (\<lambda>_. None) [''--gateway-replicas=3'', ''-leader-elect''] default_flags =
     Inr (default_flags\<lparr>f_gatewayReplicas := 3, f_enableLeaderElection := True\<rparr>)"
  by (simp add: example_cuts example_values example_lookups)

theorem operator_starts_set_up_witness:
  "\<exists>evs r ctrl. operator_main example_operator_host [''--gateway-replicas=3'', ''-leader-elect''] = (evs, 0)
     \<and> ControllerAdded ctrl (Some r) \<in> set evs \<and> r_GatewayReplicas r = 3 \<and> r_Recorder r"
proof -
  have "ManagerStarted \<in> set (fst (operator_main example_operator_host [''--gateway-replicas=3'', ''-leader-elect'']))"
    using example_args
    by (simp add: operator_main_def example_operator_host_def run_operator_def run_manager_def default_flags_def ValidateGatewayReplicas_def
        Let_def SetupWithManager_def)
  with operator_starts_set_up [of example_operator_host "[''--gateway-replicas=3'', ''-leader-elect'']"] example_args
  show ?thesis by (fastforce simp: example_operator_host_def started_events_def)
qed

subsection \<open>The cache of Secrets\<close>

lemma cached_iff:
  "cached (mg_Cache (managerOptions f)) obj \<longleftrightarrow>
     kind_of obj \<noteq> SecretKind \<or> map_of (om_Labels (meta_of obj)) ''app.kubernetes.io/managed-by'' = Some ''noctaya''"
  by (simp add: cached_def managerOptions_def managerCacheOptions_def selects_def)

lemma demand_secret_label:
  "BuildDemandAuthSecret rand svc replicas = Inr (Some sec) \<Longrightarrow>
     map_of (om_Labels (sec_Meta sec)) ''app.kubernetes.io/managed-by'' = Some ''noctaya''"
  by (auto simp: BuildDemandAuthSecret_def object_meta_def SelectorLabels_def Model_Cache.managedByLabel_def
      Model_Cache.managedByValue_def nameLabel_def split: if_splits sum.splits)

text \<open>
  The operator reads back the Secrets it creates and no others: the Secret of a service is in the
  manager's cache, also after it was given its controller, a Secret without the label of the operator,
  such as a client's API key, never is, and objects of every other kind always are.
\<close>

theorem operator_reads_its_secrets:
  assumes "BuildDemandAuthSecret rand svc replicas = Inr (Some sec)"
  shows "cached (mg_Cache (managerOptions f)) (KSecret sec)
    \<and> (\<forall>obj. om_Labels (meta_of obj) = om_Labels (sec_Meta sec) \<longrightarrow> cached (mg_Cache (managerOptions f)) obj)
    \<and> (\<forall>obj. cached (mg_Cache (managerOptions f)) obj \<longleftrightarrow>
         kind_of obj \<noteq> SecretKind \<or> map_of (om_Labels (meta_of obj)) ''app.kubernetes.io/managed-by'' = Some ''noctaya'')"
  using demand_secret_label [OF assms] by (simp add: cached_iff)

theorem operator_reads_its_secrets_witness:
  "\<exists>sec. BuildDemandAuthSecret (Inr (replicate 32 CHR ''x'')) example_svc 3 = Inr (Some sec)
     \<and> cached (mg_Cache (managerOptions default_flags)) (KSecret sec)"
proof -
  obtain sec where sec: "BuildDemandAuthSecret (Inr (replicate 32 CHR ''x'')) example_svc 3 = Inr (Some sec)"
    by (simp add: BuildDemandAuthSecret_def)
  with operator_reads_its_secrets [OF sec, of default_flags] show ?thesis by blast
qed

subsection \<open>Repair of drift\<close>

text \<open>
  Events on objects, and what controller-runtime documents of \<open>Owns\<close>: when an object of an owned kind that is
  in the cache is deleted or updated, the requests of the service that controls it are queued, with the
  predicate only when its generation changes.
\<close>

datatype object_event = ObjectUpdated kobject kobject | ObjectDeleted kobject

definition owns_law :: "kube_lib \<Rightarrow> LLMService \<Rightarrow> cache_options \<Rightarrow> (controller \<Rightarrow> object_event \<Rightarrow> object_key list) \<Rightarrow> bool" where
  "owns_law lib svc opts enqueued \<longleftrightarrow>
     (\<forall>ctrl kd onGeneration x y. (kd, onGeneration) \<in> set (c_Owns ctrl) \<longrightarrow> kind_of x = kd \<longrightarrow> cached opts x \<longrightarrow>
        IsControlledBy lib x svc \<longrightarrow>
        (svc_Namespace svc, svc_Name svc) \<in> set (enqueued ctrl (ObjectDeleted x))
        \<and> (\<not> onGeneration \<or> om_Generation (meta_of x) \<noteq> om_Generation (meta_of y) \<longrightarrow>
             (svc_Namespace svc, svc_Name svc) \<in> set (enqueued ctrl (ObjectUpdated x y))))"

text \<open>An object that carries another has its labels; \<open>SetControllerReference\<close> keeps them.\<close>

definition labels_law :: "kube_lib \<Rightarrow> (kobject \<Rightarrow> kobject \<Rightarrow> bool) \<Rightarrow> bool" where
  "labels_law lib carries \<longleftrightarrow>
     (\<forall>x obj k v. carries x obj \<longrightarrow> map_of (om_Labels (meta_of obj)) k = Some v \<longrightarrow> map_of (om_Labels (meta_of x)) k = Some v)
     \<and> (\<forall>owner obj obj'. SetControllerReference lib owner obj = Inr obj' \<longrightarrow> om_Labels (meta_of obj') = om_Labels (meta_of obj))"

lemma labels_lawD:
  assumes "labels_law lib carries"
  shows "carries x obj \<Longrightarrow> map_of (om_Labels (meta_of obj)) k = Some v \<Longrightarrow> map_of (om_Labels (meta_of x)) k = Some v"
    and "SetControllerReference lib owner obj = Inr obj' \<Longrightarrow> om_Labels (meta_of obj') = om_Labels (meta_of obj)"
  using assms unfolding labels_law_def by blast+

text \<open>The cache of the manager holds the Secret that a pass leaves for the service.\<close>

lemma secret_cached:
  assumes "labels_law lib carries" and "sees vw = cached (mg_Cache (managerOptions f))"
    and "renderDesired be r svc rt adapter model = Inr d"
  shows "seen_law lib carries vw (cached (mg_Cache (managerOptions f))) svc (d_demandSecret d)"
proof -
  have "cached (mg_Cache (managerOptions f)) x"
    if "d_demandSecret d = Some y" "SetControllerReference lib svc (KSecret y) = Inr obj" "carries x obj" for x y obj
  proof -
    have "BuildDemandAuthSecret (be_rand be) svc (r_GatewayReplicas r) = Inr (Some y)"
      using assms(3) that(1) by (auto simp: renderDesired_def split: sum.splits)
    then have "map_of (om_Labels (sec_Meta y)) ''app.kubernetes.io/managed-by'' = Some ''noctaya''" by (rule demand_secret_label)
    then have "map_of (om_Labels (meta_of obj)) ''app.kubernetes.io/managed-by'' = Some ''noctaya''"
      using labels_lawD(2) [OF assms(1) that(2)] by simp
    then have "map_of (om_Labels (meta_of x)) ''app.kubernetes.io/managed-by'' = Some ''noctaya''"
      by (rule labels_lawD(1) [OF assms(1) that(3)])
    then show ?thesis by (simp add: cached_iff)
  qed
  then show ?thesis unfolding seen_law_def assms(2) by blast
qed

lemma every_kind_owned: "\<exists>g. (kd, g) \<in> set (c_Owns (snd (SetupWithManager parse rf))) \<and> (g \<longrightarrow> kd = ScaledObjectKind)"
  by (cases kd) (auto simp: SetupWithManager_def)

text \<open>
  C21. Drift is repaired: after a successful pass with a client that reads from the cache of the manager, which has caught up, every
  change of an object that the pass applied or created, the shared Secret included, whoever makes it, queues the service
  again: its deletion always, an update always but for the status of the ScaledObject, which KEDA writes.
\<close>

theorem drift_wakes_service:
  assumes "reference_law (r_Lib r)" and "carries_law (r_Lib r) carries" and "store_law held vw carries (r_Client r)"
    and "labels_law (r_Lib r) carries" and "sees vw = cached (mg_Cache (managerOptions f))"
    and "renderDesired be r svc rt adapter model = Inr d"
    and "run_state (applyDesired r svc d) s = ((reason, applied, None), s')"
    and "owns_law (r_Lib r) svc (mg_Cache (managerOptions f)) enqueued" and "obj \<in> set (applied_objects d @ created_objects d)"
  shows "\<exists>x. held s' (address obj) = Some x
    \<and> (svc_Namespace svc, svc_Name svc) \<in> set (enqueued (snd (SetupWithManager parse rf)) (ObjectDeleted x))
    \<and> (\<forall>y. kind_of x \<noteq> ScaledObjectKind \<or> om_Generation (meta_of x) \<noteq> om_Generation (meta_of y) \<longrightarrow>
         (svc_Namespace svc, svc_Name svc) \<in> set (enqueued (snd (SetupWithManager parse rf)) (ObjectUpdated x y)))"
proof -
  let ?seen = "cached (mg_Cache (managerOptions f))"
  note wa = renderDesired_addresses [OF assms(6)]
  have goal: "g (held s' (address obj))" if "(address obj, g) \<in> set (pass_goals (r_Lib r) ?seen vw carries svc d)" for g
    using secures_goal [OF secures_pass [OF assms(1-3) wa secret_cached [OF assms(4,5,6)]] assms(7) _ that] by simp
  obtain x where x: "held s' (address obj) = Some x" "IsControlledBy (r_Lib r) x svc" "kind_of obj = SecretKind \<longrightarrow> ?seen x"
  proof (cases "obj \<in> set (applied_objects d)")
    case True
    then have "applied_goal (r_Lib r) carries svc obj (held s' (address obj))"
      using applied_goals [OF wa] goal [of "applied_goal (r_Lib r) carries svc obj"] unfolding list_all_iff by blast
    moreover have "kind_of obj \<noteq> SecretKind" using True by (auto simp: applied_objects_def)
    ultimately show thesis using that by (auto simp: applied_goal_def)
  next
    case False
    then have "obj \<in> set (created_objects d)" using assms(9) by simp
    then have "created_goal (r_Lib r) svc obj (held s' (address obj))
        \<and> (\<forall>x. kind_of obj = SecretKind \<longrightarrow> held s' (address obj) = Some x \<longrightarrow> ?seen x)"
      using created_goals [OF wa demand_secret_unhashed [OF assms(6)]] goal by blast
    with that show thesis by (auto simp: created_goal_def)
  qed
  have "kind_of x = kind_of obj" using store_lawD(5) [OF assms(3) x(1)] by (simp add: address_def)
  then have "?seen x" using x(3) by (auto simp: cached_iff)
  moreover obtain g where "(kind_of x, g) \<in> set (c_Owns (snd (SetupWithManager parse rf)))" "g \<longrightarrow> kind_of x = ScaledObjectKind"
    using every_kind_owned by blast
  ultimately show ?thesis using assms(8) x(1,2) unfolding owns_law_def by blast
qed

lemma memory_labels_law: "labels_law memory_lib (=)"
proof -
  have "om_Labels (meta_of (set_controller u obj)) = om_Labels (meta_of obj)" for u obj by (cases obj) simp_all
  then show ?thesis by (auto simp: labels_law_def memory_lib_def)
qed

text \<open>A manager that queues the example service for the events on cached objects of owned kinds that it controls.\<close>

definition example_enqueued :: "controller \<Rightarrow> object_event \<Rightarrow> object_key list" where
  "example_enqueued ctrl ev =
     (case ev of
        ObjectDeleted x \<Rightarrow>
          if cached managerCacheOptions x \<and> IsControlledBy memory_lib x example_svc \<and> kind_of x \<in> set (map fst (c_Owns ctrl))
          then [(svc_Namespace example_svc, svc_Name example_svc)] else []
      | ObjectUpdated x y \<Rightarrow>
          if cached managerCacheOptions x \<and> IsControlledBy memory_lib x example_svc
            \<and> list_ex (\<lambda>(kd, g). kd = kind_of x \<and> (\<not> g \<or> om_Generation (meta_of x) \<noteq> om_Generation (meta_of y))) (c_Owns ctrl)
          then [(svc_Namespace example_svc, svc_Name example_svc)] else [])"

definition example_fields :: "memory reconciler_fields" where
  "example_fields =
     \<lparr>rf_Client = memory_client, rf_Lib = memory_lib, rf_Backends = None, rf_GatewayImage = ''gateway'', rf_GatewayReplicas = 3,
      rf_Recorder = False\<rparr>"

lemma memory_sees: "sees memory_view = cached (mg_Cache (managerOptions f))"
  by (simp add: memory_view_def managerOptions_def)

lemma example_owns_law: "owns_law memory_lib example_svc (mg_Cache (managerOptions default_flags)) example_enqueued"
  by (force simp: owns_law_def example_enqueued_def list_ex_iff managerOptions_def)

theorem drift_wakes_service_witness:
  "\<exists>d s' y x. renderDesired example_build memory_reconciler example_svc example_rt (nvidia_New plain_text) example_model = Inr d
     \<and> snd (run_state (applyDesired memory_reconciler example_svc d) example_memory) = s'
     \<and> d_demandSecret d = Some y \<and> memory_held s' (address (KSecret y)) = Some x
     \<and> (svc_Namespace example_svc, svc_Name example_svc)
         \<in> set (example_enqueued (snd (SetupWithManager plain_text example_fields)) (ObjectDeleted x))"
proof -
  obtain d reason applied s' where run:
    "renderDesired example_build memory_reconciler example_svc example_rt (nvidia_New plain_text) example_model = Inr d"
    "run_state (applyDesired memory_reconciler example_svc d) example_memory = ((reason, applied, None), s')"
    by (rule example_pass)
  have "well_addressed example_svc 3 d" using renderDesired_addresses [OF run(1)] by (simp add: memory_reconciler_def)
  then obtain y where y: "d_demandSecret d = Some y" by (auto simp: well_addressed_def)
  then have "KSecret y \<in> set (applied_objects d @ created_objects d)" by (simp add: created_objects_def option_list_def)
  from drift_wakes_service [where held = memory_held and vw = memory_view and carries = "(=)" and f = default_flags
      and enqueued = example_enqueued and parse = plain_text and rf = example_fields, OF _ _ _ _ _ run _ this] run y
  show ?thesis
    by (auto simp: memory_laws memory_labels_law example_owns_law memory_sees)
qed

end
