(* ===== verification/Admission.thy ===== *)
theory Admission
  imports Operator_Process
begin

section \<open>Admission\<close>

text \<open>
  The validation markers and rules of \<open>api/v1alpha1\<close>, from which the custom resource definitions are
  generated and which the API server enforces, as predicates on the values that the controller reads,
  that is after the defaults of the markers were filled in. The property below says which admitted
  services cannot be rendered, and with which reason they are reported.
\<close>

subsection \<open>Services\<close>

definition admits_ModelSource :: "ModelSource \<Rightarrow> bool" where
  "admits_ModelSource s \<longleftrightarrow>
     (src_SecretRef s = None \<or> HasPrefix (src_URI s) ''oci://'') \<and> (\<forall>name. src_SecretRef s = Some name \<longrightarrow> length name > 0)
     \<and> length (src_URI s) \<ge> 1"

definition admits_ModelSpec :: "ModelSpec \<Rightarrow> bool" where
  "admits_ModelSpec spec \<longleftrightarrow>
     ((ms_Source spec \<noteq> None) \<noteq> (length (ms_CatalogRef spec) > 0)) \<and> (\<forall>s. ms_Source spec = Some s \<longrightarrow> admits_ModelSource s)"

definition admits_RuntimeSelector :: "RuntimeSelector \<Rightarrow> bool" where
  "admits_RuntimeSelector sel \<longleftrightarrow> list_all (\<lambda>v. v \<in> {''nvidia'', ''ascend''}) (rsel_Vendor sel)"

definition admits_RuntimeSelection :: "RuntimeSelection \<Rightarrow> bool" where
  "admits_RuntimeSelection r \<longleftrightarrow>
     ((length (rs_Name r) > 0) \<noteq> (\<exists>sel. rs_Selector r = Some sel \<and> length (rsel_Vendor sel) > 0))
     \<and> (\<forall>sel. rs_Selector r = Some sel \<longrightarrow> admits_RuntimeSelector sel)"

definition admits_ResourceSpec :: "ResourceSpec \<Rightarrow> bool" where
  "admits_ResourceSpec r \<longleftrightarrow> rsc_Accelerators r \<ge> 1"

definition admits_ExternalScalerTLSSpec :: "ExternalScalerTLSSpec \<Rightarrow> bool" where
  "admits_ExternalScalerTLSSpec t \<longleftrightarrow>
     length (tls_ServerSecretName t) \<ge> 1 \<and> length (ka_Name (tls_AuthenticationRef t)) \<ge> 1
     \<and> ka_Kind (tls_AuthenticationRef t) \<in> {''TriggerAuthentication'', ''ClusterTriggerAuthentication''}"

definition admits_ScalingSpec :: "ScalingSpec \<Rightarrow> bool" where
  "admits_ScalingSpec s \<longleftrightarrow>
     sc_Min s \<le> sc_Max s \<and> sc_ActivationTimeout s > 0 \<and> sc_DrainTimeout s \<ge> 0
     \<and> sc_Min s \<ge> 0 \<and> sc_Max s \<ge> 1 \<and> sc_Metric s \<in> {''queueDepth'', ''kvCacheUtil''} \<and> sc_Target s \<ge> 1
     \<and> (\<forall>t. Option.bind (sc_ExternalScaler s) es_TLS = Some t \<longrightarrow> admits_ExternalScalerTLSSpec t)"

definition admits_CacheSpec :: "CacheSpec \<Rightarrow> bool" where
  "admits_CacheSpec c \<longleftrightarrow> ca_Strategy c \<in> {''NodeLocalPVC'', ''HostPath'', ''SharedPVC'', ''BakedImage'', ''None''}"

definition admits_EndpointSpec :: "EndpointSpec \<Rightarrow> bool" where
  "admits_EndpointSpec e \<longleftrightarrow>
     ep_MaxQueue e \<ge> 1
     \<and> (\<forall>a. ep_Authentication e = Some a \<longrightarrow> length (sk_Name (ea_SecretRef a)) \<ge> 1 \<and> length (sk_Key (ea_SecretRef a)) \<ge> 1)
     \<and> cs_HeartbeatInterval (ep_ColdStart e) > 0 \<and> cs_Mode (ep_ColdStart e) \<in> {''keepalive'', ''reject''}"

definition admits_LLMServiceSpec :: "LLMServiceSpec \<Rightarrow> bool" where
  "admits_LLMServiceSpec s \<longleftrightarrow>
     admits_ModelSpec (sp_Model s) \<and> admits_RuntimeSelection (sp_Runtime s) \<and> admits_ResourceSpec (sp_Resources s)
     \<and> admits_ScalingSpec (sp_Scaling s) \<and> admits_CacheSpec (sp_Cache s) \<and> admits_EndpointSpec (sp_Endpoint s)"

subsection \<open>Runtimes\<close>

text \<open>The pattern of a port name: letters, digits and inner hyphens.\<close>

definition port_char :: "char \<Rightarrow> bool" where
  "port_char c \<longleftrightarrow> CHR ''a'' \<le> c \<and> c \<le> CHR ''z'' \<or> CHR ''0'' \<le> c \<and> c \<le> CHR ''9''"

definition admits_RuntimePort :: "RuntimePort \<Rightarrow> bool" where
  "admits_RuntimePort p \<longleftrightarrow>
     (let name = rp_Name p in
      length name \<le> 15 \<and> name \<noteq> [] \<and> port_char (hd name) \<and> port_char (last name) \<and> list_all (\<lambda>c. port_char c \<or> c = CHR ''-'') name)
     \<and> 1 \<le> rp_ContainerPort p \<and> rp_ContainerPort p \<le> 65535"

definition admits_InferenceRuntimeSpec :: "InferenceRuntimeSpec \<Rightarrow> bool" where
  "admits_InferenceRuntimeSpec r \<longleftrightarrow>
     ir_Family r = ''vllm'' \<and> ir_Vendor r \<in> {''nvidia'', ''ascend''}
     \<and> length (rtc_Image (ir_Container r)) \<ge> 1 \<and> admits_RuntimePort (rtc_Port (ir_Container r))
     \<and> length (acc_ResourceName (ir_Accelerator r)) \<ge> 1
     \<and> (\<forall>n. rl_TerminationGracePeriodSeconds (ir_Lifecycle r) = Some n \<longrightarrow> n \<ge> 1)"

subsection \<open>What admission leaves to the controller\<close>

definition templates_render :: "template_parser \<Rightarrow> LLMService \<Rightarrow> InferenceRuntime \<Rightarrow> ResolvedModel \<Rightarrow> bool" where
  "templates_render parse svc rt model \<longleftrightarrow>
     (\<exists>args env. RenderAll parse (rtc_Args (ir_Container (rt_Spec rt)) @ rs_ArgsOverride (sp_Runtime (svc_Spec svc))) (template_data svc model) = Inr args
        \<and> renderEnv parse (rtc_Env (ir_Container (rt_Spec rt))) (template_data svc model) = Inr env)"

definition late_failure :: "build_env \<Rightarrow> 's LLMServiceReconciler \<Rightarrow> LLMService \<Rightarrow> ResolvedModel \<Rightarrow> string option" where
  "late_failure be r svc model =
     (if TrimSpace (r_GatewayImage r) = [] then Some ''GatewayConfig''
      else if rm_Source model = modelSourceOCI \<and> ca_Strategy (sp_Cache (svc_Spec svc)) = ''None'' then Some ''Prewarm''
      else if r_GatewayReplicas r > 1 \<and> (\<exists>e. be_rand be = Inl e) then Some ''DemandAuthentication''
      else None)"

definition render_failure ::
  "build_env \<Rightarrow> template_parser \<Rightarrow> 's LLMServiceReconciler \<Rightarrow> LLMService \<Rightarrow> InferenceRuntime \<Rightarrow> ResolvedModel \<Rightarrow> string option" where
  "render_failure be parse r svc rt model =
     (let scaling = sp_Scaling (svc_Spec svc); window = sc_ScaleDownStabilization scaling;
          scheduler = acc_Scheduler (ir_Accelerator (rt_Spec rt)); strategy = ca_Strategy (sp_Cache (svc_Spec svc))
      in if sc_Metric scaling = ''kvCacheUtil'' \<or> window < 0 \<or> window mod Second \<noteq> 0 \<or> window > Hour then Some ''ScaledObject''
         else if \<not> templates_render parse svc rt model \<or> sch_Queue scheduler \<noteq> [] \<and> sch_Name scheduler \<noteq> ''volcano''
           \<or> rsc_Fraction (sp_Resources (svc_Spec svc)) \<noteq> None \<or> strategy = ''BakedImage'' then Some ''Render''
         else late_failure be r svc model)"

lemma admitted_scaled_object:
  assumes "admits_ScalingSpec (sp_Scaling (svc_Spec svc))"
  shows "(\<exists>so. BuildScaledObject svc = Inr so) \<longleftrightarrow>
    (let w = sc_ScaleDownStabilization (sp_Scaling (svc_Spec svc)) in
       \<not> (sc_Metric (sp_Scaling (svc_Spec svc)) = ''kvCacheUtil'' \<or> w < 0 \<or> w mod Second \<noteq> 0 \<or> w > Hour))"
proof -
  have "validateExternalScalerTLS (sc_ExternalScaler (sp_Scaling (svc_Spec svc))) = None"
    using assms by (auto simp: admits_ScalingSpec_def admits_ExternalScalerTLSSpec_def validateExternalScalerTLS_def Let_def split: option.splits)
  moreover have "sc_Metric (sp_Scaling (svc_Spec svc)) \<in> {''queueDepth'', ''kvCacheUtil''}" using assms by (simp add: admits_ScalingSpec_def)
  ultimately show ?thesis by (auto simp: BuildScaledObject_def maxHPAStabilization_def Let_def)
qed

lemma admitted_adapter:
  assumes "admits_InferenceRuntimeSpec (rt_Spec rt)"
  obtains adapter where "registry_Get (registry_New parse) (ir_Vendor (rt_Spec rt)) = Some adapter"
    and "adapter \<in> {nvidia_New parse, ascend_New parse}"
  using assms by (auto simp: admits_InferenceRuntimeSpec_def registry_New_Get nvidia_Vendor_def ascend_Vendor_def split: if_splits)

lemma admitted_cache:
  assumes "admits_CacheSpec (sp_Cache (svc_Spec svc))"
  shows "(\<exists>art. planCache sd svc = Inr art) \<longleftrightarrow> ca_Strategy (sp_Cache (svc_Spec svc)) \<noteq> ''BakedImage''"
    and "planCache sd svc = Inr art \<Longrightarrow> (art_volume art = None) = (ca_Strategy (sp_Cache (svc_Spec svc)) = ''None'')
      \<and> (art_mount art = None) = (ca_Strategy (sp_Cache (svc_Spec svc)) = ''None'')"
  using assms
  by (auto simp: admits_CacheSpec_def planCache_def cacheStrategySharedPVC_def artifacts0_def Let_def)

lemma admitted_backend:
  assumes "admits_InferenceRuntimeSpec (rt_Spec rt)" and "admits_CacheSpec (sp_Cache (svc_Spec svc))"
    and "adapter \<in> {nvidia_New parse, ascend_New parse}"
  shows "(\<exists>d. BuildBackendDeployment sd adapter svc rt model = Inr d) \<longleftrightarrow>
    (let scheduler = acc_Scheduler (ir_Accelerator (rt_Spec rt)) in
       \<not> (\<not> templates_render parse svc rt model \<or> sch_Queue scheduler \<noteq> [] \<and> sch_Name scheduler \<noteq> ''volcano''
          \<or> rsc_Fraction (sp_Resources (svc_Spec svc)) \<noteq> None \<or> ca_Strategy (sp_Cache (svc_Spec svc)) = ''BakedImage''))"
proof -
  have pod: "(\<exists>pod. PodSpec adapter svc rt model = Inr pod) \<longleftrightarrow> templates_render parse svc rt model"
    using assms(3)
    by (auto simp: nvidia_New_def ascend_New_def ascend_PodSpec_def RenderVLLMPodSpec_def templates_render_def Let_def split: sum.splits)
  have accel: "(\<exists>a. Accelerator adapter svc rt = Inr a) \<longleftrightarrow>
      \<not> (sch_Queue (acc_Scheduler (ir_Accelerator (rt_Spec rt))) \<noteq> [] \<and> sch_Name (acc_Scheduler (ir_Accelerator (rt_Spec rt))) \<noteq> ''volcano''
         \<or> rsc_Fraction (sp_Resources (svc_Spec svc)) \<noteq> None)"
  proof -
    have "Accelerator adapter svc rt = WholeDeviceAccelerator svc rt" using assms(3) by (auto simp: nvidia_New_def ascend_New_def)
    moreover have "acc_ResourceName (ir_Accelerator (rt_Spec rt)) \<noteq> []" using assms(1) by (auto simp: admits_InferenceRuntimeSpec_def)
    ultimately show ?thesis by (simp add: WholeDeviceAccelerator_def Let_def)
  qed
  have "(\<exists>d. BuildBackendDeployment sd adapter svc rt model = Inr d) \<longleftrightarrow>
      (\<exists>pod. PodSpec adapter svc rt model = Inr pod) \<and> (\<exists>a. Accelerator adapter svc rt = Inr a) \<and> (\<exists>art. planCache sd svc = Inr art)"
    by (auto simp: BuildBackendDeployment_def split: sum.splits)
  then show ?thesis unfolding pod accel admitted_cache(1) [OF assms(2)] Let_def by blast
qed

lemma admitted_prewarm:
  assumes "admits_CacheSpec (sp_Cache (svc_Spec svc))" and "planCache sd svc = Inr art"
  shows "(\<exists>j. BuildPrewarmJob sd svc rt model = Inr j) \<longleftrightarrow>
    \<not> (rm_Source model = modelSourceOCI \<and> ca_Strategy (sp_Cache (svc_Spec svc)) = ''None'')"
  using admitted_cache(2) [OF assms] assms(2)
  by (auto simp: BuildPrewarmJob_def modelSourceOCI_def split: option.splits)

abbreviation fails_with :: "(string \<times> string) + 'd \<Rightarrow> string option \<Rightarrow> bool" where
  "fails_with res reason \<equiv> (case res of Inl (why, _) \<Rightarrow> reason = Some why | Inr _ \<Rightarrow> reason = None)"

lemma render_after_backend:
  assumes so: "BuildScaledObject svc = Inr x" and bd: "BuildBackendDeployment (be_digest be) adapter svc rt model = Inr y"
    and adm: "admits_CacheSpec (sp_Cache (svc_Spec svc))" and n: "1 \<le> r_GatewayReplicas r" "r_GatewayReplicas r < 2 ^ 31"
  shows "fails_with (renderDesired be r svc rt adapter model) (late_failure be r svc model)"
proof -
  obtain art where art: "planCache (be_digest be) svc = Inr art"
    using bd by (auto simp: BuildBackendDeployment_def split: sum.splits)
  then have pvc: "BuildCachePVC (be_digest be) svc = Inr (art_pvc art)" by (simp add: BuildCachePVC_def)
  note pj = admitted_prewarm [OF adm art, of rt model]
  have gd: "(\<exists>d. BuildGatewayDeployment (be_duration be) svc (r_GatewayImage r) (r_GatewayReplicas r) = Inr d) \<longleftrightarrow> TrimSpace (r_GatewayImage r) \<noteq> []"
    using ValidateGatewayReplicas_None [of "r_GatewayReplicas r"] n by (auto simp: BuildGatewayDeployment_def Let_def)
  have sec: "(\<exists>x. BuildDemandAuthSecret (be_rand be) svc (r_GatewayReplicas r) = Inr x) \<longleftrightarrow>
      \<not> (r_GatewayReplicas r > 1 \<and> (\<exists>e. be_rand be = Inl e))"
    by (auto simp: BuildDemandAuthSecret_def split: sum.splits)
  show ?thesis
  proof (cases "BuildGatewayDeployment (be_duration be) svc (r_GatewayImage r) (r_GatewayReplicas r)")
    case (Inl e)
    with gd show ?thesis by (simp add: renderDesired_def so bd late_failure_def)
  next
    case gd': (Inr z)
    with gd have image: "TrimSpace (r_GatewayImage r) \<noteq> []" by blast
    show ?thesis
    proof (cases "BuildPrewarmJob (be_digest be) svc rt model")
      case (Inl e)
      with pj image show ?thesis by (simp add: renderDesired_def so bd gd' pvc late_failure_def)
    next
      case pj': (Inr j)
      with pj image sec show ?thesis
        by (cases "BuildDemandAuthSecret (be_rand be) svc (r_GatewayReplicas r)")
          (simp_all add: renderDesired_def so bd gd' pvc late_failure_def)
    qed
  qed
qed

text \<open>
  C19. An admitted service with a model that resolves and an admitted runtime finds an adapter, and the
  exact conditions under which its resources cannot be rendered are these, with the reason
  reported: a reserved metric or a stabilization that is not whole seconds up to an hour, a template
  that fails, a queue without its scheduler, a fraction of a device or baked images, a blank gateway image,
  an OCI source without a cache, and a failed random source. Otherwise everything is rendered.
\<close>

theorem admitted_services_render:
  assumes "admits_LLMServiceSpec (svc_Spec svc)" and "admits_InferenceRuntimeSpec (rt_Spec rt)"
    and "r_Backends r = registry_New parse" and "1 \<le> r_GatewayReplicas r" and "r_GatewayReplicas r < 2 ^ 31"
  shows "\<exists>adapter. registry_Get (r_Backends r) (ir_Vendor (rt_Spec rt)) = Some adapter
    \<and> (case renderDesired be r svc rt adapter model of
         Inl (reason, _) \<Rightarrow> render_failure be parse r svc rt model = Some reason
       | Inr _ \<Rightarrow> render_failure be parse r svc rt model = None)"
proof -
  have adm: "admits_ScalingSpec (sp_Scaling (svc_Spec svc))" "admits_CacheSpec (sp_Cache (svc_Spec svc))"
    using assms(1) by (simp_all add: admits_LLMServiceSpec_def)
  obtain adapter where get: "registry_Get (registry_New parse) (ir_Vendor (rt_Spec rt)) = Some adapter"
    and adapter: "adapter \<in> {nvidia_New parse, ascend_New parse}"
    using admitted_adapter [OF assms(2)] .
  note so = admitted_scaled_object [OF adm(1), unfolded Let_def]
    and bd = admitted_backend [OF assms(2) adm(2) adapter, of "be_digest be" model, unfolded Let_def]
  have "fails_with (renderDesired be r svc rt adapter model) (render_failure be parse r svc rt model)"
  proof (cases "BuildScaledObject svc")
    case (Inl e)
    with so show ?thesis by (auto simp: renderDesired_def render_failure_def Let_def)
  next
    case so': (Inr x)
    then have "\<exists>so. BuildScaledObject svc = Inr so" by blast
    note ok1 = this [unfolded so]
    show ?thesis
    proof (cases "BuildBackendDeployment (be_digest be) adapter svc rt model")
      case (Inl e)
      with bd ok1 so' show ?thesis by (auto simp: renderDesired_def render_failure_def Let_def)
    next
      case bd': (Inr y)
      then have ok2: "\<exists>d. BuildBackendDeployment (be_digest be) adapter svc rt model = Inr d" by blast
      have "render_failure be parse r svc rt model = late_failure be r svc model"
        unfolding render_failure_def Let_def by (simp only: ok1 ok2 [unfolded bd] if_False)
      with render_after_backend [OF so' bd' adm(2) assms(4,5)] show ?thesis by metis
    qed
  qed
  with get assms(3) show ?thesis by auto
qed

text \<open>The fallbacks of the code are never needed for an admitted service: its settings are used as they are.\<close>

theorem admitted_settings_kept:
  assumes "admits_LLMServiceSpec (svc_Spec svc)" and "BuildScaledObject svc = Inr so"
  shows "0 \<le> so_MinReplicaCount so \<and> so_MinReplicaCount so \<le> so_MaxReplicaCount so
    \<and> so_MaxReplicaCount so = sc_Max (sp_Scaling (svc_Spec svc)) \<and> scaling_target svc = sc_Target (sp_Scaling (svc_Spec svc))
    \<and> gatewayMaxQueue svc = ep_MaxQueue (sp_Endpoint (svc_Spec svc))"
  using assms
  by (auto simp: admits_LLMServiceSpec_def admits_ScalingSpec_def admits_EndpointSpec_def BuildScaledObject_def scaling_target_def
      gatewayMaxQueue_def Let_def split: option.splits if_splits)

text \<open>An admitted service always names a runtime or a vendor, so that only the API server or the choice can fail.\<close>

theorem admitted_selection:
  assumes "admits_LLMServiceSpec (svc_Spec svc)" and "rs_Name (sp_Runtime (svc_Spec svc)) = []"
  shows "\<exists>sel. rs_Selector (sp_Runtime (svc_Spec svc)) = Some sel \<and> rsel_Vendor sel \<noteq> []
    \<and> list_all (\<lambda>v. v \<in> {''nvidia'', ''ascend''}) (rsel_Vendor sel)"
proof -
  have sel: "admits_RuntimeSelection (sp_Runtime (svc_Spec svc))" using assms(1) by (simp add: admits_LLMServiceSpec_def)
  then obtain sel where "rs_Selector (sp_Runtime (svc_Spec svc)) = Some sel" "length (rsel_Vendor sel) > 0"
    using assms(2) unfolding admits_RuntimeSelection_def by (metis list.size(3) less_numeral_extra(3))
  with sel show ?thesis unfolding admits_RuntimeSelection_def admits_RuntimeSelector_def by (metis length_greater_0_conv)
qed

definition admitted_svc :: LLMService where
  "admitted_svc = example_svc\<lparr>svc_Spec := (svc_Spec example_svc)\<lparr>sp_Scaling := (sp_Scaling (svc_Spec example_svc))\<lparr>sc_Metric := ''queueDepth''\<rparr>\<rparr>\<rparr>"

lemma examples_admitted: "admits_LLMServiceSpec (svc_Spec admitted_svc)" "admits_InferenceRuntimeSpec (rt_Spec example_rt)"
  by (simp_all add: admitted_svc_def example_svc_def example_rt_def admits_LLMServiceSpec_def admits_ModelSpec_def admits_ModelSource_def
      admits_RuntimeSelection_def admits_RuntimeSelector_def admits_ResourceSpec_def admits_ScalingSpec_def admits_CacheSpec_def
      admits_EndpointSpec_def admits_InferenceRuntimeSpec_def admits_RuntimePort_def port_char_def duration_defs Let_def)

theorem admitted_services_render_witness:
  "\<exists>d. renderDesired example_build memory_reconciler admitted_svc example_rt (nvidia_New plain_text) example_model = Inr d"
proof -
  have r: "r_Backends memory_reconciler = registry_New plain_text" "1 \<le> r_GatewayReplicas memory_reconciler"
    "r_GatewayReplicas memory_reconciler < 2 ^ 31"
    by (simp_all add: memory_reconciler_def)
  have "templates_render plain_text admitted_svc example_rt example_model"
    by (simp add: templates_render_def admitted_svc_def example_svc_def example_rt_def Render_def plain_text_def)
  then have "render_failure example_build plain_text memory_reconciler admitted_svc example_rt example_model = None"
    by (simp add: render_failure_def late_failure_def admitted_svc_def example_svc_def example_rt_def memory_reconciler_def example_build_def
        example_model_def modelSourceOCI_def example_image duration_defs Let_def)
  moreover have "registry_Get (r_Backends memory_reconciler) (ir_Vendor (rt_Spec example_rt)) = Some (nvidia_New plain_text)"
    by (simp add: r registry_New_Get example_rt_def)
  ultimately show ?thesis
    using admitted_services_render [OF examples_admitted r, of example_build example_model] by (auto split: sum.splits)
qed

end
