(* ===== verification/Go_Memory.thy ===== *)
theory Go_Memory
  imports Go_Base "HOL-Library.State_Monad"
begin

section \<open>Memory with sharing\<close>

text \<open>
  Elsewhere a Go value is a value of HOL, which has no identity and shares nothing. Deep copies are about
  sharing, so this theory has an explicit memory: a value of Go holds scalars in place and
  refers to variables, arrays and maps by their address. \<open>denotes h n v t\<close> says that the value \<open>v\<close> stands
  for the tree \<open>t\<close> in the memory \<open>h\<close> and reaches only addresses from \<open>n\<close> on. A map is the list of its
  keys with the list of their values.
\<close>

datatype prim = StringV string | IntV int | BoolV bool

datatype gv =
    Zero
  | Prim prim
  | Struct "string list" "gv list"
  | Ptr "nat option"
  | Slice "nat option"
  | MapRef "nat option"

datatype cell = CVar gv | CArr "gv list" | CMap "string list" "gv list"

type_synonym heap = "cell list"

datatype tree =
    TPrim prim
  | TStruct "string list" "tree list"
  | TNil
  | TPtr tree
  | TSlice "tree list"
  | TMap "string list" "tree list"

subsection \<open>Operations\<close>

definition alloc :: "cell \<Rightarrow> (heap, nat) state" where
  "alloc c = State (\<lambda>h. (length h, h @ [c]))"

definition load :: "nat \<Rightarrow> (heap, cell) state" where
  "load a = State (\<lambda>h. (h ! a, h))"

definition store_cell :: "nat \<Rightarrow> cell \<Rightarrow> (heap, unit) state" where
  "store_cell a c = State (\<lambda>h. ((), h[a := c]))"

lemma run_memory [simp]:
  "run_state (alloc c) h = (length h, h @ [c])" "run_state (load a) h = (h ! a, h)" "run_state (store_cell a c) h = ((), h[a := c])"
  by (simp_all add: alloc_def load_def store_cell_def)

fun var_of :: "cell \<Rightarrow> gv" where "var_of (CVar v) = v" | "var_of _ = Zero"
fun elems_of :: "cell \<Rightarrow> gv list" where "elems_of (CArr vs) = vs" | "elems_of (CMap _ vs) = vs" | "elems_of _ = []"
fun keys_of :: "cell \<Rightarrow> string list" where "keys_of (CMap ks _) = ks" | "keys_of _ = []"

text \<open>Fields of a structure by name.\<close>

fun position :: "string \<Rightarrow> string list \<Rightarrow> nat" where
  "position n [] = 0"
| "position n (m # ms) = (if n = m then 0 else Suc (position n ms))"

fun sel :: "string \<Rightarrow> gv \<Rightarrow> gv" where
  "sel n (Struct ns vs) = vs ! position n ns"
| "sel n _ = Zero"

fun upd :: "string \<Rightarrow> gv \<Rightarrow> gv \<Rightarrow> gv" where
  "upd n x (Struct ns vs) = Struct ns (vs[position n ns := x])"
| "upd n x v = v"

subsection \<open>Denotation\<close>

fun denotes :: "heap \<Rightarrow> nat \<Rightarrow> gv \<Rightarrow> tree \<Rightarrow> bool" where
  "denotes h n v (TPrim p) \<longleftrightarrow> v = Prim p"
| "denotes h n v (TStruct ns ts) \<longleftrightarrow> (\<exists>vs. v = Struct ns vs \<and> list_all2 (\<lambda>x t. denotes h n x t) vs ts)"
| "denotes h n v TNil \<longleftrightarrow> v \<in> {Ptr None, Slice None, MapRef None}"
| "denotes h n v (TPtr t) \<longleftrightarrow> (\<exists>a x. v = Ptr (Some a) \<and> n \<le> a \<and> a < length h \<and> h ! a = CVar x \<and> denotes h n x t)"
| "denotes h n v (TSlice ts) \<longleftrightarrow>
     (\<exists>a xs. v = Slice (Some a) \<and> n \<le> a \<and> a < length h \<and> h ! a = CArr xs \<and> list_all2 (\<lambda>x t. denotes h n x t) xs ts)"
| "denotes h n v (TMap ks ts) \<longleftrightarrow>
     (\<exists>a xs. v = MapRef (Some a) \<and> n \<le> a \<and> a < length h \<and> h ! a = CMap ks xs \<and> list_all2 (\<lambda>x t. denotes h n x t) xs ts)"

text \<open>Memories that agree from an address on, and a memory that extends another.\<close>

definition agree :: "nat \<Rightarrow> heap \<Rightarrow> heap \<Rightarrow> bool" where
  "agree n h h' \<longleftrightarrow> length h \<le> length h' \<and> (\<forall>a. n \<le> a \<and> a < length h \<longrightarrow> h' ! a = h ! a)"

definition extends :: "heap \<Rightarrow> heap \<Rightarrow> bool" where
  "extends h h' \<longleftrightarrow> (\<exists>e. h' = h @ e)"

lemma extends_refl [simp]: "extends h h" and extends_snoc [simp]: "extends h (h @ e)"
  by (auto simp: extends_def)

lemma extends_trans [trans]: "extends h h' \<Longrightarrow> extends h' h'' \<Longrightarrow> extends h h''"
  by (auto simp: extends_def)

lemma extends_agree: "extends h h' \<Longrightarrow> agree n h h'"
  by (auto simp: extends_def agree_def nth_append)

lemma extends_length: "extends h h' \<Longrightarrow> length h \<le> length h'"
  by (auto simp: extends_def)

lemma extends_nth: "extends h h' \<Longrightarrow> a < length h \<Longrightarrow> h' ! a = h ! a"
  by (auto simp: extends_def nth_append)

lemma extends_update: "extends (h @ [c]) h' \<Longrightarrow> extends h (h'[length h := d])"
  by (auto simp: extends_def list_update_append)

lemma agree_update: "agree (Suc a) h (h[a := c])"
  by (auto simp: agree_def)

text \<open>A denotation survives where its addresses do, and may be read with a lower bound.\<close>

lemma denotes_mono: "denotes h n v t \<Longrightarrow> agree n h h' \<Longrightarrow> k \<le> n \<Longrightarrow> denotes h' k v t"
proof (induction t arbitrary: v)
  case (TStruct ns ts)
  then obtain vs where "v = Struct ns vs" "list_all2 (denotes h n) vs ts" by auto
  moreover have "list_all2 (denotes h' k) vs ts"
    using \<open>list_all2 (denotes h n) vs ts\<close> by (rule list.rel_mono_strong) (use TStruct in blast)
  ultimately show ?case by simp
next
  case (TPtr t)
  then show ?case by (auto simp: agree_def)
next
  case (TSlice ts)
  then obtain a xs where a: "v = Slice (Some a)" "n \<le> a" "a < length h" "h ! a = CArr xs" "list_all2 (denotes h n) xs ts" by auto
  moreover have "list_all2 (denotes h' k) xs ts" using a(5) by (rule list.rel_mono_strong) (use TSlice in blast)
  ultimately show ?case using TSlice.prems by (auto simp: agree_def)
next
  case (TMap ks ts)
  then obtain a xs where a: "v = MapRef (Some a)" "n \<le> a" "a < length h" "h ! a = CMap ks xs" "list_all2 (denotes h n) xs ts" by auto
  moreover have "list_all2 (denotes h' k) xs ts" using a(5) by (rule list.rel_mono_strong) (use TMap in blast)
  ultimately show ?case using TMap.prems by (auto simp: agree_def)
qed auto

lemma denotes_extends: "denotes h n v t \<Longrightarrow> extends h h' \<Longrightarrow> k \<le> n \<Longrightarrow> denotes h' k v t"
  by (rule denotes_mono [OF _ extends_agree])

lemma denotes_list_extends:
  "list_all2 (denotes h n) vs ts \<Longrightarrow> extends h h' \<Longrightarrow> k \<le> n \<Longrightarrow> list_all2 (denotes h' k) vs ts"
  by (rule list.rel_mono_strong) (blast intro: denotes_extends)+

text \<open>A value stands for one tree at most.\<close>

lemma denotes_list_unique:
  assumes "\<And>t v u. t \<in> set ts \<Longrightarrow> denotes h n v t \<Longrightarrow> denotes h k v u \<Longrightarrow> t = u"
    and "list_all2 (denotes h n) vs ts" and "list_all2 (denotes h k) vs us"
  shows "ts = us"
proof (rule nth_equalityI)
  show "length ts = length us" using assms(2,3) by (metis list_all2_lengthD)
  show "ts ! i = us ! i" if "i < length ts" for i
    using assms(1) [of "ts ! i" "vs ! i" "us ! i"] assms(2,3) that by (auto simp: list_all2_conv_all_nth)
qed

lemma denotes_unique: "denotes h n v t \<Longrightarrow> denotes h k v u \<Longrightarrow> t = u"
proof (induction t arbitrary: v u)
  case (TStruct ns ts)
  then show ?case by (cases u) (auto elim!: denotes_list_unique [rotated, where n = n and k = k])
next
  case (TSlice ts)
  then show ?case by (cases u) (auto elim!: denotes_list_unique [rotated, where n = n and k = k])
next
  case (TMap ks ts)
  then show ?case by (cases u) (auto elim!: denotes_list_unique [rotated, where n = n and k = k])
next
  case (TPrim p)
  then show ?case by (cases u) auto
next
  case TNil
  then show ?case by (cases u) auto
next
  case (TPtr t)
  then show ?case by (cases u) auto
qed

end
