(* ===== verification/Deep_Copy.thy ===== *)
theory Deep_Copy
  imports Go_Memory
begin

section \<open>Deep copies\<close>

text \<open>
  \<open>api/v1alpha1/zz_generated.deepcopy.go\<close>: the deep copies of the custom resources. The layout of a
  structure lists its fields in order with what they refer to; a type of another package is a
  parameter, the trees it has and the method that copies it. A method \<open>DeepCopyInto\<close> is a function from the
  value of \<open>*in\<close> to the value it leaves in \<open>*out\<close>.
\<close>

datatype ext = Quantity_ext | ObjectMeta_ext | ListMeta_ext | Toleration_ext | EnvVar_ext | Condition_ext | Probe_ext

datatype ty = PrimT | StructT "string list" "ty list" | PtrT ty | SliceT ty | MapT ty | ExtT ext

fun conforms :: "(ext \<Rightarrow> tree \<Rightarrow> bool) \<Rightarrow> ty \<Rightarrow> tree \<Rightarrow> bool" where
  "conforms ok PrimT t \<longleftrightarrow> (\<exists>p. t = TPrim p)"
| "conforms ok (StructT ns Ts) t \<longleftrightarrow> (\<exists>ts. t = TStruct ns ts \<and> list_all2 (\<lambda>T t. conforms ok T t) Ts ts)"
| "conforms ok (PtrT T) t \<longleftrightarrow> t = TNil \<or> (\<exists>u. t = TPtr u \<and> conforms ok T u)"
| "conforms ok (SliceT T) t \<longleftrightarrow> t = TNil \<or> (\<exists>ts. t = TSlice ts \<and> list_all (\<lambda>t. conforms ok T t) ts)"
| "conforms ok (MapT T) t \<longleftrightarrow> t = TNil \<or> (\<exists>ks ts. t = TMap ks ts \<and> length ks = length ts \<and> list_all (\<lambda>t. conforms ok T t) ts)"
| "conforms ok (ExtT e) t \<longleftrightarrow> ok e t"

text \<open>Types whose values hold no reference.\<close>

fun flat :: "ty \<Rightarrow> bool" where
  "flat PrimT \<longleftrightarrow> True"
| "flat (StructT ns Ts) \<longleftrightarrow> list_all (\<lambda>T. flat T) Ts"
| "flat _ \<longleftrightarrow> False"

subsection \<open>The statements of the methods\<close>

type_synonym copier = "gv \<Rightarrow> (heap, gv) state"

text \<open>\<open>out.F = in.F\<close> and \<open>**out = **in\<close>.\<close>

definition assign :: copier where "assign v = State_Monad.return v"

text \<open>\<open>if in.F != nil { *out = new(T); (*in).DeepCopyInto(*out) }\<close>\<close>

definition new_copy :: "copier \<Rightarrow> copier" where
  "new_copy c v =
     (case v of
        Ptr (Some a) \<Rightarrow> do {
          b \<leftarrow> alloc (CVar Zero);
          x \<leftarrow> load a;
          y \<leftarrow> c (var_of x);
          _ \<leftarrow> store_cell b (CVar y);
          State_Monad.return (Ptr (Some b))
        }
      | _ \<Rightarrow> State_Monad.return v)"

text \<open>\<open>if in.F != nil { x := (*in).DeepCopy(); *out = &x }\<close>\<close>

definition box_copy :: "copier \<Rightarrow> copier" where
  "box_copy c v =
     (case v of
        Ptr (Some a) \<Rightarrow> do {
          x \<leftarrow> load a;
          y \<leftarrow> c (var_of x);
          b \<leftarrow> alloc (CVar y);
          State_Monad.return (Ptr (Some b))
        }
      | _ \<Rightarrow> State_Monad.return v)"

text \<open>The loop \<open>for i := range *in { (*in)[i].DeepCopyInto(&(*out)[i]) }\<close> from index \<open>i\<close> on.\<close>

fun copy_elems :: "copier \<Rightarrow> nat \<Rightarrow> nat \<Rightarrow> gv list \<Rightarrow> (heap, unit) state" where
  "copy_elems c b i [] = State_Monad.return ()"
| "copy_elems c b i (x # xs) = do {
     y \<leftarrow> c x;
     arr \<leftarrow> load b;
     _ \<leftarrow> store_cell b (CArr ((elems_of arr)[i := y]));
     copy_elems c b (Suc i) xs
   }"

text \<open>\<open>if in.F != nil { *out = make([]T, len(*in)); for ... }\<close> and the same with \<open>copy(*out, *in)\<close>\<close>

definition make_copy :: "copier \<Rightarrow> copier" where
  "make_copy c v =
     (case v of
        Slice (Some a) \<Rightarrow> do {
          x \<leftarrow> load a;
          b \<leftarrow> alloc (CArr (replicate (length (elems_of x)) Zero));
          _ \<leftarrow> copy_elems c b 0 (elems_of x);
          State_Monad.return (Slice (Some b))
        }
      | _ \<Rightarrow> State_Monad.return v)"

definition make_copy_builtin :: copier where
  "make_copy_builtin v =
     (case v of
        Slice (Some a) \<Rightarrow> do {
          x \<leftarrow> load a;
          b \<leftarrow> alloc (CArr (replicate (length (elems_of x)) Zero));
          _ \<leftarrow> store_cell b (CArr (elems_of x));
          State_Monad.return (Slice (Some b))
        }
      | _ \<Rightarrow> State_Monad.return v)"

text \<open>\<open>if in.F != nil { *out = make(map[K]V, len(*in)); for key, val := range *in { (*out)[key] = val } }\<close>\<close>

fun copy_entries :: "nat \<Rightarrow> string list \<Rightarrow> gv list \<Rightarrow> (heap, unit) state" where
  "copy_entries b (k # ks) (x # xs) = do {
     m \<leftarrow> load b;
     _ \<leftarrow> store_cell b (CMap (keys_of m @ [k]) (elems_of m @ [x]));
     copy_entries b ks xs
   }"
| "copy_entries b _ _ = State_Monad.return ()"

definition map_copy :: copier where
  "map_copy v =
     (case v of
        MapRef (Some a) \<Rightarrow> do {
          x \<leftarrow> load a;
          b \<leftarrow> alloc (CMap [] []);
          _ \<leftarrow> copy_entries b (keys_of x) (elems_of x);
          State_Monad.return (MapRef (Some b))
        }
      | _ \<Rightarrow> State_Monad.return v)"

text \<open>\<open>*out = *in\<close>, then the statements for the fields named.\<close>

fun copy_fields :: "gv \<Rightarrow> (string \<times> copier) list \<Rightarrow> copier" where
  "copy_fields src [] out = State_Monad.return out"
| "copy_fields src ((n, c) # fs) out = do {
     x \<leftarrow> c (sel n src);
     copy_fields src fs (upd n x out)
   }"

definition copy_struct :: "(string \<times> copier) list \<Rightarrow> copier" where
  "copy_struct fs src = copy_fields src fs src"

subsection \<open>The contract\<close>

text \<open>
  A deep copier of a type only allocates, and its result stands for the same tree at new addresses only.
\<close>

definition deep :: "(ext \<Rightarrow> tree \<Rightarrow> bool) \<Rightarrow> ty \<Rightarrow> copier \<Rightarrow> bool" where
  "deep ok T c \<longleftrightarrow>
     (\<forall>h v t v' h'. conforms ok T t \<longrightarrow> denotes h 0 v t \<longrightarrow> run_state (c v) h = (v', h') \<longrightarrow>
        extends h h' \<and> denotes h' (length h) v' t)"

lemma deepI:
  assumes "\<And>h v t v' h'. conforms ok T t \<Longrightarrow> denotes h 0 v t \<Longrightarrow> run_state (c v) h = (v', h') \<Longrightarrow> extends h h' \<and> denotes h' (length h) v' t"
  shows "deep ok T c"
  using assms unfolding deep_def by blast

lemma deepD:
  assumes "deep ok T c" and "conforms ok T t" and "denotes h 0 v t" and "run_state (c v) h = (v', h')"
  shows "extends h h'" and "denotes h' (length h) v' t"
  using assms unfolding deep_def by blast+

named_theorems deep_intros \<open>deep copiers of composed types\<close>

lemma flat_denotes: "flat T \<Longrightarrow> conforms ok T t \<Longrightarrow> denotes h n v t \<Longrightarrow> denotes h' k v t"
proof (induction T arbitrary: t v)
  case (StructT ns Ts)
  then obtain ts vs where t: "t = TStruct ns ts" "v = Struct ns vs" "list_all2 (conforms ok) Ts ts" "list_all2 (denotes h n) vs ts"
    by auto
  have "denotes h' k (vs ! i) (ts ! i)" if "i < length ts" for i
  proof (rule StructT.IH)
    show "Ts ! i \<in> set Ts" "flat (Ts ! i)" using that t(3) StructT.prems(1) by (auto simp: list_all2_conv_all_nth list_all_iff)
    show "conforms ok (Ts ! i) (ts ! i)" "denotes h n (vs ! i) (ts ! i)" using that t by (auto simp: list_all2_conv_all_nth)
  qed
  with t show ?case by (auto simp: list_all2_conv_all_nth)
qed auto

lemma flat_list:
  "flat T \<Longrightarrow> list_all (conforms ok T) ts \<Longrightarrow> list_all2 (denotes h n) xs ts \<Longrightarrow> list_all2 (denotes h' k) xs ts"
  unfolding list_all2_conv_all_nth list_all_length by (metis flat_denotes)

lemma deep_assign [deep_intros]: "flat T \<Longrightarrow> deep ok T assign"
  by (rule deepI) (auto simp: assign_def intro: flat_denotes)

lemma deep_new [deep_intros]:
  assumes "deep ok T c"
  shows "deep ok (PtrT T) (new_copy c)"
proof (rule deepI)
  fix h v t v' h'
  assume T: "conforms ok (PtrT T) t" and v: "denotes h 0 v t" and run: "run_state (new_copy c v) h = (v', h')"
  show "extends h h' \<and> denotes h' (length h) v' t"
  proof (cases "t = TNil")
    case True
    with v run show ?thesis by (auto simp: new_copy_def)
  next
    case False
    then obtain u a x where u: "t = TPtr u" "conforms ok T u" "v = Ptr (Some a)" "a < length h" "h ! a = CVar x" "denotes h 0 x u"
      using T v by auto
    let ?h1 = "h @ [CVar Zero]"
    obtain y h2 where c: "run_state (c x) ?h1 = (y, h2)" by fastforce
    have x: "denotes ?h1 0 x u" using denotes_extends [OF u(6)] by simp
    note y = deepD [OF assms u(2) x c]
    have res: "h' = h2[length h := CVar y]" "v' = Ptr (Some (length h))"
      using run c u(3-5) by (auto simp: new_copy_def nth_append)
    have len: "length h < length h2" using extends_length [OF y(1)] by simp
    have "denotes h' (length h) y u" using denotes_mono [OF y(2)] agree_update [of "length h" h2 "CVar y"] by (simp add: res)
    with u(1) res len extends_update [OF y(1)] show ?thesis by simp
  qed
qed

lemma deep_box [deep_intros]:
  assumes "deep ok T c"
  shows "deep ok (PtrT T) (box_copy c)"
proof (rule deepI)
  fix h v t v' h'
  assume T: "conforms ok (PtrT T) t" and v: "denotes h 0 v t" and run: "run_state (box_copy c v) h = (v', h')"
  show "extends h h' \<and> denotes h' (length h) v' t"
  proof (cases "t = TNil")
    case True
    with v run show ?thesis by (auto simp: box_copy_def)
  next
    case False
    then obtain u a x where u: "t = TPtr u" "conforms ok T u" "v = Ptr (Some a)" "h ! a = CVar x" "denotes h 0 x u"
      using T v by auto
    obtain y h2 where c: "run_state (c x) h = (y, h2)" by fastforce
    note y = deepD [OF assms u(2,5) c]
    have res: "h' = h2 @ [CVar y]" "v' = Ptr (Some (length h2))" using run c u(3,4) by (auto simp: box_copy_def)
    have "denotes h' (length h) y u" using denotes_extends [OF y(2)] by (simp add: res)
    with u(1) res extends_length [OF y(1)] extends_trans [OF y(1) extends_snoc] show ?thesis by simp
  qed
qed

text \<open>The loop over the elements: those before the index are copied, the others still to do.\<close>

lemma copy_elems_run:
  assumes "deep ok T c" and "list_all (conforms ok T) ts" and "list_all2 (denotes h0 0) xs ts"
    and "list_all2 (denotes (h0 @ CArr (ys @ replicate (length xs) Zero) # e) (Suc (length h0))) ys us"
    and "run_state (copy_elems c (length h0) (length ys) xs) (h0 @ CArr (ys @ replicate (length xs) Zero) # e) = (r, h')"
  shows "\<exists>zs e'. h' = h0 @ CArr zs # e' \<and> list_all2 (denotes h' (Suc (length h0))) zs (us @ ts)"
  using assms(2-)
proof (induction xs arbitrary: ts ys us e)
  case Nil
  then show ?case by auto
next
  case (Cons x xs)
  then obtain t ts' where ts: "ts = t # ts'" "conforms ok T t" "list_all (conforms ok T) ts'" "denotes h0 0 x t" "list_all2 (denotes h0 0) xs ts'"
    by (cases ts) auto
  let ?h = "h0 @ CArr (ys @ replicate (length (x # xs)) Zero) # e"
  obtain y h1 where c: "run_state (c x) ?h = (y, h1)" by fastforce
  have "denotes ?h 0 x t" using denotes_extends [OF ts(4)] by simp
  note y = deepD [OF assms(1) ts(2) this c]
  obtain e1 where e1: "h1 = ?h @ e1" using y(1) by (auto simp: extends_def)
  let ?h2 = "h0 @ CArr ((ys @ [y]) @ replicate (length xs) Zero) # e @ e1"
  have run: "run_state (copy_elems c (length h0) (length (ys @ [y])) xs) ?h2 = (r, h')"
    using Cons.prems(4) c e1 by (simp add: list_update_append)
  have frame: "denotes ?h2 (Suc (length h0)) v u" if "denotes h1 (Suc (length h0)) v u" for v u
    by (rule denotes_mono [OF that]) (auto simp: agree_def e1 nth_append nth_Cons split: nat.splits)
  have "denotes h1 (Suc (length h0)) y t" using denotes_mono [OF y(2) extends_agree [OF extends_refl]] by simp
  moreover have "list_all2 (denotes h1 (Suc (length h0))) ys us" using denotes_list_extends [OF Cons.prems(3) y(1)] by simp
  ultimately have "list_all2 (denotes ?h2 (Suc (length h0))) (ys @ [y]) (us @ [t])"
    using frame by (auto intro!: list_all2_appendI elim: list.rel_mono_strong)
  from Cons.IH [OF ts(3,5) this run] show ?case by (simp add: ts(1))
qed

lemma deep_make [deep_intros]:
  assumes "deep ok T c"
  shows "deep ok (SliceT T) (make_copy c)"
proof (rule deepI)
  fix h v t v' h'
  assume T: "conforms ok (SliceT T) t" and v: "denotes h 0 v t" and run: "run_state (make_copy c v) h = (v', h')"
  show "extends h h' \<and> denotes h' (length h) v' t"
  proof (cases "t = TNil")
    case True
    with v run show ?thesis by (auto simp: make_copy_def)
  next
    case False
    then obtain ts a xs where u: "t = TSlice ts" "list_all (conforms ok T) ts" "v = Slice (Some a)" "a < length h" "h ! a = CArr xs"
      "list_all2 (denotes h 0) xs ts"
      using T v by auto
    obtain r h2 where c: "run_state (copy_elems c (length h) (length []) xs) (h @ CArr ([] @ replicate (length xs) Zero) # []) = (r, h2)"
      by (metis prod.exhaust)
    have res: "h' = h2" "v' = Slice (Some (length h))" using run c u(3-5) by (auto simp: make_copy_def)
    obtain zs e where zs: "h2 = h @ CArr zs # e" "list_all2 (denotes h2 (Suc (length h))) zs ts"
      using copy_elems_run [OF assms u(2,6), of "[]" "[]" "[]" r h2] c by auto
    have "list_all2 (denotes h2 (length h)) zs ts" using denotes_list_extends [OF zs(2) extends_refl] by simp
    with u(1) res zs(1) show ?thesis by simp
  qed
qed

lemma deep_builtin [deep_intros]:
  assumes "flat T"
  shows "deep ok (SliceT T) make_copy_builtin"
proof (rule deepI)
  fix h v t v' h'
  assume T: "conforms ok (SliceT T) t" and v: "denotes h 0 v t" and run: "run_state (make_copy_builtin v) h = (v', h')"
  show "extends h h' \<and> denotes h' (length h) v' t"
  proof (cases "t = TNil")
    case True
    with v run show ?thesis by (auto simp: make_copy_builtin_def)
  next
    case False
    then obtain ts a xs where u: "t = TSlice ts" "list_all (conforms ok T) ts" "v = Slice (Some a)" "h ! a = CArr xs" "list_all2 (denotes h 0) xs ts"
      using T v by auto
    note flat_list [OF assms u(2,5), of h' "length h"]
    with run u show ?thesis by (auto simp: make_copy_builtin_def)
  qed
qed

lemma copy_entries_run:
  "length ks = length xs \<Longrightarrow>
     run_state (copy_entries (length h) ks xs) (h @ [CMap js ys]) = ((), h @ [CMap (js @ ks) (ys @ xs)])"
  by (induction ks xs arbitrary: js ys rule: list_induct2) simp_all

lemma deep_map [deep_intros]:
  assumes "flat T"
  shows "deep ok (MapT T) map_copy"
proof (rule deepI)
  fix h v t v' h'
  assume T: "conforms ok (MapT T) t" and v: "denotes h 0 v t" and run: "run_state (map_copy v) h = (v', h')"
  show "extends h h' \<and> denotes h' (length h) v' t"
  proof (cases "t = TNil")
    case True
    with v run show ?thesis by (auto simp: map_copy_def)
  next
    case False
    then obtain ks ts a xs where u: "t = TMap ks ts" "length ks = length ts" "list_all (conforms ok T) ts" "v = MapRef (Some a)"
      "h ! a = CMap ks xs" "list_all2 (denotes h 0) xs ts"
      using T v by auto
    have "length ks = length xs" using u(2,6) by (simp add: list_all2_lengthD)
    note flat_list [OF assms u(3,6), of h' "length h"] copy_entries_run [OF this, of h "[]" "[]"]
    with run u show ?thesis by (auto simp: map_copy_def)
  qed
qed

subsection \<open>Structures\<close>

lemma position_nth: "distinct ns \<Longrightarrow> i < length ns \<Longrightarrow> position (ns ! i) ns = i"
proof (induction ns arbitrary: i)
  case (Cons a ns)
  then show ?case by (cases i) auto
qed simp

text \<open>
  The fields of a structure: those in \<open>D\<close> are copied, the others still hold the value of the original.
\<close>

definition copied :: "string list \<Rightarrow> gv list \<Rightarrow> tree list \<Rightarrow> nat \<Rightarrow> string set \<Rightarrow> heap \<Rightarrow> gv list \<Rightarrow> bool" where
  "copied ns vs ts n D h ws \<longleftrightarrow>
     length ws = length vs \<and> (\<forall>i < length ns. if ns ! i \<in> D then denotes h n (ws ! i) (ts ! i) else ws ! i = vs ! i)"

lemma copy_fields_run:
  assumes ns: "distinct ns" "length ts = length ns" and vs: "list_all2 (denotes h0 0) vs ts" and cs: "list_all2 (conforms ok) Ts ts"
    and "\<And>n c. (n, c) \<in> set fs \<Longrightarrow> \<exists>i < length ns. n = ns ! i \<and> deep ok (Ts ! i) c"
    and "copied ns vs ts (length h0) D h ws" and "extends h0 h"
    and "run_state (copy_fields (Struct ns vs) fs (Struct ns ws)) h = (v', h')"
  shows "\<exists>ws'. v' = Struct ns ws' \<and> copied ns vs ts (length h0) (D \<union> fst ` set fs) h' ws' \<and> extends h0 h'"
  using assms(5-)
proof (induction fs arbitrary: D h ws)
  case Nil
  then show ?case by auto
next
  case (Cons f fs)
  obtain n c where f: "f = (n, c)" by fastforce
  obtain i where i: "i < length ns" "n = ns ! i" and c: "deep ok (Ts ! i) c" using Cons.prems(1) [of n c] f by auto
  have pos: "position n ns = i" using position_nth ns(1) i by simp
  have lens: "length vs = length ns" "length Ts = length ns" using vs cs ns(2) by (auto dest: list_all2_lengthD)
  obtain x h1 where x: "run_state (c (vs ! i)) h = (x, h1)" by fastforce
  have "denotes h 0 (vs ! i) (ts ! i)" "conforms ok (Ts ! i) (ts ! i)"
    using vs cs i(1) ns(2) lens denotes_extends [OF _ Cons.prems(3)] by (auto simp: list_all2_conv_all_nth)
  note y = deepD [OF c this(2,1) x]
  have "copied ns vs ts (length h0) (insert n D) h1 (ws[i := x])"
    unfolding copied_def
  proof (intro conjI allI impI)
    fix j assume j: "j < length ns"
    show "if ns ! j \<in> insert n D then denotes h1 (length h0) (ws[i := x] ! j) (ts ! j) else ws[i := x] ! j = vs ! j"
    proof (cases "j = i")
      case True
      have "denotes h1 (length h0) x (ts ! i)" using denotes_extends [OF y(2) extends_refl extends_length [OF Cons.prems(3)]] .
      with True i lens Cons.prems(2) show ?thesis by (simp add: copied_def)
    next
      case False
      then have "ns ! j \<noteq> n" using ns(1) i j by (simp add: nth_eq_iff_index_eq)
      with False j Cons.prems(2) denotes_extends [OF _ y(1)] show ?thesis by (auto simp: copied_def)
    qed
  qed (use Cons.prems(2) in \<open>simp add: copied_def\<close>)
  moreover have "run_state (copy_fields (Struct ns vs) fs (Struct ns (ws[i := x]))) h1 = (v', h')"
    using Cons.prems(4) x by (simp add: f pos)
  ultimately show ?case
    using Cons.IH [of "insert n D" h1 "ws[i := x]"] Cons.prems(1) extends_trans [OF Cons.prems(3) y(1)] f by auto
qed

text \<open>A structure is copied if every field that may refer to memory has a statement that copies it.\<close>

definition covers :: "(ext \<Rightarrow> tree \<Rightarrow> bool) \<Rightarrow> string list \<Rightarrow> ty list \<Rightarrow> (string \<times> copier) list \<Rightarrow> bool" where
  "covers ok ns Ts fs \<longleftrightarrow>
     list_all2 (\<lambda>n T. case map_of fs n of None \<Rightarrow> flat T | Some c \<Rightarrow> deep ok T c) ns Ts"

lemma deep_struct:
  assumes "distinct ns" and "distinct (map fst fs)" and "fst ` set fs \<subseteq> set ns" and "covers ok ns Ts fs"
  shows "deep ok (StructT ns Ts) (copy_struct fs)"
proof (rule deepI)
  fix h v t v' h'
  assume T: "conforms ok (StructT ns Ts) t" and v: "denotes h 0 v t" and run: "run_state (copy_struct fs v) h = (v', h')"
  obtain ts vs where t: "t = TStruct ns ts" "list_all2 (conforms ok) Ts ts" "v = Struct ns vs" "list_all2 (denotes h 0) vs ts"
    using T v by auto
  have lens: "length Ts = length ns" "length ts = length ns" "length vs = length ns"
    using list_all2_lengthD [OF assms(4) [unfolded covers_def]] list_all2_lengthD [OF t(2)] list_all2_lengthD [OF t(4)] by simp_all
  have cov: "case map_of fs (ns ! i) of None \<Rightarrow> flat (Ts ! i) | Some c \<Rightarrow> deep ok (Ts ! i) c" if "i < length ns" for i
    using assms(4) that by (auto simp: covers_def list_all2_conv_all_nth)
  have fields: "\<exists>i < length ns. n = ns ! i \<and> deep ok (Ts ! i) c" if "(n, c) \<in> set fs" for n c
  proof -
    have "n \<in> set ns" using assms(3) that by force
    then obtain i where i: "i < length ns" "n = ns ! i" by (metis in_set_conv_nth)
    with cov [OF i(1)] assms(2) that show ?thesis by auto
  qed
  have start: "copied ns vs ts (length h) {} h vs" by (simp add: copied_def)
  have run': "run_state (copy_fields (Struct ns vs) fs (Struct ns vs)) h = (v', h')" using run t(3) by (simp add: copy_struct_def)
  obtain ws where ws: "v' = Struct ns ws" "copied ns vs ts (length h) (fst ` set fs) h' ws" "extends h h'"
    using copy_fields_run [where fs = fs, OF assms(1) lens(2) t(4,2) fields start extends_refl run'] by auto
  have "denotes h' (length h) (ws ! i) (ts ! i)" if i: "i < length ns" for i
  proof (cases "map_of fs (ns ! i)")
    case None
    then have "ns ! i \<notin> fst ` set fs" by (simp add: map_of_eq_None_iff)
    then have "ws ! i = vs ! i" using ws(2) i by (auto simp: copied_def)
    with None cov [OF i] t(2,4) lens i show ?thesis
      by (auto simp: list_all2_conv_all_nth intro: flat_denotes [of "Ts ! i" ok "ts ! i" h 0])
  next
    case (Some c)
    then have "ns ! i \<in> fst ` set fs" by (metis map_of_SomeD fst_conv image_eqI)
    with ws(2) i show ?thesis by (auto simp: copied_def)
  qed
  with t(1) ws lens show "extends h h' \<and> denotes h' (length h) v' t"
    by (auto simp: copied_def list_all2_conv_all_nth)
qed

end
