(* ===== verification/Api_Deep_Copy.thy ===== *)
theory Api_Deep_Copy
  imports Deep_Copy
begin

section \<open>The deep copies of the custom resources\<close>

text \<open>
  The methods of \<open>api/v1alpha1/zz_generated.deepcopy.go\<close>, one definition per method, with the layouts of the
  structures of \<open>llmservice_types.go\<close> and \<open>inferenceruntime_types.go\<close> they walk. The resources are of the
  interface \<open>runtime.Object\<close> through them: whoever keeps an object hands out a copy, and both sides go on to
  change what they hold. This is sound because a copy shares no memory with its original, which is
  what is shown here for every type. The entries of a map are copied in the order of the model's list of
  keys, which is one of the orders Go may take.
\<close>

subsection \<open>Layouts\<close>

definition TypeMeta_ty :: ty where "TypeMeta_ty = StructT [''Kind'', ''APIVersion''] [PrimT, PrimT]"
definition Duration_ty :: ty where "Duration_ty = StructT [''Duration''] [PrimT]"
definition LocalObjectReference_ty :: ty where "LocalObjectReference_ty = StructT [''Name''] [PrimT]"

definition AcceleratorFraction_ty :: ty where
  "AcceleratorFraction_ty = StructT
     [''Memory'', ''Cores'']
     [PtrT (ExtT Quantity_ext), PrimT]"

definition AcceleratorSharing_ty :: ty where
  "AcceleratorSharing_ty = StructT
     [''Supported'']
     [PrimT]"

definition RuntimeScheduler_ty :: ty where
  "RuntimeScheduler_ty = StructT
     [''Name'', ''Queue'']
     [PrimT, PrimT]"

definition AcceleratorSpec_ty :: ty where
  "AcceleratorSpec_ty = StructT
     [''ResourceName'', ''Sharing'', ''NodeSelector'', ''Tolerations'', ''Scheduler'']
     [PrimT, AcceleratorSharing_ty, MapT PrimT, SliceT (ExtT Toleration_ext), RuntimeScheduler_ty]"

definition CacheSpec_ty :: ty where
  "CacheSpec_ty = StructT
     [''Strategy'', ''Size'', ''StorageClassName'', ''Prewarm'']
     [PrimT, PtrT (ExtT Quantity_ext), PtrT PrimT, PrimT]"

definition ColdStartSpec_ty :: ty where
  "ColdStartSpec_ty = StructT
     [''Mode'', ''HeartbeatInterval'']
     [PrimT, Duration_ty]"

definition SecretKeyReference_ty :: ty where
  "SecretKeyReference_ty = StructT
     [''Name'', ''Key'']
     [PrimT, PrimT]"

definition EndpointAuthenticationSpec_ty :: ty where
  "EndpointAuthenticationSpec_ty = StructT
     [''SecretRef'']
     [SecretKeyReference_ty]"

definition GatewayComputeSpec_ty :: ty where
  "GatewayComputeSpec_ty = StructT
     [''CPU'', ''Memory'']
     [PtrT (ExtT Quantity_ext), PtrT (ExtT Quantity_ext)]"

definition GatewayResourceSpec_ty :: ty where
  "GatewayResourceSpec_ty = StructT
     [''Requests'', ''Limits'']
     [GatewayComputeSpec_ty, GatewayComputeSpec_ty]"

definition EndpointSpec_ty :: ty where
  "EndpointSpec_ty = StructT
     [''OpenAICompatible'', ''MaxQueue'', ''Resources'', ''Authentication'', ''ColdStart'']
     [PrimT, PrimT, GatewayResourceSpec_ty, PtrT EndpointAuthenticationSpec_ty, ColdStartSpec_ty]"

definition KEDAAuthenticationReference_ty :: ty where
  "KEDAAuthenticationReference_ty = StructT
     [''Name'', ''Kind'']
     [PrimT, PrimT]"

definition ExternalScalerTLSSpec_ty :: ty where
  "ExternalScalerTLSSpec_ty = StructT
     [''ServerSecretName'', ''AuthenticationRef'']
     [PrimT, KEDAAuthenticationReference_ty]"

definition ExternalScalerSpec_ty :: ty where
  "ExternalScalerSpec_ty = StructT
     [''TLS'']
     [PtrT ExternalScalerTLSSpec_ty]"

definition RuntimePort_ty :: ty where
  "RuntimePort_ty = StructT
     [''Name'', ''ContainerPort'']
     [PrimT, PrimT]"

definition RuntimeContainer_ty :: ty where
  "RuntimeContainer_ty = StructT
     [''Image'', ''Args'', ''Env'', ''Port'']
     [PrimT, SliceT PrimT, SliceT (ExtT EnvVar_ext), RuntimePort_ty]"

definition RuntimeHealth_ty :: ty where
  "RuntimeHealth_ty = StructT
     [''Readiness'', ''Liveness'', ''Startup'']
     [PtrT (ExtT Probe_ext), PtrT (ExtT Probe_ext), PtrT (ExtT Probe_ext)]"

definition RuntimeLifecycle_ty :: ty where
  "RuntimeLifecycle_ty = StructT
     [''TerminationGracePeriodSeconds'', ''PreStopDrain'']
     [PtrT PrimT, PrimT]"

definition RuntimeMetrics_ty :: ty where
  "RuntimeMetrics_ty = StructT
     [''Path'', ''Port'', ''QueueDepth'', ''KVCacheUtil'', ''Running'', ''TTFT'']
     [PrimT, PrimT, PrimT, PrimT, PrimT, PrimT]"

definition InferenceRuntimeSpec_ty :: ty where
  "InferenceRuntimeSpec_ty = StructT
     [''Family'', ''Vendor'', ''Priority'', ''Container'', ''Accelerator'', ''Health'', ''Lifecycle'', ''Metrics'']
     [PrimT, PrimT, PrimT, RuntimeContainer_ty, AcceleratorSpec_ty, RuntimeHealth_ty, RuntimeLifecycle_ty,
      RuntimeMetrics_ty]"

definition InferenceRuntimeStatus_ty :: ty where
  "InferenceRuntimeStatus_ty = StructT
     [''Conditions'']
     [SliceT (ExtT Condition_ext)]"

definition InferenceRuntime_ty :: ty where
  "InferenceRuntime_ty = StructT
     [''TypeMeta'', ''ObjectMeta'', ''Spec'', ''Status'']
     [TypeMeta_ty, ExtT ObjectMeta_ext, InferenceRuntimeSpec_ty, InferenceRuntimeStatus_ty]"

definition InferenceRuntimeList_ty :: ty where
  "InferenceRuntimeList_ty = StructT
     [''TypeMeta'', ''ListMeta'', ''Items'']
     [TypeMeta_ty, ExtT ListMeta_ext, SliceT InferenceRuntime_ty]"

definition ModelSource_ty :: ty where
  "ModelSource_ty = StructT
     [''URI'', ''SecretRef'']
     [PrimT, PtrT LocalObjectReference_ty]"

definition ModelSpec_ty :: ty where
  "ModelSpec_ty = StructT
     [''CatalogRef'', ''Source'']
     [PrimT, PtrT ModelSource_ty]"

definition RuntimeSelector_ty :: ty where
  "RuntimeSelector_ty = StructT
     [''Vendor'']
     [SliceT PrimT]"

definition RuntimeSelection_ty :: ty where
  "RuntimeSelection_ty = StructT
     [''Name'', ''Selector'', ''ArgsOverride'']
     [PrimT, PtrT RuntimeSelector_ty, SliceT PrimT]"

definition ResourceSpec_ty :: ty where
  "ResourceSpec_ty = StructT
     [''Accelerators'', ''Fraction'', ''CPU'', ''Memory'']
     [PrimT, PtrT AcceleratorFraction_ty, PtrT (ExtT Quantity_ext), PtrT (ExtT Quantity_ext)]"

definition ScalingSpec_ty :: ty where
  "ScalingSpec_ty = StructT
     [''Min'', ''Max'', ''Metric'', ''Target'', ''ActivationTimeout'', ''ScaleDownStabilization'', ''DrainTimeout'',
      ''ExternalScaler'']
     [PrimT, PrimT, PrimT, PrimT, Duration_ty, Duration_ty, Duration_ty, PtrT ExternalScalerSpec_ty]"

definition LLMServiceSpec_ty :: ty where
  "LLMServiceSpec_ty = StructT
     [''Model'', ''Runtime'', ''Resources'', ''Scaling'', ''Cache'', ''Endpoint'', ''ImagePullSecrets'']
     [ModelSpec_ty, RuntimeSelection_ty, ResourceSpec_ty, ScalingSpec_ty, CacheSpec_ty, EndpointSpec_ty,
      SliceT LocalObjectReference_ty]"

definition LLMServiceStatus_ty :: ty where
  "LLMServiceStatus_ty = StructT
     [''Phase'', ''ResolvedRuntime'', ''Replicas'', ''EndpointURL'', ''Conditions'']
     [PrimT, PrimT, PrimT, PrimT, SliceT (ExtT Condition_ext)]"

definition LLMService_ty :: ty where
  "LLMService_ty = StructT
     [''TypeMeta'', ''ObjectMeta'', ''Spec'', ''Status'']
     [TypeMeta_ty, ExtT ObjectMeta_ext, LLMServiceSpec_ty, LLMServiceStatus_ty]"

definition LLMServiceList_ty :: ty where
  "LLMServiceList_ty = StructT
     [''TypeMeta'', ''ListMeta'', ''Items'']
     [TypeMeta_ty, ExtT ListMeta_ext, SliceT LLMService_ty]"

subsection \<open>DeepCopyInto\<close>

text \<open>\<open>lib\<close> has the methods of the types of other packages.\<close>

type_synonym copy_lib = "ext \<Rightarrow> copier"

definition AcceleratorFraction_DeepCopyInto :: "copy_lib \<Rightarrow> copier" where
  "AcceleratorFraction_DeepCopyInto lib = copy_struct
     [(''Memory'', box_copy (lib Quantity_ext))]"

definition AcceleratorSharing_DeepCopyInto :: "copier" where
  "AcceleratorSharing_DeepCopyInto = copy_struct []"

definition RuntimeScheduler_DeepCopyInto :: "copier" where
  "RuntimeScheduler_DeepCopyInto = copy_struct []"

definition AcceleratorSpec_DeepCopyInto :: "copy_lib \<Rightarrow> copier" where
  "AcceleratorSpec_DeepCopyInto lib = copy_struct
     [(''Sharing'', assign), (''NodeSelector'', map_copy), (''Tolerations'', make_copy (lib Toleration_ext)),
      (''Scheduler'', assign)]"

definition CacheSpec_DeepCopyInto :: "copy_lib \<Rightarrow> copier" where
  "CacheSpec_DeepCopyInto lib = copy_struct
     [(''Size'', box_copy (lib Quantity_ext)), (''StorageClassName'', new_copy assign)]"

definition ColdStartSpec_DeepCopyInto :: "copier" where
  "ColdStartSpec_DeepCopyInto = copy_struct
     [(''HeartbeatInterval'', assign)]"

definition SecretKeyReference_DeepCopyInto :: "copier" where
  "SecretKeyReference_DeepCopyInto = copy_struct []"

definition EndpointAuthenticationSpec_DeepCopyInto :: "copier" where
  "EndpointAuthenticationSpec_DeepCopyInto = copy_struct
     [(''SecretRef'', assign)]"

definition GatewayComputeSpec_DeepCopyInto :: "copy_lib \<Rightarrow> copier" where
  "GatewayComputeSpec_DeepCopyInto lib = copy_struct
     [(''CPU'', box_copy (lib Quantity_ext)), (''Memory'', box_copy (lib Quantity_ext))]"

definition GatewayResourceSpec_DeepCopyInto :: "copy_lib \<Rightarrow> copier" where
  "GatewayResourceSpec_DeepCopyInto lib = copy_struct
     [(''Requests'', GatewayComputeSpec_DeepCopyInto lib), (''Limits'', GatewayComputeSpec_DeepCopyInto lib)]"

definition EndpointSpec_DeepCopyInto :: "copy_lib \<Rightarrow> copier" where
  "EndpointSpec_DeepCopyInto lib = copy_struct
     [(''Resources'', GatewayResourceSpec_DeepCopyInto lib), (''Authentication'', new_copy assign),
      (''ColdStart'', assign)]"

definition KEDAAuthenticationReference_DeepCopyInto :: "copier" where
  "KEDAAuthenticationReference_DeepCopyInto = copy_struct []"

definition ExternalScalerTLSSpec_DeepCopyInto :: "copier" where
  "ExternalScalerTLSSpec_DeepCopyInto = copy_struct
     [(''AuthenticationRef'', assign)]"

definition ExternalScalerSpec_DeepCopyInto :: "copier" where
  "ExternalScalerSpec_DeepCopyInto = copy_struct
     [(''TLS'', new_copy assign)]"

definition RuntimePort_DeepCopyInto :: "copier" where
  "RuntimePort_DeepCopyInto = copy_struct []"

definition RuntimeContainer_DeepCopyInto :: "copy_lib \<Rightarrow> copier" where
  "RuntimeContainer_DeepCopyInto lib = copy_struct
     [(''Args'', make_copy_builtin), (''Env'', make_copy (lib EnvVar_ext)), (''Port'', assign)]"

definition RuntimeHealth_DeepCopyInto :: "copy_lib \<Rightarrow> copier" where
  "RuntimeHealth_DeepCopyInto lib = copy_struct
     [(''Readiness'', new_copy (lib Probe_ext)), (''Liveness'', new_copy (lib Probe_ext)),
      (''Startup'', new_copy (lib Probe_ext))]"

definition RuntimeLifecycle_DeepCopyInto :: "copier" where
  "RuntimeLifecycle_DeepCopyInto = copy_struct
     [(''TerminationGracePeriodSeconds'', new_copy assign)]"

definition RuntimeMetrics_DeepCopyInto :: "copier" where
  "RuntimeMetrics_DeepCopyInto = copy_struct []"

definition InferenceRuntimeSpec_DeepCopyInto :: "copy_lib \<Rightarrow> copier" where
  "InferenceRuntimeSpec_DeepCopyInto lib = copy_struct
     [(''Container'', RuntimeContainer_DeepCopyInto lib), (''Accelerator'', AcceleratorSpec_DeepCopyInto lib),
      (''Health'', RuntimeHealth_DeepCopyInto lib), (''Lifecycle'', RuntimeLifecycle_DeepCopyInto),
      (''Metrics'', assign)]"

definition InferenceRuntimeStatus_DeepCopyInto :: "copy_lib \<Rightarrow> copier" where
  "InferenceRuntimeStatus_DeepCopyInto lib = copy_struct
     [(''Conditions'', make_copy (lib Condition_ext))]"

definition InferenceRuntime_DeepCopyInto :: "copy_lib \<Rightarrow> copier" where
  "InferenceRuntime_DeepCopyInto lib = copy_struct
     [(''TypeMeta'', assign), (''ObjectMeta'', lib ObjectMeta_ext),
      (''Spec'', InferenceRuntimeSpec_DeepCopyInto lib), (''Status'', InferenceRuntimeStatus_DeepCopyInto lib)]"

definition InferenceRuntimeList_DeepCopyInto :: "copy_lib \<Rightarrow> copier" where
  "InferenceRuntimeList_DeepCopyInto lib = copy_struct
     [(''TypeMeta'', assign), (''ListMeta'', lib ListMeta_ext),
      (''Items'', make_copy (InferenceRuntime_DeepCopyInto lib))]"

definition ModelSource_DeepCopyInto :: "copier" where
  "ModelSource_DeepCopyInto = copy_struct
     [(''SecretRef'', new_copy assign)]"

definition ModelSpec_DeepCopyInto :: "copier" where
  "ModelSpec_DeepCopyInto = copy_struct
     [(''Source'', new_copy ModelSource_DeepCopyInto)]"

definition RuntimeSelector_DeepCopyInto :: "copier" where
  "RuntimeSelector_DeepCopyInto = copy_struct
     [(''Vendor'', make_copy_builtin)]"

definition RuntimeSelection_DeepCopyInto :: "copier" where
  "RuntimeSelection_DeepCopyInto = copy_struct
     [(''Selector'', new_copy RuntimeSelector_DeepCopyInto), (''ArgsOverride'', make_copy_builtin)]"

definition ResourceSpec_DeepCopyInto :: "copy_lib \<Rightarrow> copier" where
  "ResourceSpec_DeepCopyInto lib = copy_struct
     [(''Fraction'', new_copy (AcceleratorFraction_DeepCopyInto lib)), (''CPU'', box_copy (lib Quantity_ext)),
      (''Memory'', box_copy (lib Quantity_ext))]"

definition ScalingSpec_DeepCopyInto :: "copier" where
  "ScalingSpec_DeepCopyInto = copy_struct
     [(''ActivationTimeout'', assign), (''ScaleDownStabilization'', assign), (''DrainTimeout'', assign),
      (''ExternalScaler'', new_copy ExternalScalerSpec_DeepCopyInto)]"

definition LLMServiceSpec_DeepCopyInto :: "copy_lib \<Rightarrow> copier" where
  "LLMServiceSpec_DeepCopyInto lib = copy_struct
     [(''Model'', ModelSpec_DeepCopyInto), (''Runtime'', RuntimeSelection_DeepCopyInto),
      (''Resources'', ResourceSpec_DeepCopyInto lib), (''Scaling'', ScalingSpec_DeepCopyInto),
      (''Cache'', CacheSpec_DeepCopyInto lib), (''Endpoint'', EndpointSpec_DeepCopyInto lib),
      (''ImagePullSecrets'', make_copy_builtin)]"

definition LLMServiceStatus_DeepCopyInto :: "copy_lib \<Rightarrow> copier" where
  "LLMServiceStatus_DeepCopyInto lib = copy_struct
     [(''Conditions'', make_copy (lib Condition_ext))]"

definition LLMService_DeepCopyInto :: "copy_lib \<Rightarrow> copier" where
  "LLMService_DeepCopyInto lib = copy_struct
     [(''TypeMeta'', assign), (''ObjectMeta'', lib ObjectMeta_ext), (''Spec'', LLMServiceSpec_DeepCopyInto lib),
      (''Status'', LLMServiceStatus_DeepCopyInto lib)]"

definition LLMServiceList_DeepCopyInto :: "copy_lib \<Rightarrow> copier" where
  "LLMServiceList_DeepCopyInto lib = copy_struct
     [(''TypeMeta'', assign), (''ListMeta'', lib ListMeta_ext), (''Items'', make_copy (LLMService_DeepCopyInto lib))]"

subsection \<open>DeepCopy and DeepCopyObject\<close>

text \<open>
  The receiver is a pointer: \<open>nil\<close> for \<open>nil\<close>, otherwise a new variable that \<open>DeepCopyInto\<close> fills. As an object of the
  interface \<open>runtime.Object\<close> the same pointer is returned, and \<open>nil\<close> for \<open>nil\<close>.
\<close>

definition AcceleratorFraction_DeepCopy :: "copy_lib \<Rightarrow> copier" where
  "AcceleratorFraction_DeepCopy lib = new_copy (AcceleratorFraction_DeepCopyInto lib)"
definition AcceleratorSharing_DeepCopy :: "copier" where
  "AcceleratorSharing_DeepCopy = new_copy AcceleratorSharing_DeepCopyInto"
definition RuntimeScheduler_DeepCopy :: "copier" where
  "RuntimeScheduler_DeepCopy = new_copy RuntimeScheduler_DeepCopyInto"
definition AcceleratorSpec_DeepCopy :: "copy_lib \<Rightarrow> copier" where
  "AcceleratorSpec_DeepCopy lib = new_copy (AcceleratorSpec_DeepCopyInto lib)"
definition CacheSpec_DeepCopy :: "copy_lib \<Rightarrow> copier" where
  "CacheSpec_DeepCopy lib = new_copy (CacheSpec_DeepCopyInto lib)"
definition ColdStartSpec_DeepCopy :: "copier" where "ColdStartSpec_DeepCopy = new_copy ColdStartSpec_DeepCopyInto"
definition SecretKeyReference_DeepCopy :: "copier" where
  "SecretKeyReference_DeepCopy = new_copy SecretKeyReference_DeepCopyInto"
definition EndpointAuthenticationSpec_DeepCopy :: "copier" where
  "EndpointAuthenticationSpec_DeepCopy = new_copy EndpointAuthenticationSpec_DeepCopyInto"
definition GatewayComputeSpec_DeepCopy :: "copy_lib \<Rightarrow> copier" where
  "GatewayComputeSpec_DeepCopy lib = new_copy (GatewayComputeSpec_DeepCopyInto lib)"
definition GatewayResourceSpec_DeepCopy :: "copy_lib \<Rightarrow> copier" where
  "GatewayResourceSpec_DeepCopy lib = new_copy (GatewayResourceSpec_DeepCopyInto lib)"
definition EndpointSpec_DeepCopy :: "copy_lib \<Rightarrow> copier" where
  "EndpointSpec_DeepCopy lib = new_copy (EndpointSpec_DeepCopyInto lib)"
definition KEDAAuthenticationReference_DeepCopy :: "copier" where
  "KEDAAuthenticationReference_DeepCopy = new_copy KEDAAuthenticationReference_DeepCopyInto"
definition ExternalScalerTLSSpec_DeepCopy :: "copier" where
  "ExternalScalerTLSSpec_DeepCopy = new_copy ExternalScalerTLSSpec_DeepCopyInto"
definition ExternalScalerSpec_DeepCopy :: "copier" where
  "ExternalScalerSpec_DeepCopy = new_copy ExternalScalerSpec_DeepCopyInto"
definition RuntimePort_DeepCopy :: "copier" where "RuntimePort_DeepCopy = new_copy RuntimePort_DeepCopyInto"
definition RuntimeContainer_DeepCopy :: "copy_lib \<Rightarrow> copier" where
  "RuntimeContainer_DeepCopy lib = new_copy (RuntimeContainer_DeepCopyInto lib)"
definition RuntimeHealth_DeepCopy :: "copy_lib \<Rightarrow> copier" where
  "RuntimeHealth_DeepCopy lib = new_copy (RuntimeHealth_DeepCopyInto lib)"
definition RuntimeLifecycle_DeepCopy :: "copier" where
  "RuntimeLifecycle_DeepCopy = new_copy RuntimeLifecycle_DeepCopyInto"
definition RuntimeMetrics_DeepCopy :: "copier" where "RuntimeMetrics_DeepCopy = new_copy RuntimeMetrics_DeepCopyInto"
definition InferenceRuntimeSpec_DeepCopy :: "copy_lib \<Rightarrow> copier" where
  "InferenceRuntimeSpec_DeepCopy lib = new_copy (InferenceRuntimeSpec_DeepCopyInto lib)"
definition InferenceRuntimeStatus_DeepCopy :: "copy_lib \<Rightarrow> copier" where
  "InferenceRuntimeStatus_DeepCopy lib = new_copy (InferenceRuntimeStatus_DeepCopyInto lib)"
definition InferenceRuntime_DeepCopy :: "copy_lib \<Rightarrow> copier" where
  "InferenceRuntime_DeepCopy lib = new_copy (InferenceRuntime_DeepCopyInto lib)"
definition InferenceRuntimeList_DeepCopy :: "copy_lib \<Rightarrow> copier" where
  "InferenceRuntimeList_DeepCopy lib = new_copy (InferenceRuntimeList_DeepCopyInto lib)"
definition ModelSource_DeepCopy :: "copier" where "ModelSource_DeepCopy = new_copy ModelSource_DeepCopyInto"
definition ModelSpec_DeepCopy :: "copier" where "ModelSpec_DeepCopy = new_copy ModelSpec_DeepCopyInto"
definition RuntimeSelector_DeepCopy :: "copier" where
  "RuntimeSelector_DeepCopy = new_copy RuntimeSelector_DeepCopyInto"
definition RuntimeSelection_DeepCopy :: "copier" where
  "RuntimeSelection_DeepCopy = new_copy RuntimeSelection_DeepCopyInto"
definition ResourceSpec_DeepCopy :: "copy_lib \<Rightarrow> copier" where
  "ResourceSpec_DeepCopy lib = new_copy (ResourceSpec_DeepCopyInto lib)"
definition ScalingSpec_DeepCopy :: "copier" where "ScalingSpec_DeepCopy = new_copy ScalingSpec_DeepCopyInto"
definition LLMServiceSpec_DeepCopy :: "copy_lib \<Rightarrow> copier" where
  "LLMServiceSpec_DeepCopy lib = new_copy (LLMServiceSpec_DeepCopyInto lib)"
definition LLMServiceStatus_DeepCopy :: "copy_lib \<Rightarrow> copier" where
  "LLMServiceStatus_DeepCopy lib = new_copy (LLMServiceStatus_DeepCopyInto lib)"
definition LLMService_DeepCopy :: "copy_lib \<Rightarrow> copier" where
  "LLMService_DeepCopy lib = new_copy (LLMService_DeepCopyInto lib)"
definition LLMServiceList_DeepCopy :: "copy_lib \<Rightarrow> copier" where
  "LLMServiceList_DeepCopy lib = new_copy (LLMServiceList_DeepCopyInto lib)"

definition InferenceRuntime_DeepCopyObject :: "copy_lib \<Rightarrow> copier" where
  "InferenceRuntime_DeepCopyObject lib v = do { c \<leftarrow> InferenceRuntime_DeepCopy lib v; State_Monad.return (if c \<noteq> Ptr None then c else Ptr None) }"
definition InferenceRuntimeList_DeepCopyObject :: "copy_lib \<Rightarrow> copier" where
  "InferenceRuntimeList_DeepCopyObject lib v = do { c \<leftarrow> InferenceRuntimeList_DeepCopy lib v; State_Monad.return (if c \<noteq> Ptr None then c else Ptr None) }"
definition LLMService_DeepCopyObject :: "copy_lib \<Rightarrow> copier" where
  "LLMService_DeepCopyObject lib v = do { c \<leftarrow> LLMService_DeepCopy lib v; State_Monad.return (if c \<noteq> Ptr None then c else Ptr None) }"
definition LLMServiceList_DeepCopyObject :: "copy_lib \<Rightarrow> copier" where
  "LLMServiceList_DeepCopyObject lib v = do { c \<leftarrow> LLMServiceList_DeepCopy lib v; State_Monad.return (if c \<noteq> Ptr None then c else Ptr None) }"

subsection \<open>Every method copies\<close>

text \<open>What the methods of other packages promise: they are deep copies themselves.\<close>

definition library_law :: "(ext \<Rightarrow> tree \<Rightarrow> bool) \<Rightarrow> copy_lib \<Rightarrow> bool" where
  "library_law ok lib \<longleftrightarrow> (\<forall>e. deep ok (ExtT e) (lib e))"

lemma library_lawD: "library_law ok lib \<Longrightarrow> deep ok (ExtT e) (lib e)"
  by (simp add: library_law_def)

lemma flat_types [simp]:
  "flat TypeMeta_ty"
  "flat Duration_ty"
  "flat LocalObjectReference_ty"
  "flat AcceleratorSharing_ty"
  "flat RuntimeScheduler_ty"
  "flat ColdStartSpec_ty"
  "flat SecretKeyReference_ty"
  "flat EndpointAuthenticationSpec_ty"
  "flat KEDAAuthenticationReference_ty"
  "flat ExternalScalerTLSSpec_ty"
  "flat RuntimePort_ty"
  "flat RuntimeMetrics_ty"
  by (simp_all add: TypeMeta_ty_def Duration_ty_def LocalObjectReference_ty_def AcceleratorSharing_ty_def
    RuntimeScheduler_ty_def ColdStartSpec_ty_def SecretKeyReference_ty_def EndpointAuthenticationSpec_ty_def
    KEDAAuthenticationReference_ty_def ExternalScalerTLSSpec_ty_def RuntimePort_ty_def RuntimeMetrics_ty_def)

named_theorems deep_types \<open>the deep copies of the structures\<close>

lemmas struct_simps = deep_struct covers_def deep_intros

lemma deep_AcceleratorFraction [deep_types]: "library_law ok lib \<Longrightarrow> deep ok AcceleratorFraction_ty (AcceleratorFraction_DeepCopyInto lib)"
  by (simp add: AcceleratorFraction_ty_def AcceleratorFraction_DeepCopyInto_def struct_simps deep_types library_lawD)

lemma deep_AcceleratorSharing [deep_types]: "deep ok AcceleratorSharing_ty AcceleratorSharing_DeepCopyInto"
  by (simp add: AcceleratorSharing_ty_def AcceleratorSharing_DeepCopyInto_def struct_simps deep_types)

lemma deep_RuntimeScheduler [deep_types]: "deep ok RuntimeScheduler_ty RuntimeScheduler_DeepCopyInto"
  by (simp add: RuntimeScheduler_ty_def RuntimeScheduler_DeepCopyInto_def struct_simps deep_types)

lemma deep_AcceleratorSpec [deep_types]: "library_law ok lib \<Longrightarrow> deep ok AcceleratorSpec_ty (AcceleratorSpec_DeepCopyInto lib)"
  by (simp add: AcceleratorSpec_ty_def AcceleratorSpec_DeepCopyInto_def struct_simps deep_types library_lawD)

lemma deep_CacheSpec [deep_types]: "library_law ok lib \<Longrightarrow> deep ok CacheSpec_ty (CacheSpec_DeepCopyInto lib)"
  by (simp add: CacheSpec_ty_def CacheSpec_DeepCopyInto_def struct_simps deep_types library_lawD)

lemma deep_ColdStartSpec [deep_types]: "deep ok ColdStartSpec_ty ColdStartSpec_DeepCopyInto"
  by (simp add: ColdStartSpec_ty_def ColdStartSpec_DeepCopyInto_def struct_simps deep_types)

lemma deep_SecretKeyReference [deep_types]: "deep ok SecretKeyReference_ty SecretKeyReference_DeepCopyInto"
  by (simp add: SecretKeyReference_ty_def SecretKeyReference_DeepCopyInto_def struct_simps deep_types)

lemma deep_EndpointAuthenticationSpec [deep_types]: "deep ok EndpointAuthenticationSpec_ty EndpointAuthenticationSpec_DeepCopyInto"
  by (simp add: EndpointAuthenticationSpec_ty_def EndpointAuthenticationSpec_DeepCopyInto_def struct_simps deep_types)

lemma deep_GatewayComputeSpec [deep_types]: "library_law ok lib \<Longrightarrow> deep ok GatewayComputeSpec_ty (GatewayComputeSpec_DeepCopyInto lib)"
  by (simp add: GatewayComputeSpec_ty_def GatewayComputeSpec_DeepCopyInto_def struct_simps deep_types library_lawD)

lemma deep_GatewayResourceSpec [deep_types]: "library_law ok lib \<Longrightarrow> deep ok GatewayResourceSpec_ty (GatewayResourceSpec_DeepCopyInto lib)"
  by (simp add: GatewayResourceSpec_ty_def GatewayResourceSpec_DeepCopyInto_def struct_simps deep_types library_lawD)

lemma deep_EndpointSpec [deep_types]: "library_law ok lib \<Longrightarrow> deep ok EndpointSpec_ty (EndpointSpec_DeepCopyInto lib)"
  by (simp add: EndpointSpec_ty_def EndpointSpec_DeepCopyInto_def struct_simps deep_types library_lawD)

lemma deep_KEDAAuthenticationReference [deep_types]: "deep ok KEDAAuthenticationReference_ty KEDAAuthenticationReference_DeepCopyInto"
  by (simp add: KEDAAuthenticationReference_ty_def KEDAAuthenticationReference_DeepCopyInto_def struct_simps deep_types)

lemma deep_ExternalScalerTLSSpec [deep_types]: "deep ok ExternalScalerTLSSpec_ty ExternalScalerTLSSpec_DeepCopyInto"
  by (simp add: ExternalScalerTLSSpec_ty_def ExternalScalerTLSSpec_DeepCopyInto_def struct_simps deep_types)

lemma deep_ExternalScalerSpec [deep_types]: "deep ok ExternalScalerSpec_ty ExternalScalerSpec_DeepCopyInto"
  by (simp add: ExternalScalerSpec_ty_def ExternalScalerSpec_DeepCopyInto_def struct_simps deep_types)

lemma deep_RuntimePort [deep_types]: "deep ok RuntimePort_ty RuntimePort_DeepCopyInto"
  by (simp add: RuntimePort_ty_def RuntimePort_DeepCopyInto_def struct_simps deep_types)

lemma deep_RuntimeContainer [deep_types]: "library_law ok lib \<Longrightarrow> deep ok RuntimeContainer_ty (RuntimeContainer_DeepCopyInto lib)"
  by (simp add: RuntimeContainer_ty_def RuntimeContainer_DeepCopyInto_def struct_simps deep_types library_lawD)

lemma deep_RuntimeHealth [deep_types]: "library_law ok lib \<Longrightarrow> deep ok RuntimeHealth_ty (RuntimeHealth_DeepCopyInto lib)"
  by (simp add: RuntimeHealth_ty_def RuntimeHealth_DeepCopyInto_def struct_simps deep_types library_lawD)

lemma deep_RuntimeLifecycle [deep_types]: "deep ok RuntimeLifecycle_ty RuntimeLifecycle_DeepCopyInto"
  by (simp add: RuntimeLifecycle_ty_def RuntimeLifecycle_DeepCopyInto_def struct_simps deep_types)

lemma deep_RuntimeMetrics [deep_types]: "deep ok RuntimeMetrics_ty RuntimeMetrics_DeepCopyInto"
  by (simp add: RuntimeMetrics_ty_def RuntimeMetrics_DeepCopyInto_def struct_simps deep_types)

lemma deep_InferenceRuntimeSpec [deep_types]: "library_law ok lib \<Longrightarrow> deep ok InferenceRuntimeSpec_ty (InferenceRuntimeSpec_DeepCopyInto lib)"
  by (simp add: InferenceRuntimeSpec_ty_def InferenceRuntimeSpec_DeepCopyInto_def struct_simps deep_types library_lawD)

lemma deep_InferenceRuntimeStatus [deep_types]: "library_law ok lib \<Longrightarrow> deep ok InferenceRuntimeStatus_ty (InferenceRuntimeStatus_DeepCopyInto lib)"
  by (simp add: InferenceRuntimeStatus_ty_def InferenceRuntimeStatus_DeepCopyInto_def struct_simps deep_types library_lawD)

lemma deep_InferenceRuntime [deep_types]: "library_law ok lib \<Longrightarrow> deep ok InferenceRuntime_ty (InferenceRuntime_DeepCopyInto lib)"
  by (simp add: InferenceRuntime_ty_def InferenceRuntime_DeepCopyInto_def struct_simps deep_types library_lawD)

lemma deep_InferenceRuntimeList [deep_types]: "library_law ok lib \<Longrightarrow> deep ok InferenceRuntimeList_ty (InferenceRuntimeList_DeepCopyInto lib)"
  by (simp add: InferenceRuntimeList_ty_def InferenceRuntimeList_DeepCopyInto_def struct_simps deep_types library_lawD)

lemma deep_ModelSource [deep_types]: "deep ok ModelSource_ty ModelSource_DeepCopyInto"
  by (simp add: ModelSource_ty_def ModelSource_DeepCopyInto_def struct_simps deep_types)

lemma deep_ModelSpec [deep_types]: "deep ok ModelSpec_ty ModelSpec_DeepCopyInto"
  by (simp add: ModelSpec_ty_def ModelSpec_DeepCopyInto_def struct_simps deep_types)

lemma deep_RuntimeSelector [deep_types]: "deep ok RuntimeSelector_ty RuntimeSelector_DeepCopyInto"
  by (simp add: RuntimeSelector_ty_def RuntimeSelector_DeepCopyInto_def struct_simps deep_types)

lemma deep_RuntimeSelection [deep_types]: "deep ok RuntimeSelection_ty RuntimeSelection_DeepCopyInto"
  by (simp add: RuntimeSelection_ty_def RuntimeSelection_DeepCopyInto_def struct_simps deep_types)

lemma deep_ResourceSpec [deep_types]: "library_law ok lib \<Longrightarrow> deep ok ResourceSpec_ty (ResourceSpec_DeepCopyInto lib)"
  by (simp add: ResourceSpec_ty_def ResourceSpec_DeepCopyInto_def struct_simps deep_types library_lawD)

lemma deep_ScalingSpec [deep_types]: "deep ok ScalingSpec_ty ScalingSpec_DeepCopyInto"
  by (simp add: ScalingSpec_ty_def ScalingSpec_DeepCopyInto_def struct_simps deep_types)

lemma deep_LLMServiceSpec [deep_types]: "library_law ok lib \<Longrightarrow> deep ok LLMServiceSpec_ty (LLMServiceSpec_DeepCopyInto lib)"
  by (simp add: LLMServiceSpec_ty_def LLMServiceSpec_DeepCopyInto_def struct_simps deep_types library_lawD)

lemma deep_LLMServiceStatus [deep_types]: "library_law ok lib \<Longrightarrow> deep ok LLMServiceStatus_ty (LLMServiceStatus_DeepCopyInto lib)"
  by (simp add: LLMServiceStatus_ty_def LLMServiceStatus_DeepCopyInto_def struct_simps deep_types library_lawD)

lemma deep_LLMService [deep_types]: "library_law ok lib \<Longrightarrow> deep ok LLMService_ty (LLMService_DeepCopyInto lib)"
  by (simp add: LLMService_ty_def LLMService_DeepCopyInto_def struct_simps deep_types library_lawD)

lemma deep_LLMServiceList [deep_types]: "library_law ok lib \<Longrightarrow> deep ok LLMServiceList_ty (LLMServiceList_DeepCopyInto lib)"
  by (simp add: LLMServiceList_ty_def LLMServiceList_DeepCopyInto_def struct_simps deep_types library_lawD)

definition api_copies :: "copy_lib \<Rightarrow> (ty \<times> copier) list" where
  "api_copies lib =
     [(AcceleratorFraction_ty, AcceleratorFraction_DeepCopy lib),
      (AcceleratorSharing_ty, AcceleratorSharing_DeepCopy), (RuntimeScheduler_ty, RuntimeScheduler_DeepCopy),
      (AcceleratorSpec_ty, AcceleratorSpec_DeepCopy lib), (CacheSpec_ty, CacheSpec_DeepCopy lib),
      (ColdStartSpec_ty, ColdStartSpec_DeepCopy), (SecretKeyReference_ty, SecretKeyReference_DeepCopy),
      (EndpointAuthenticationSpec_ty, EndpointAuthenticationSpec_DeepCopy),
      (GatewayComputeSpec_ty, GatewayComputeSpec_DeepCopy lib),
      (GatewayResourceSpec_ty, GatewayResourceSpec_DeepCopy lib), (EndpointSpec_ty, EndpointSpec_DeepCopy lib),
      (KEDAAuthenticationReference_ty, KEDAAuthenticationReference_DeepCopy),
      (ExternalScalerTLSSpec_ty, ExternalScalerTLSSpec_DeepCopy),
      (ExternalScalerSpec_ty, ExternalScalerSpec_DeepCopy), (RuntimePort_ty, RuntimePort_DeepCopy),
      (RuntimeContainer_ty, RuntimeContainer_DeepCopy lib), (RuntimeHealth_ty, RuntimeHealth_DeepCopy lib),
      (RuntimeLifecycle_ty, RuntimeLifecycle_DeepCopy), (RuntimeMetrics_ty, RuntimeMetrics_DeepCopy),
      (InferenceRuntimeSpec_ty, InferenceRuntimeSpec_DeepCopy lib),
      (InferenceRuntimeStatus_ty, InferenceRuntimeStatus_DeepCopy lib),
      (InferenceRuntime_ty, InferenceRuntime_DeepCopy lib),
      (InferenceRuntimeList_ty, InferenceRuntimeList_DeepCopy lib), (ModelSource_ty, ModelSource_DeepCopy),
      (ModelSpec_ty, ModelSpec_DeepCopy), (RuntimeSelector_ty, RuntimeSelector_DeepCopy),
      (RuntimeSelection_ty, RuntimeSelection_DeepCopy), (ResourceSpec_ty, ResourceSpec_DeepCopy lib),
      (ScalingSpec_ty, ScalingSpec_DeepCopy), (LLMServiceSpec_ty, LLMServiceSpec_DeepCopy lib),
      (LLMServiceStatus_ty, LLMServiceStatus_DeepCopy lib), (LLMService_ty, LLMService_DeepCopy lib),
      (LLMServiceList_ty, LLMServiceList_DeepCopy lib), (InferenceRuntime_ty, InferenceRuntime_DeepCopyObject lib),
      (InferenceRuntimeList_ty, InferenceRuntimeList_DeepCopyObject lib),
      (LLMService_ty, LLMService_DeepCopyObject lib), (LLMServiceList_ty, LLMServiceList_DeepCopyObject lib)]"

lemma deep_object:
  assumes "deep ok (PtrT T) c"
  shows "deep ok (PtrT T) (\<lambda>v. do { p \<leftarrow> c v; State_Monad.return (if p \<noteq> Ptr None then p else Ptr None) })"
proof -
  have "(if p \<noteq> Ptr None then p else Ptr None) = p" for p by simp
  with assms show ?thesis by simp
qed

lemmas copy_defs =
  AcceleratorFraction_DeepCopy_def AcceleratorSharing_DeepCopy_def RuntimeScheduler_DeepCopy_def
  AcceleratorSpec_DeepCopy_def CacheSpec_DeepCopy_def ColdStartSpec_DeepCopy_def SecretKeyReference_DeepCopy_def
  EndpointAuthenticationSpec_DeepCopy_def GatewayComputeSpec_DeepCopy_def GatewayResourceSpec_DeepCopy_def
  EndpointSpec_DeepCopy_def KEDAAuthenticationReference_DeepCopy_def ExternalScalerTLSSpec_DeepCopy_def
  ExternalScalerSpec_DeepCopy_def RuntimePort_DeepCopy_def RuntimeContainer_DeepCopy_def
  RuntimeHealth_DeepCopy_def RuntimeLifecycle_DeepCopy_def RuntimeMetrics_DeepCopy_def
  InferenceRuntimeSpec_DeepCopy_def InferenceRuntimeStatus_DeepCopy_def InferenceRuntime_DeepCopy_def
  InferenceRuntimeList_DeepCopy_def ModelSource_DeepCopy_def ModelSpec_DeepCopy_def RuntimeSelector_DeepCopy_def
  RuntimeSelection_DeepCopy_def ResourceSpec_DeepCopy_def ScalingSpec_DeepCopy_def LLMServiceSpec_DeepCopy_def
  LLMServiceStatus_DeepCopy_def LLMService_DeepCopy_def LLMServiceList_DeepCopy_def

lemmas object_defs =
  InferenceRuntime_DeepCopyObject_def InferenceRuntimeList_DeepCopyObject_def LLMService_DeepCopyObject_def
  LLMServiceList_DeepCopyObject_def

lemma deep_objects:
  assumes "library_law ok lib"
  shows "deep ok (PtrT InferenceRuntime_ty) (InferenceRuntime_DeepCopyObject lib)"
    and "deep ok (PtrT InferenceRuntimeList_ty) (InferenceRuntimeList_DeepCopyObject lib)"
    and "deep ok (PtrT LLMService_ty) (LLMService_DeepCopyObject lib)"
    and "deep ok (PtrT LLMServiceList_ty) (LLMServiceList_DeepCopyObject lib)"
  unfolding object_defs [abs_def] copy_defs
  by (intro deep_object deep_new deep_types assms)+

lemma api_copies_deep:
  assumes "library_law ok lib"
  shows "list_all (\<lambda>(T, c). deep ok (PtrT T) c) (api_copies lib)"
  by (simp add: api_copies_def copy_defs deep_objects deep_new deep_types assms)

subsection \<open>Nothing is shared\<close>

text \<open>Writes through any pointers, in order.\<close>

definition writes :: "(nat \<times> cell) list \<Rightarrow> heap \<Rightarrow> heap" where
  "writes ws h = foldl (\<lambda>h (a, c). h[a := c]) h ws"

lemma writes_simps [simp]: "writes [] h = h" "writes ((a, c) # ws) h = writes ws (h[a := c])"
  by (simp_all add: writes_def)

lemma length_writes [simp]: "length (writes ws h) = length h"
  by (induction ws arbitrary: h) auto

lemma writes_other: "a \<notin> fst ` set ws \<Longrightarrow> writes ws h ! a = h ! a"
  by (induction ws arbitrary: h) auto

lemma agree_writes: "extends h h' \<Longrightarrow> \<forall>w \<in> set ws. length h \<le> fst w \<Longrightarrow> agree 0 h (writes ws h')"
  by (auto simp: agree_def writes_other extends_nth extends_length)
    (metis extends_nth image_iff leD writes_other)

lemma agree_writes_below: "\<forall>w \<in> set ws. fst w < n \<Longrightarrow> agree n h (writes ws h)"
  by (auto simp: agree_def intro!: writes_other)

text \<open>
  C18. Deep copies share nothing. Take any of the 33 methods \<open>DeepCopy\<close> or the 4 methods \<open>DeepCopyObject\<close>,
  called on a pointer to a well formed value in any memory. The pointer returned stands for the same
  value, the original still stands for it too, no sequence of writes to memory allocated since the call changes what the
  original stands for, and no sequence of writes to the memory there was before the call changes what the copy
  stands for.
\<close>

theorem deep_copies_share_nothing:
  assumes "library_law ok lib" and "(T, c) \<in> set (api_copies lib)"
    and "conforms ok (PtrT T) t" and "denotes h 0 p t" and "run_state (c p) h = (p', h')"
  shows "denotes h' 0 p' t \<and> denotes h' 0 p t \<and>
    (\<forall>ws. (\<forall>w \<in> set ws. length h \<le> fst w) \<longrightarrow> denotes (writes ws h') 0 p t) \<and>
    (\<forall>ws. (\<forall>w \<in> set ws. fst w < length h) \<longrightarrow> denotes (writes ws h') 0 p' t)"
proof -
  have "deep ok (PtrT T) c" using api_copies_deep [OF assms(1)] assms(2) by (auto simp: list_all_iff)
  note copy = deepD [OF this assms(3-5)]
  show ?thesis
    using denotes_mono [OF copy(2) agree_writes_below] denotes_mono [OF assms(4) agree_writes [OF copy(1)]]
      denotes_extends [OF assms(4) copy(1)] denotes_extends [OF copy(2) extends_refl]
    by blast
qed

text \<open>A specification of a model with a source and a secret, in three variables.\<close>

definition model_memory :: heap where
  "model_memory =
     [CVar (Struct [''Name''] [Prim (StringV ''hf'')]),
      CVar (Struct [''URI'', ''SecretRef''] [Prim (StringV ''hf://m''), Ptr (Some 0)]),
      CVar (Struct [''CatalogRef'', ''Source''] [Prim (StringV []), Ptr (Some 1)])]"

definition model_tree :: tree where
  "model_tree = TPtr (TStruct [''CatalogRef'', ''Source'']
     [TPrim (StringV []), TPtr (TStruct [''URI'', ''SecretRef'']
        [TPrim (StringV ''hf://m''), TPtr (TStruct [''Name''] [TPrim (StringV ''hf'')])])])"

lemma model_facts:
  "library_law (\<lambda>e t. \<exists>p. t = TPrim p) (\<lambda>e. assign)"
  "(ModelSpec_ty, ModelSpec_DeepCopy) \<in> set (api_copies lib)"
  "conforms ok (PtrT ModelSpec_ty) model_tree"
  "denotes model_memory 0 (Ptr (Some 2)) model_tree"
  by (auto simp: library_law_def deep_def assign_def api_copies_def model_tree_def model_memory_def ModelSpec_ty_def
    ModelSource_ty_def LocalObjectReference_ty_def)

definition copied_memory :: heap where
  "copied_memory = model_memory @
     [CVar (Struct [''CatalogRef'', ''Source''] [Prim (StringV []), Ptr (Some 4)]),
      CVar (Struct [''URI'', ''SecretRef''] [Prim (StringV ''hf://m''), Ptr (Some 5)]),
      CVar (Struct [''Name''] [Prim (StringV ''hf'')])]"

lemma model_run: "run_state (ModelSpec_DeepCopy (Ptr (Some 2))) model_memory = (Ptr (Some 3), copied_memory)"
  by (simp add: ModelSpec_DeepCopy_def ModelSpec_DeepCopyInto_def ModelSource_DeepCopyInto_def copy_struct_def new_copy_def
    assign_def model_memory_def copied_memory_def)

theorem deep_copies_share_nothing_witness:
  "denotes (writes [(4, CVar Zero)] copied_memory) 0 (Ptr (Some 2)) model_tree \<and>
   denotes (writes [(1, CVar Zero), (0, CVar Zero)] copied_memory) 0 (Ptr (Some 3)) model_tree"
proof -
  note copy = deep_copies_share_nothing [OF model_facts model_run]
  show ?thesis
    using spec [OF conjunct1 [OF conjunct2 [OF conjunct2 [OF copy]]], of "[(4, CVar Zero)]"]
      spec [OF conjunct2 [OF conjunct2 [OF conjunct2 [OF copy]]], of "[(1, CVar Zero), (0, CVar Zero)]"]
    by (simp add: model_memory_def del: writes_simps)
qed

end
