(* ===== verification/Scheme_Registration.thy ===== *)
theory Scheme_Registration
  imports Go_Base
begin

section \<open>The scheme of the operator\<close>

text \<open>
  \<open>api/v1alpha1/groupversion_info.go\<close>, the \<open>init\<close> functions of the two files of types, and the \<open>init\<close> function of
  \<open>cmd/main.go\<close>. A \<open>runtime.Scheme\<close>, with the registration functions of the API machinery, is a
  parameter. The variable \<open>AddToScheme\<close> is a method bound to the address of \<open>SchemeBuilder\<close> before the
  \<open>init\<close> functions run, so a call sees the functions that were registered since.
\<close>

record GroupVersion =
  Group :: string
  Version :: string

definition SchemeGroupVersion :: GroupVersion where
  "SchemeGroupVersion = \<lparr>Group = ''serving.noctaya.io'', Version = ''v1alpha1''\<rparr>"

text \<open>The functions of \<open>runtime.Scheme\<close>, of \<open>metav1\<close> and of \<open>clientgoscheme\<close>.\<close>

record 's scheme_lib =
  AddKnownTypes :: "GroupVersion \<Rightarrow> string list \<Rightarrow> 's \<Rightarrow> 's"
  AddToGroupVersion :: "GroupVersion \<Rightarrow> 's \<Rightarrow> 's"
  client_AddToScheme :: "'s \<Rightarrow> string option \<times> 's"

text \<open>\<open>runtime.SchemeBuilder\<close>: its functions are applied in order, up to the first error.\<close>

type_synonym 's scheme_builder = "('s \<Rightarrow> string option \<times> 's) list"

definition SchemeBuilder_Register :: "('s \<Rightarrow> string option \<times> 's) \<Rightarrow> 's scheme_builder \<Rightarrow> 's scheme_builder" where
  "SchemeBuilder_Register f b = b @ [f]"

fun AddToScheme :: "'s scheme_builder \<Rightarrow> 's \<Rightarrow> string option \<times> 's" where
  "AddToScheme [] s = (None, s)"
| "AddToScheme (f # fs) s = (case f s of (Some e, s) \<Rightarrow> (Some e, s) | (None, s) \<Rightarrow> AddToScheme fs s)"

subsection \<open>Initialisation\<close>

definition SchemeBuilder :: "('s, 'z) scheme_lib_scheme \<Rightarrow> 's scheme_builder" where
  "SchemeBuilder lib = [\<lambda>s. (None, AddToGroupVersion lib SchemeGroupVersion s)]"

definition inferenceruntime_init :: "('s, 'z) scheme_lib_scheme \<Rightarrow> 's scheme_builder \<Rightarrow> 's scheme_builder" where
  "inferenceruntime_init lib =
     SchemeBuilder_Register (\<lambda>s. (None, AddKnownTypes lib SchemeGroupVersion [''InferenceRuntime'', ''InferenceRuntimeList''] s))"

definition llmservice_init :: "('s, 'z) scheme_lib_scheme \<Rightarrow> 's scheme_builder \<Rightarrow> 's scheme_builder" where
  "llmservice_init lib =
     SchemeBuilder_Register (\<lambda>s. (None, AddKnownTypes lib SchemeGroupVersion [''LLMService'', ''LLMServiceList''] s))"

text \<open>The value of \<open>SchemeBuilder\<close> after the package is initialised, its files in the order of their names.\<close>

definition api_builder :: "('s, 'z) scheme_lib_scheme \<Rightarrow> 's scheme_builder" where
  "api_builder lib = llmservice_init lib (inferenceruntime_init lib (SchemeBuilder lib))"

text \<open>The \<open>init\<close> function of the operator; \<open>utilruntime.Must\<close> panics on an error.\<close>

definition operator_scheme :: "('s, 'z) scheme_lib_scheme \<Rightarrow> 's \<Rightarrow> string + 's" where
  "operator_scheme lib s =
     (case client_AddToScheme lib s of
        (Some e, s) \<Rightarrow> Inl e
      | (None, s) \<Rightarrow> (case AddToScheme (api_builder lib) s of (Some e, s) \<Rightarrow> Inl e | (None, s) \<Rightarrow> Inr s))"

subsection \<open>What the scheme recognises\<close>

definition scheme_law :: "('s, 'z) scheme_lib_scheme \<Rightarrow> ('s \<Rightarrow> GroupVersion \<Rightarrow> string \<Rightarrow> bool) \<Rightarrow> bool" where
  "scheme_law lib Recognizes \<longleftrightarrow>
     (\<forall>s v ks v' k. Recognizes (AddKnownTypes lib v ks s) v' k \<longleftrightarrow> v' = v \<and> k \<in> set ks \<or> Recognizes s v' k) \<and>
     (\<forall>s v v' k. Recognizes s v' k \<longrightarrow> Recognizes (AddToGroupVersion lib v s) v' k)"

text \<open>
  The operator starts with a scheme that recognises its four kinds and every kind of the client library. It
  panics only if the client library reports an error.
\<close>

theorem operator_scheme_complete:
  assumes "scheme_law lib Recognizes" and "client_AddToScheme lib s0 = (None, s1)"
  shows "\<exists>s. operator_scheme lib s0 = Inr s \<and>
    (\<forall>k \<in> {''LLMService'', ''LLMServiceList'', ''InferenceRuntime'', ''InferenceRuntimeList''}. Recognizes s SchemeGroupVersion k) \<and>
    (\<forall>v k. Recognizes s1 v k \<longrightarrow> Recognizes s v k)"
  using assms
  by (simp add: operator_scheme_def api_builder_def llmservice_init_def inferenceruntime_init_def SchemeBuilder_def SchemeBuilder_Register_def scheme_law_def)

text \<open>A scheme that lists what was registered.\<close>

definition listed_scheme :: "(GroupVersion \<times> string) list scheme_lib" where
  "listed_scheme =
     \<lparr>AddKnownTypes = (\<lambda>v ks s. map (Pair v) ks @ s), AddToGroupVersion = (\<lambda>v s. (v, ''WatchEvent'') # s),
      client_AddToScheme = (\<lambda>s. (None, (\<lparr>Group = ''apps'', Version = ''v1''\<rparr>, ''Deployment'') # s))\<rparr>"

theorem operator_scheme_complete_witness:
  "\<exists>s. operator_scheme listed_scheme [] = Inr s \<and> (SchemeGroupVersion, ''LLMService'') \<in> set s
     \<and> (\<lparr>Group = ''apps'', Version = ''v1''\<rparr>, ''Deployment'') \<in> set s"
proof -
  have law: "scheme_law listed_scheme (\<lambda>s v k. (v, k) \<in> set s)" by (auto simp: scheme_law_def listed_scheme_def)
  have client: "client_AddToScheme listed_scheme [] = (None, [(\<lparr>Group = ''apps'', Version = ''v1''\<rparr>, ''Deployment'')])"
    by (simp add: listed_scheme_def)
  from operator_scheme_complete [OF law client] show ?thesis by force
qed

end
