(* ===== verification/Spec2Isabelle.thy ===== *)
theory Spec2Isabelle
  imports Scale_From_Zero Proxy Admission Api_Deep_Copy Scheme_Registration
begin

text \<open>
  Noctaya is a Kubernetes operator that serves language models and scales them to zero. It has two
  sides. The control plane, \<open>internal/controller\<close> with \<open>internal/backend\<close> and \<open>internal/model\<close>,
  turns an \<open>LLMService\<close> and the selected \<open>InferenceRuntime\<close> into a backend Deployment, a gateway, a KEDA
  \<open>ScaledObject\<close> and their companions, and reports what it observes. The data plane,
  \<open>internal/gateway\<close> with \<open>cmd/gateway\<close>, is the binary in the gateway pods: it admits and holds requests
  while the backend is cold, publishes the demand, and answers KEDA through the External Push
  protocol, directly or, with several gateway replicas, through a demand aggregator.

  \<^bold>\<open>Theories and sources.\<close> Each theory models the files named and opens with what is a parameter there.
  \<^item> \<^verbatim>\<open>Go_Base\<close>, \<^verbatim>\<open>Go_Strings\<close>, \<^verbatim>\<open>Http\<close>: the parts of Go and its library the sources use: 64-bit
    integers with wrap-around, binary64 rounding, times, maps as association lists, string functions,
    \<open>strconv\<close>, HTTP requests and responses, metric counters.
  \<^item> Data plane: \<^verbatim>\<open>Subscriptions\<close> and \<^verbatim>\<open>Demand_Auth\<close> (\<open>gateway/demand\<close>), \<^verbatim>\<open>Aggregator\<close> and \<^verbatim>\<open>External_Scaler\<close>
    (\<open>gateway/scaler\<close>), \<^verbatim>\<open>Gateway\<close>, \<^verbatim>\<open>Activation\<close>, \<^verbatim>\<open>Proxy\<close> and \<^verbatim>\<open>Reporter\<close> (\<open>gateway/proxy\<close>),
    \<^verbatim>\<open>Gateway_System\<close> (the goroutines of a gateway as a step relation), \<^verbatim>\<open>Gateway_Process\<close>
    (\<open>cmd/gateway/main.go\<close>, \<open>gateway/scaler/tls.go\<close>), \<^verbatim>\<open>Fleet\<close> (several gateways, a network and one
    aggregator, composed of the definitions above).
  \<^item> Rendering: \<^verbatim>\<open>Kube_Types\<close> (\<open>api/v1alpha1\<close> and the Kubernetes objects), \<^verbatim>\<open>Model_Resolve\<close>
    (\<open>model/resolve.go\<close>), \<^verbatim>\<open>Runtime_Render\<close> (\<open>backend/runtime\<close>), \<^verbatim>\<open>Backend_Registry\<close> (\<open>backend/nvidia\<close>,
    \<open>backend/ascend\<close>, \<open>backend/registry\<close>), and for \<open>backend/resources\<close> \<^verbatim>\<open>Model_Cache\<close> (\<open>cache.go\<close>),
    \<^verbatim>\<open>Backend_Resources\<close> (\<open>backend.go\<close>), \<^verbatim>\<open>Gateway_Resources\<close> (\<open>gateway.go\<close>, \<open>scaler.go\<close>, \<open>security.go\<close>) and
    \<^verbatim>\<open>Autoscaling\<close> (\<open>autoscaling.go\<close>).
  \<^item> Control plane, \<open>controller/llmservice\<close>: \<^verbatim>\<open>Kube_Client\<close> (the API server as a parameter),
    \<^verbatim>\<open>Selection\<close> (\<open>selection.go\<close>, \<open>watches.go\<close>), \<^verbatim>\<open>Observation\<close>, \<^verbatim>\<open>Ownership\<close>, \<^verbatim>\<open>Status\<close>, \<^verbatim>\<open>Lifecycle\<close>
    and \<^verbatim>\<open>Controller\<close>, one per file, the last with \<open>controller/inferenceruntime\<close>; \<^verbatim>\<open>Convergence\<close> (what a pass
    leaves in a cluster that stores what it is told), \<^verbatim>\<open>Operator_Process\<close> (\<open>cmd/main.go\<close> and the two
    \<open>SetupWithManager\<close> functions), \<^verbatim>\<open>Admission\<close> (the validation markers of \<open>api/v1alpha1\<close>).
  \<^item> \<^verbatim>\<open>Scale_From_Zero\<close>: the control loop of a gateway or a fleet, KEDA and the cluster, composed of
    \<^verbatim>\<open>Fleet\<close>, \<^verbatim>\<open>External_Scaler\<close>, \<^verbatim>\<open>Activation\<close> and \<^verbatim>\<open>Gateway_System\<close>.
  \<^item> Generated code and initialisation: \<^verbatim>\<open>Go_Memory\<close> (variables, arrays and maps with addresses), \<^verbatim>\<open>Deep_Copy\<close> (the
    statements of a deep copy and the contract each of them keeps), \<^verbatim>\<open>Api_Deep_Copy\<close> (every method of
    \<open>zz_generated.deepcopy.go\<close>), \<^verbatim>\<open>Scheme_Registration\<close> (\<open>groupversion_info.go\<close> and the \<open>init\<close> functions).
  \<^item> This theory: the properties that span the two sides.

  \<^bold>\<open>State and effects.\<close> A struct is a record with its fields, a constant a definition of the same name,
  and every function a definition that takes the state it changes and returns it changed. A section
  under a mutex or an atomic operation is one such function. A clock reading is an argument. What other
  goroutines do while one blocks is an argument as well, or, where their interleaving is the point, a
  step relation (\<open>gw_step\<close>, the aggregator's handlers in \<open>agg_step\<close>, the subscribers in
  \<^verbatim>\<open>Subscriptions\<close>). The controller runs in the state monad over any state of the API server; \<open>logged\<close>
  wraps a client so that the log of its writes can be stated. Errors are values of a sum or option type.
  Values share nothing, as in HOL, except where sharing is the point: the deep copies run on a memory with
  addresses.

  \<^bold>\<open>Interfaces.\<close> \<open>demand_mailbox\<close> is what a holder of a subscription relies on, and \<^verbatim>\<open>Subscriptions\<close> provides
  it; \<open>demand_source\<close> is what the external scaler relies on, and the aggregator provides it;
  \<open>backend_adapter\<close> is what a rendered Deployment relies on, and the NVIDIA and Ascend adapters provide
  it. Each is a locale with the interpretation in the theory of the provider. A single gateway also
  answers KEDA, but does not meet \<open>demand_source\<close>: its subscribers may start from a value other than
  the published one, which is the first finding below.

  \<^bold>\<open>What is shown.\<close>
  \<^item> Demand is exact and is not lost: a gateway never exceeds its queue limit and publishes what it
    has pending, the aggregator implements a map of leased reports and keeps its limits under any
    interleaving of handlers, a subscriber ends at the last value published as soon as that has changed since it
    subscribed, KEDA's stream from the aggregator follows it, what a reporter posts are the demands it took with increasing
    numbers, and whatever the network delays, reorders, repeats or loses, the demand of a fleet is the
    sum, over the gateways whose lease runs, of the newest reports delivered.
  \<^item> Requests are served properly: tokens and counters are given back on every path, each response is counted
    once except in two cases that are named, a held request
    ends within its timeout with a result that is due, only an authenticated client reaches the backend, and the activation lease
    keeps the demand up until the backend is ready. A held request keeps its gateway, or the aggregator its gateway
    reports to, active for KEDA all the time, and when the cluster starts a backend within the time left it gets through.
  \<^item> The objects that are rendered fit together: the Service finds the port of the pod, the script of the prewarm Job
    ends by creating the file that the script of the backend waits for, the address in the autoscaler's trigger leads to
    the port on which a demand source listens, selectors do not
    overlap, paths stay below their mount, and the grace period covers the drain.
  \<^item> The controller is safe against any answer of the API server: it changes only what it controls,
    in the planned order, the autoscaler first, and stops at the first error; its choice of a runtime equals the declarative one; its
    status is consistent, independent of list order, and its retries end.
  \<^item> The controller converges: after a pass without an error every rendered object is stored under its
    control, and the disruption budget, the aggregator and the shared Secret that are no longer rendered have been deleted as far as
    the client sees them (a cache claim and a prewarm Job never are), the next pass changes no object, a status that is up to date
    is not written again, and every later change of an object of the pass, the Secret included, queues the service. The operator
    starts only fully set up and converts its replica count without loss.
  \<^item> Admission and the controller agree up to a list: for a service that the API server admits, the
    conditions under which nothing can be rendered are given exactly, each with its reason.
  \<^item> Deep copies share nothing: no write to a copy of any resource or part of one shows in its original, and
    none to the original in the copy. The scheme of the operator recognises its kinds.
  \<^item> Both sides agree: the process reads the configuration the operator wrote, the aggregator accepts
    every report a gateway can send, TLS is never dropped, the process ends within the grace period of its
    pod and gives back all it opened but, in one case, HTTP connections, and the pods the controller watches are those it observes.

  \<^bold>\<open>Bounds and fuel.\<close> The waiting loops take a number of polls; \<open>waiting_terminates\<close> gives the number that is
  enough from the timeout and the retry interval. The conflict retry takes the number of attempts of
  \<open>retry.DefaultRetry\<close> as an argument, and its property holds for every number. Regular expressions
  are matched by derivatives and every other loop is structural. Integers of the custom resources are
  mathematical integers, with the range of 32 bits as a hypothesis where it matters; sequence numbers are
  64-bit words, and the sum of demands saturates as in the code.

  \<^bold>\<open>Parameters.\<close> The API server and the owner references (laws \<open>get_law\<close>, \<open>service_law\<close>,
  \<open>reference_law\<close>, \<open>condition_law\<close>, \<open>store_law\<close>, \<open>carries_law\<close>, \<open>idempotent_law\<close>, \<open>settled_law\<close>, shown to be
  satisfiable by an API server in memory), with reads through a cache that sees some of the objects only and deletions that
  may wait for finalizers (\<open>view\<close>), the manager of controller-runtime (\<open>owns_law\<close>, \<open>labels_law\<close>), the JSON codec of the reports (\<open>decodes\<close>),
  the deep copies of other packages (\<open>library_law\<close>), \<open>runtime.Scheme\<close> (\<open>scheme_law\<close>), KEDA and the start of pods
  (\<open>scales_within\<close>), \<open>text/template\<close>, the text of durations, JSON and SHA-256, the random source, the file system, URL parsing, the HTTP and
  gRPC servers and clients, the reverse proxy and the TLS library.

  \<^bold>\<open>Findings.\<close> The theorems \<open>Subscribe_other_value_misses_publish\<close>, \<open>pending_gauge_can_stay_wrong\<close>,
  \<open>cancelled_probe_is_shared\<close>, \<open>pvc_source_waits_forever\<close> and \<open>process_releases_everything\<close> show behaviour that the code does not
  intend; a response whose body breaks off is not counted (\<open>serve_accounts\<close>).

  \<^bold>\<open>Not modelled.\<close> The generated gRPC bindings have no logic of their own; \<open>test/vllm-stub\<close> is a test server. The
  API server enforces the admission rules, and only the theorems of \<^verbatim>\<open>Admission\<close> assume them. Log lines are
  left out.
\<close>

section \<open>Properties across components\<close>

subsection \<open>The operator and the processes it configures\<close>

definition rendered_config :: "LLMService \<Rightarrow> Config" where
  "rendered_config svc =
     (let spec = svc_Spec svc; coldStart = ep_ColdStart (sp_Endpoint spec)
      in \<lparr>BackendURL = ''http://'' @ BackendServiceName svc @ ''.'' @ svc_Namespace svc @ ''.svc:80'',
          MaxQueue = gatewayMaxQueue svc,
          ActivationTimeout = max 0 (sc_ActivationTimeout (sp_Scaling spec)),
          RetryInterval = 0,
          ColdStartMode = cs_Mode coldStart,
          HeartbeatInterval = (if cs_Mode coldStart = [] then 0 else max 0 (cs_HeartbeatInterval coldStart)),
          ClientAPIKeyFile = (if ep_Authentication (sp_Endpoint spec) = None then [] else clientAPIKeyPath),
          ActivationGracePeriod = 0\<rparr>)"

text \<open>
  C15. What the operator writes, the gateway reads: the configuration that a gateway process reads from the
  environment of its rendered pod is the one of the service, for every number of replicas and with
  every combination of optional settings. The text of a duration is only assumed to be parsed back by
  the standard library, and the empty text not to be a duration.
\<close>

theorem gateway_config_roundtrip:
  assumes "runs_in h uid (gateway_pod ds svc img r)"
    and "\<forall>d > 0. h_parseDuration h (ds d) = Some d" and "h_parseDuration h [] = None"
    and "ep_MaxQueue (sp_Endpoint (svc_Spec svc)) < 2 ^ 31"
  shows "ConfigFromEnv (h_parseDuration h) (h_getenv h) = rendered_config svc"
proof -
  note env = gateway_pod_getenv [OF assms(1)]
  have "h_getenv h EnvMaxQueue = itoa (gatewayMaxQueue svc)" by (simp add: env rendered_env)
  then have queue: "ParseInt (h_getenv h EnvMaxQueue) = Some (gatewayMaxQueue svc)"
    using gatewayMaxQueue_range [OF assms(4)] by (simp add: ParseInt_itoa)
  let ?t = "sc_ActivationTimeout (sp_Scaling (svc_Spec svc))"
  have "h_getenv h EnvActivationTimeout = (if ?t > 0 then ds ?t else [])" by (simp add: env rendered_env)
  then have timeout: "(case h_parseDuration h (h_getenv h EnvActivationTimeout) of Some d \<Rightarrow> d | None \<Rightarrow> 0) = max 0 ?t"
    using assms(2,3) by simp
  let ?c = "ep_ColdStart (sp_Endpoint (svc_Spec svc))"
  have "h_getenv h EnvHeartbeatInterval = (if cs_Mode ?c \<noteq> [] \<and> cs_HeartbeatInterval ?c > 0 then ds (cs_HeartbeatInterval ?c) else [])"
    by (simp add: env rendered_env)
  then have heartbeat: "(case h_parseDuration h (h_getenv h EnvHeartbeatInterval) of Some d \<Rightarrow> d | None \<Rightarrow> 0)
      = (if cs_Mode ?c = [] then 0 else max 0 (cs_HeartbeatInterval ?c))"
    using assms(2,3) by simp
  have rest: "h_getenv h EnvBackendURL = ''http://'' @ BackendServiceName svc @ ''.'' @ svc_Namespace svc @ ''.svc:80''"
    "h_getenv h EnvColdStartMode = cs_Mode ?c"
    "h_getenv h EnvClientAPIKeyFile = (if ep_Authentication (sp_Endpoint (svc_Spec svc)) = None then [] else clientAPIKeyPath)"
    by (simp_all add: env rendered_env)
  show ?thesis unfolding ConfigFromEnv_def rendered_config_def Let_def queue timeout heartbeat rest by simp
qed

text \<open>A gateway in the pod of the example service with two replicas; durations are written in unary.\<close>

definition unary :: "duration \<Rightarrow> string" where
  "unary d = replicate (nat d) CHR ''x''"

definition example_gateway_env :: "string \<Rightarrow> string" where
  "example_gateway_env = container_env ''u1'' (gateway_env unary example_svc 2 @ client_auth_env example_svc
     @ [EnvVar EnvAuthTokenFile demandAuthTokenPath])"

definition example_gateway_host :: "unit host" where
  "example_gateway_host = (example_host example_gateway_env)
     \<lparr>h_parseDuration := (\<lambda>t. if t = [] then None else Some (int (length t)))\<rparr>"

lemma example_gateway_host_simps [simp]:
  "h_getenv example_gateway_host = example_gateway_env"
  "h_parseURL example_gateway_host u = Some \<lparr>url_Scheme = ''http'', url_Host = ''backend'', url_String = u\<rparr>"
  "h_readFile example_gateway_host = (\<lambda>_. Some (replicate 32 CHR ''t''))"
  "h_random example_gateway_host = Some (replicate 12 CHR ''r'')"
  "h_listen example_gateway_host l addr = None"
  by (simp_all add: example_gateway_host_def example_host_def)

lemma example_gateway_runs_in: "runs_in example_gateway_host ''u1'' (gateway_pod unary example_svc ''gw:1'' 2)"
  using gateway_pod_env [of unary example_svc "''gw:1''" 2] by (auto simp: runs_in_def example_gateway_env_def)

lemma example_parse_duration:
  "\<forall>d > 0. h_parseDuration example_gateway_host (unary d) = Some d" "h_parseDuration example_gateway_host [] = None"
  by (simp_all add: example_gateway_host_def unary_def)

lemma example_max_queue: "gatewayMaxQueue example_svc = 7" "ep_MaxQueue (sp_Endpoint (svc_Spec example_svc)) < 2 ^ 31"
  by (simp_all add: gatewayMaxQueue_def example_svc_def)

theorem gateway_config_roundtrip_witness:
  "ConfigFromEnv (h_parseDuration example_gateway_host) (h_getenv example_gateway_host) = rendered_config example_svc
     \<and> MaxQueue (rendered_config example_svc) = 7 \<and> ActivationTimeout (rendered_config example_svc) = 5 * Minute
     \<and> HeartbeatInterval (rendered_config example_svc) = 10 * Second"
proof -
  have "MaxQueue (rendered_config example_svc) = 7" by (simp add: rendered_config_def example_max_queue Let_def)
  moreover have "ActivationTimeout (rendered_config example_svc) = 5 * Minute" "HeartbeatInterval (rendered_config example_svc) = 10 * Second"
    by (simp_all add: rendered_config_def example_svc_def duration_defs Let_def)
  ultimately show ?thesis
    using gateway_config_roundtrip [OF example_gateway_runs_in example_parse_duration example_max_queue(2)] by blast
qed

text \<open>
  C8. The gateways and the aggregator of a service agree: every demand that a gateway can have, in every
  state its goroutines reach, is a report that the aggregator accepts as valid, both read the same
  token file, and the aggregator has room for four times the gateway replicas, which covers a rolling update.
\<close>

theorem reports_are_valid:
  assumes "runs_in hg uid (gateway_pod ds svc img r)" and "runs_in hs uid' (scaler_pod svc img' r)"
    and "1 < r" and "r < 2 ^ 31" and "ep_MaxQueue (sp_Endpoint (svc_Spec svc)) < 2 ^ 31"
    and "uid \<noteq> []" and "length uid \<le> 64" and "\<forall>bytes. h_random hg = Some bytes \<longrightarrow> length bytes = 12"
    and "OpenGateway g \<in> set (fst (snd (run_process hg modeGateway e)))"
    and "StartReporter rep \<in> set (fst (snd (run_process hg modeGateway e)))"
    and "StartAggregator a \<in> set (fst (snd (run_process hs modeAggregator e')))"
    and "gw_reach g s" and "q \<noteq> 0"
  shows "valid_report (maxDemand a) \<lparr>rep_MemberID = dr_memberID rep, rep_Sequence = q, rep_Demand = Gateway.Demand now (gw s)\<rparr>
    \<and> agg_authTokenFile a = dr_authTokenFile rep \<and> r * 4 \<le> maxMembers a"
proof -
  note env = gateway_pod_getenv [OF assms(1)]
  have mode: "run_process hg modeGateway e = runGateway hg e" "run_process hs modeAggregator e' = runAggregator hs e'"
    by (simp_all add: run_process_def modeGateway_def modeAggregator_def)
  have a: "a = rendered_aggregator svc r" using started_aggregator [OF assms(2,4,5)] assms(11) mode by simp
  have agg: "maxDemand a = gatewayMaxQueue svc" "agg_authTokenFile a = demandAuthTokenPath" "r * 4 \<le> maxMembers a"
    using gatewayMaxQueue_range [OF assms(5)] by (auto simp: a rendered_aggregator_def NewDemandAggregator_def)
  have "h_getenv hg EnvMaxQueue = itoa (gatewayMaxQueue svc)" "h_getenv hg EnvGatewayID = uid" "h_getenv hg EnvAuthTokenFile = demandAuthTokenPath"
    using assms(3) by (simp_all add: env rendered_env)
  then have queue: "MaxQueue (ConfigFromEnv (h_parseDuration hg) (h_getenv hg)) = gatewayMaxQueue svc"
    and rc: "rc_GatewayID (reporter_config hg u) = uid" "rc_AuthTokenFile (reporter_config hg u) = demandAuthTokenPath" for u
    using gatewayMaxQueue_range [OF assms(5)] assms(6)
    by (simp_all add: ConfigFromEnv_def ParseInt_itoa reporter_config_def processGatewayID_def)
  have g: "New (h_parseURL hg) (h_readFile hg) (ConfigFromEnv (h_parseDuration hg) (h_getenv hg)) = Inr g"
    using started_gateway assms(9) mode by simp
  have "gw_inv s" by (rule gw_reach_inv [OF assms(12) g]) (simp add: queue gatewayMaxQueue_range [OF assms(5)])
  then have "in_range (gw s) (Gateway.Demand now (gw s))"
    using admission_pending [of s] by (simp add: gw_inv_def Demand_in_range)
  moreover have "sem_cap (gw s) = gatewayMaxQueue svc"
    using gw_reach_cap [OF assms(12)] New_Inr [OF g] gatewayMaxQueue_range [OF assms(5)] queue by (simp add: with_defaults_def)
  ultimately have demand: "0 \<le> Gateway.Demand now (gw s)" "Gateway.Demand now (gw s) \<le> maxDemand a"
    by (simp_all add: in_range_def agg)
  obtain sfx where "h_random hg = Some sfx" "dr_memberID rep = uid @ ''/'' @ hex_encode sfx" "dr_authTokenFile rep = demandAuthTokenPath"
    using NewDemandReporter_Inr [OF started_reporter [of rep hg e]] assms(10) mode rc by auto
  then show ?thesis using demand agg assms(7,8,13) by (simp add: valid_report_def maxMemberIDLength_def)
qed

lemma example_gateway_env_values:
  "example_gateway_env EnvBackendURL = ''http://'' @ BackendServiceName example_svc @ ''.'' @ svc_Namespace example_svc @ ''.svc:80''"
  "example_gateway_env EnvClientAPIKeyFile = []" "example_gateway_env EnvDemandAggregatorURL = GatewayDemandReportURL example_svc"
  "example_gateway_env EnvGatewayID = ''u1''" "example_gateway_env EnvAuthTokenFile = demandAuthTokenPath"
  by (simp_all add: example_gateway_env_def rendered_env) (simp add: example_svc_def)

lemma example_gateway_starts:
  "\<exists>g rep. OpenGateway g \<in> set (fst (snd (run_process example_gateway_host modeGateway e)))
     \<and> StartReporter rep \<in> set (fst (snd (run_process example_gateway_host modeGateway e)))"
proof -
  obtain rep where "NewDemandReporter (h_parseURL example_gateway_host) (h_readFile example_gateway_host) (h_random example_gateway_host) True
      (reporter_config example_gateway_host (GatewayDemandReportURL example_svc)) = Inr rep"
    using example_shared_token by (simp add: NewDemandReporter_def absolute_http_def reporter_config_def processGatewayID_def example_gateway_env_values)
  moreover obtain g where "New (h_parseURL example_gateway_host) (h_readFile example_gateway_host)
      (ConfigFromEnv (h_parseDuration example_gateway_host) example_gateway_env) = Inr g"
    by (simp add: New_def absolute_http_def ConfigFromEnv_def example_gateway_env_values)
  moreover have "BackendURL (ConfigFromEnv (h_parseDuration example_gateway_host) example_gateway_env) \<noteq> []"
    by (simp add: ConfigFromEnv_def example_gateway_env_values)
  ultimately have "OpenGateway g \<in> set (fst (snd (runGateway example_gateway_host e)))"
    "StartReporter rep \<in> set (fst (snd (runGateway example_gateway_host e)))"
    by (simp_all add: runGateway_def run_reporting_def example_gateway_env_values report_url_nonempty Let_def split: prod.split)
  then show ?thesis by (auto simp: run_process_def)
qed

lemma example_aggregator_starts:
  "\<exists>a. StartAggregator a \<in> set (fst (snd (run_process (example_scaler_host example_svc) modeAggregator e)))"
proof -
  have "h_readFile (example_scaler_host example_svc) = (\<lambda>_. Some (replicate 32 CHR ''t''))"
    by (simp add: example_scaler_host_def example_host_def)
  then show ?thesis
    using rendered_aggregator_run [OF example_scaler_runs_in, of example_svc e] example_shared_token example_max_queue(2)
    by (auto simp: run_process_def modeAggregator_def modeGateway_def split: prod.splits)
qed

theorem reports_are_valid_witness:
  "\<exists>(g :: gateway) (rep :: DemandReporter) (a :: demandAggregator). valid_report (maxDemand a) \<lparr>rep_MemberID = dr_memberID rep, rep_Sequence = 1, rep_Demand = Gateway.Demand 5 (gw (gw_start g))\<rparr>
     \<and> agg_authTokenFile a = dr_authTokenFile rep \<and> 8 \<le> maxMembers a"
proof -
  obtain g rep where gr: "OpenGateway g \<in> set (fst (snd (run_process example_gateway_host modeGateway example_ending)))"
    "StartReporter rep \<in> set (fst (snd (run_process example_gateway_host modeGateway example_ending)))"
    using example_gateway_starts by blast
  obtain a where a: "StartAggregator a \<in> set (fst (snd (run_process (example_scaler_host example_svc) modeAggregator example_ending)))"
    using example_aggregator_starts by blast
  have r: "(1::int) < 2" "(2::int) < 2 ^ 31" and u: "''u1'' \<noteq> []" "length ''u1'' \<le> 64"
    and bytes: "\<forall>bytes. h_random example_gateway_host = Some bytes \<longrightarrow> length bytes = 12" and q: "(1 :: uint64) \<noteq> 0"
    by simp_all
  from reports_are_valid [OF example_gateway_runs_in example_scaler_runs_in r example_max_queue(2) u bytes gr a gw_reach.start q, of 5]
  show ?thesis by force
qed

subsection \<open>The controller and the pods it renders\<close>

text \<open>
  A pod of a template carries the labels of the template; the cluster may add labels, but none of the
  three that the controller reads.
\<close>

definition pod_of :: "string \<Rightarrow> podTemplate \<Rightarrow> pod \<Rightarrow> bool" where
  "pod_of ns t p \<longleftrightarrow> om_Namespace (pod_Meta p) = ns
     \<and> list_all (\<lambda>k. map_of (om_Labels (pod_Meta p)) k = map_of (pt_Labels t) k)
         [Selection.managedByLabel, Selection.llmServiceLabel, Selection.runtimeLabel]"

lemma label_neq [simp]:
  "Model_Cache.managedByLabel = Selection.managedByLabel" "Model_Cache.managedByValue = Selection.managedByValue"
  "Model_Cache.llmServiceLabel = Selection.llmServiceLabel" "Model_Cache.runtimeLabel = Selection.runtimeLabel"
  "nameLabel \<noteq> Selection.managedByLabel" "nameLabel \<noteq> Selection.llmServiceLabel" "nameLabel \<noteq> Selection.runtimeLabel"
  "Selection.managedByLabel \<noteq> Selection.llmServiceLabel" "Selection.managedByLabel \<noteq> Selection.runtimeLabel"
  "Selection.llmServiceLabel \<noteq> Selection.managedByLabel" "Selection.llmServiceLabel \<noteq> Selection.runtimeLabel"
  "Selection.managedByLabel \<noteq> nameLabel" "Selection.llmServiceLabel \<noteq> nameLabel" "Selection.runtimeLabel \<noteq> nameLabel"
  "Selection.runtimeLabel \<noteq> Selection.managedByLabel" "Selection.runtimeLabel \<noteq> Selection.llmServiceLabel"
  "Selection.runtimeLabel \<noteq> gatewayLabel" "Selection.runtimeLabel \<noteq> scalerLabel"
  by (simp_all add: label_defs Selection.managedByLabel_def Selection.managedByValue_def Selection.llmServiceLabel_def
      Selection.runtimeLabel_def gatewayLabel_def scalerLabel_def)

lemma backend_pod_labels:
  "map_of (podLabels svc rt) Selection.managedByLabel = Some Selection.managedByValue"
  "map_of (podLabels svc rt) Selection.llmServiceLabel = Some (svc_Name svc)"
  "map_of (podLabels svc rt) Selection.runtimeLabel = Some (rt_Name rt)"
  by (simp_all add: podLabels_def SelectorLabels_def map_of_alist_update)

lemma other_pod_labels:
  "map_of (gatewaySelectorLabels svc) Selection.runtimeLabel = None"
  "map_of (scalerSelectorLabels svc) Selection.runtimeLabel = None"
  "map_of (SelectorLabels svc) Selection.runtimeLabel = None"
  by (simp_all add: gatewaySelectorLabels_def scalerSelectorLabels_def SelectorLabels_def)

lemma backend_template:
  "BuildBackendDeployment sd adapter svc rt model = Inr dep \<Longrightarrow> pt_Labels (dep_Template dep) = podLabels svc rt"
  by (auto simp: BuildBackendDeployment_def split: sum.splits)

lemma unlabelled_pod:
  assumes "pod_of ns t p" and "map_of (pt_Labels t) Selection.runtimeLabel = None"
  shows "serviceForBackendPod p = [] \<and> \<not> selects (backend_labels svc rt) (om_Labels (pod_Meta p))"
  using assms by (simp add: pod_of_def serviceForBackendPod_def lookup0_def backend_labels_def selects_def)

lemma rendered_templates:
  "BuildGatewayDeployment ds svc img r = Inr gd \<Longrightarrow> pt_Labels (dep_Template gd) = gatewaySelectorLabels svc"
  "BuildGatewayScalerDeployment svc img r = Some sd \<Longrightarrow> pt_Labels (dep_Template sd) = scalerSelectorLabels svc"
  "BuildPrewarmJob dg svc rt model = Inr (Some j) \<Longrightarrow> pt_Labels (job_Template (job_Spec j)) = SelectorLabels svc"
  by (auto simp: BuildGatewayDeployment_def BuildGatewayScalerDeployment_def noctaya_deployment_def BuildPrewarmJob_def prewarm_job_def Let_def
      split: if_splits option.splits sum.splits)

text \<open>
  C37. The controller watches exactly the pods it observes: a change of a pod of the backend requests a
  reconcile of its own service, which lists that pod, and a change of a gateway, aggregator or prewarm
  pod requests none and is in no list of backend pods, although they carry labels of the same service.
\<close>

theorem backend_pods_are_watched:
  assumes "renderDesired be r svc rt adapter model = Inr desired" and "svc_Name svc \<noteq> []" and "rt_Name rt \<noteq> []"
  shows "(pod_of (svc_Namespace svc) (dep_Template (d_backendDeployment desired)) p \<longrightarrow>
      serviceForBackendPod p = [(svc_Namespace svc, svc_Name svc)] \<and> selects (backend_labels svc rt) (om_Labels (pod_Meta p)))
    \<and> (pod_of ns (dep_Template (d_gatewayDeployment desired)) p
       \<or> (\<exists>sd. d_scalerDeployment desired = Some sd \<and> pod_of ns (dep_Template sd) p)
       \<or> (\<exists>j. d_prewarmJob desired = Some j \<and> pod_of ns (job_Template (job_Spec j)) p) \<longrightarrow>
      serviceForBackendPod p = [] \<and> \<not> selects (backend_labels svc' rt') (om_Labels (pod_Meta p)))"
proof -
  have t: "pt_Labels (dep_Template (d_backendDeployment desired)) = podLabels svc rt"
    "pt_Labels (dep_Template (d_gatewayDeployment desired)) = gatewaySelectorLabels svc"
    "\<And>sd. d_scalerDeployment desired = Some sd \<Longrightarrow> pt_Labels (dep_Template sd) = scalerSelectorLabels svc"
    "\<And>j. d_prewarmJob desired = Some j \<Longrightarrow> pt_Labels (job_Template (job_Spec j)) = SelectorLabels svc"
    using assms(1) by (auto simp: renderDesired_def dest: backend_template rendered_templates split: sum.splits)
  show ?thesis
  proof (intro conjI impI)
    assume "pod_of (svc_Namespace svc) (dep_Template (d_backendDeployment desired)) p"
    then show "serviceForBackendPod p = [(svc_Namespace svc, svc_Name svc)]" "selects (backend_labels svc rt) (om_Labels (pod_Meta p))"
      using assms(2,3) t(1)
      by (simp_all add: pod_of_def serviceForBackendPod_def lookup0_def backend_labels_def selects_def backend_pod_labels)
  next
    assume "pod_of ns (dep_Template (d_gatewayDeployment desired)) p
       \<or> (\<exists>sd. d_scalerDeployment desired = Some sd \<and> pod_of ns (dep_Template sd) p)
       \<or> (\<exists>j. d_prewarmJob desired = Some j \<and> pod_of ns (job_Template (job_Spec j)) p)"
    then obtain tpl where "pod_of ns tpl p" "map_of (pt_Labels tpl) Selection.runtimeLabel = None"
      using t other_pod_labels by metis
    then show "serviceForBackendPod p = []" "\<not> selects (backend_labels svc' rt') (om_Labels (pod_Meta p))"
      using unlabelled_pod by blast+
  qed
qed

definition example_backend_pod :: pod where
  "example_backend_pod = \<lparr>pod_Meta = object_meta ''qwen-0'' ''ai'' ((''pod-template-hash'', ''5f'') # podLabels example_svc example_rt),
     pod_Phase = ''Running'', pod_ContainerStatuses = [], pod_Conditions = []\<rparr>"

theorem backend_pods_are_watched_witness:
  "serviceForBackendPod example_backend_pod = [(''ai'', ''qwen'')]"
proof -
  obtain d where d: "renderDesired example_build memory_reconciler example_svc example_rt (nvidia_New plain_text) example_model = Inr d"
    using example_rendered by blast
  have names: "svc_Name example_svc = ''qwen''" "svc_Namespace example_svc = ''ai''" "rt_Name example_rt \<noteq> []"
    by (simp_all add: example_svc_def example_rt_def meta0_def)
  have "pt_Labels (dep_Template (d_backendDeployment d)) = podLabels example_svc example_rt"
    using d by (auto simp: renderDesired_def dest: backend_template split: sum.splits)
  then have "pod_of (svc_Namespace example_svc) (dep_Template (d_backendDeployment d)) example_backend_pod"
    by (simp add: pod_of_def example_backend_pod_def names)
      (simp add: Selection.managedByLabel_def Selection.llmServiceLabel_def Selection.runtimeLabel_def)
  then show ?thesis using backend_pods_are_watched [OF d, of example_backend_pod] names by simp
qed

end
